(* ===== verification/Prelude.thy ===== *)
theory Prelude
  imports Complex_Main "HOL-Library.AList" "HOL-Library.Sublist"
begin

text \<open>
  What every component of the gateway model shares: Python values and the part of the
  standard library the source uses.

  A Python \<open>str\<close> is a HOL \<open>string\<close> whose \<open>char\<close>s are the code points 0 to 255 (Latin-1);
  the character predicates below are the ones Python has on that range. A Python \<open>float\<close>
  is the rational number it denotes (\<open>py_float\<close>): float arithmetic is modelled exactly, the
  rounding error of a single IEEE operation is not modelled. A decoded JSON or YAML
  value is a \<open>json\<close>. A \<open>dict\<close> whose order matters is an association list with
  Python's update rule (\<open>AList.update\<close>: an existing key keeps its place, a new key goes
  last), a \<open>dict\<close> whose order does not matter is a map.
\<close>

section \<open>Collections of facts\<close>

named_theorems frame
  \<open>what an operation leaves unchanged\<close>

named_theorems inv_intros
  \<open>an operation keeps an invariant\<close>

section \<open>Numbers\<close>

type_synonym py_float = rat

text \<open>\<open>round(x, n)\<close>: to the nearest multiple of \<open>10 ** -n\<close>, ties to even.\<close>

definition round_half_even :: "rat \<Rightarrow> int" where
  "round_half_even x =
     (let f = \<lfloor>x\<rfloor>; d = x - of_int f in
      if d < 1 / 2 then f
      else if 1 / 2 < d then f + 1
      else if even f then f else f + 1)"

definition py_round :: "py_float \<Rightarrow> nat \<Rightarrow> py_float" where
  "py_round x n = of_int (round_half_even (x * 10 ^ n)) / 10 ^ n"

lemma round_half_even_of_int [simp]: "round_half_even (of_int z) = z"
  by (simp add: round_half_even_def)

lemma round_half_even_error: "\<bar>of_int (round_half_even x) - x\<bar> \<le> 1 / 2"
proof -
  have "of_int \<lfloor>x\<rfloor> \<le> x" and "x < of_int \<lfloor>x\<rfloor> + 1"
    by linarith+
  then show ?thesis
    unfolding round_half_even_def Let_def by (auto simp: abs_le_iff split: if_splits)
qed

lemma round_half_even_mono:
  assumes "x \<le> y" shows "round_half_even x \<le> round_half_even y"
proof (cases "\<lfloor>x\<rfloor> = \<lfloor>y\<rfloor>")
  case True
  then show ?thesis using assms by (auto simp: round_half_even_def Let_def)
next
  case False
  with floor_mono [OF assms] have "\<lfloor>x\<rfloor> + 1 \<le> \<lfloor>y\<rfloor>" by linarith
  then show ?thesis by (auto simp: round_half_even_def Let_def)
qed

lemma py_round_0 [simp]: "py_round 0 n = 0"
  by (simp add: py_round_def round_half_even_def)

lemma py_round_mono: "x \<le> y \<Longrightarrow> py_round x n \<le> py_round y n"
  by (simp add: py_round_def divide_right_mono round_half_even_mono mult_right_mono)

lemma py_round_nonneg: "0 \<le> x \<Longrightarrow> 0 \<le> py_round x n"
  using py_round_mono [of 0 x n] by simp

lemma py_round_error: "\<bar>py_round x n - x\<bar> \<le> 1 / (2 * 10 ^ n)"
proof -
  have "\<bar>of_int (round_half_even (x * 10 ^ n)) - x * 10 ^ n\<bar> / 10 ^ n \<le> (1 / 2) / 10 ^ n"
    by (intro divide_right_mono round_half_even_error) simp
  moreover have "\<bar>py_round x n - x\<bar> = \<bar>of_int (round_half_even (x * 10 ^ n)) - x * 10 ^ n\<bar> / 10 ^ n"
  proof -
    have "py_round x n - x = (of_int (round_half_even (x * 10 ^ n)) - x * 10 ^ n) / 10 ^ n"
      by (simp add: py_round_def diff_divide_distrib)
    then show ?thesis by (simp add: abs_divide)
  qed
  ultimately show ?thesis by simp
qed

section \<open>Characters and strings\<close>

abbreviation code :: "char \<Rightarrow> nat" where
  "code c \<equiv> of_char c"

text \<open>\<open>\d\<close> and \<open>\w\<close> of the \<open>re\<close> module on Latin-1 text.\<close>

definition is_digit :: "char \<Rightarrow> bool" where
  "is_digit c \<longleftrightarrow> 48 \<le> code c \<and> code c \<le> 57"

definition is_upper_ascii :: "char \<Rightarrow> bool" where
  "is_upper_ascii c \<longleftrightarrow> 65 \<le> code c \<and> code c \<le> 90"

definition is_lower_ascii :: "char \<Rightarrow> bool" where
  "is_lower_ascii c \<longleftrightarrow> 97 \<le> code c \<and> code c \<le> 122"

definition is_word :: "char \<Rightarrow> bool" where
  "is_word c \<longleftrightarrow>
     is_digit c \<or> is_upper_ascii c \<or> is_lower_ascii c \<or> code c = 95 \<or>
     code c \<in> {170, 178, 179, 181, 185, 186, 188, 189, 190} \<or>
     (192 \<le> code c \<and> code c \<noteq> 215 \<and> code c \<noteq> 247)"

text \<open>The characters \<open>str.strip()\<close> removes.\<close>

definition is_space :: "char \<Rightarrow> bool" where
  "is_space c \<longleftrightarrow> (9 \<le> code c \<and> code c \<le> 13) \<or> (28 \<le> code c \<and> code c \<le> 32) \<or>
     code c = 133 \<or> code c = 160"

definition lower_char :: "char \<Rightarrow> char" where
  "lower_char c =
     (if is_upper_ascii c \<or> (192 \<le> code c \<and> code c \<le> 222 \<and> code c \<noteq> 215)
      then char_of (code c + 32) else c)"

definition lower :: "string \<Rightarrow> string" where
  "lower s = map lower_char s"

definition strip :: "string \<Rightarrow> string" where
  "strip s = rev (dropWhile is_space (rev (dropWhile is_space s)))"

text \<open>\<open>needle in haystack\<close>.\<close>

fun str_in :: "string \<Rightarrow> string \<Rightarrow> bool" where
  "str_in xs [] \<longleftrightarrow> xs = []"
| "str_in xs (y # ys) \<longleftrightarrow> prefix xs (y # ys) \<or> str_in xs ys"

lemma str_in_iff: "str_in xs ys \<longleftrightarrow> (\<exists>us vs. ys = us @ xs @ vs)"
proof (induction ys)
  case Nil
  then show ?case by auto
next
  case (Cons y ys)
  show ?case
  proof
    assume "str_in xs (y # ys)"
    then show "\<exists>us vs. y # ys = us @ xs @ vs"
    proof (simp only: str_in.simps, elim disjE)
      assume "prefix xs (y # ys)"
      then show ?thesis by (metis append_Nil prefixE)
    next
      assume "str_in xs ys"
      with Cons.IH show ?thesis by (metis append_Cons)
    qed
  next
    assume "\<exists>us vs. y # ys = us @ xs @ vs"
    then obtain us vs where eq: "y # ys = us @ xs @ vs" by blast
    show "str_in xs (y # ys)"
    proof (cases us)
      case Nil
      with eq have "prefix xs (y # ys)" by (metis append_Nil prefixI)
      then show ?thesis by simp
    next
      case (Cons u us')
      with eq have "ys = us' @ xs @ vs" by simp
      with Cons.IH show ?thesis by auto
    qed
  qed
qed

text \<open>\<open>sep.join(parts)\<close>.\<close>

fun join :: "string \<Rightarrow> string list \<Rightarrow> string" where
  "join sep [] = []"
| "join sep [x] = x"
| "join sep (x # y # ys) = x @ sep @ join sep (y # ys)"

text \<open>The text between two single quotes.\<close>

definition quoted :: "string \<Rightarrow> string" where
  "quoted s = [char_of (39 :: nat)] @ s @ [char_of (39 :: nat)]"

lemma length_lower [simp]: "length (lower s) = length s"
  by (simp add: lower_def)

lemma lower_append [simp]: "lower (s @ t) = lower s @ lower t"
  by (simp add: lower_def)

lemma strip_Nil [simp]: "strip [] = []"
  by (simp add: strip_def)

lemma set_strip: "set (strip s) \<subseteq> set s"
  by (auto simp: strip_def dest!: set_dropWhileD)

section \<open>Decimal notation\<close>

text \<open>\<open>str(n)\<close> of an integer.\<close>

definition digit_char :: "nat \<Rightarrow> char" where
  "digit_char d = char_of (48 + d)"

fun nat_dec :: "nat \<Rightarrow> string" where
  "nat_dec n = (if n < 10 then [digit_char n] else nat_dec (n div 10) @ [digit_char (n mod 10)])"

declare nat_dec.simps [simp del]

definition int_dec :: "int \<Rightarrow> string" where
  "int_dec i = (if i < 0 then ''-'' @ nat_dec (nat (- i)) else nat_dec (nat i))"

text \<open>Reading the digits back, the inverse the injectivity proofs use.\<close>

definition undec :: "string \<Rightarrow> nat" where
  "undec s = foldl (\<lambda>n c. 10 * n + (code c - 48)) 0 s"

lemma code_digit_char: "d < 10 \<Longrightarrow> code (digit_char d) = 48 + d"
  by (simp add: digit_char_def)

lemma undec_snoc: "undec (s @ [c]) = 10 * undec s + (code c - 48)"
  by (simp add: undec_def)

lemma undec_nat_dec [simp]: "undec (nat_dec n) = n"
proof (induction n rule: nat_dec.induct)
  case (1 n)
  show ?case
  proof (cases "n < 10")
    case True
    then show ?thesis by (simp add: nat_dec.simps [of n] undec_def code_digit_char)
  next
    case False
    then show ?thesis
      by (simp add: nat_dec.simps [of n] undec_snoc "1" code_digit_char)
  qed
qed

lemma nat_dec_inject [simp]: "nat_dec m = nat_dec n \<longleftrightarrow> m = n"
  by (metis undec_nat_dec)

lemma nat_dec_nonempty [simp]: "nat_dec n \<noteq> []"
  by (subst nat_dec.simps) simp

lemma set_nat_dec: "c \<in> set (nat_dec n) \<Longrightarrow> is_digit c"
proof (induction n rule: nat_dec.induct)
  case (1 n)
  then show ?case
    by (cases "n < 10") (auto simp: nat_dec.simps [of n] is_digit_def code_digit_char)
qed

lemma not_is_digit_minus [simp]: "\<not> is_digit (CHR ''-'')"
  by (simp add: is_digit_def)

lemma minus_notin_nat_dec [simp]: "CHR ''-'' \<notin> set (nat_dec n)"
  using set_nat_dec not_is_digit_minus by blast

lemma int_dec_inject [simp]: "int_dec i = int_dec j \<longleftrightarrow> i = j"
proof
  assume eq: "int_dec i = int_dec j"
  show "i = j"
  proof (cases "i < 0"; cases "j < 0")
    assume "i < 0" "\<not> j < 0"
    with eq have "CHR ''-'' \<in> set (nat_dec (nat j))"
      by (metis append_Cons int_dec_def list.set_intros(1))
    then show ?thesis by simp
  next
    assume "\<not> i < 0" "j < 0"
    with eq have "CHR ''-'' \<in> set (nat_dec (nat i))"
      by (metis append_Cons int_dec_def list.set_intros(1))
    then show ?thesis by simp
  qed (use eq in \<open>auto simp: int_dec_def\<close>)
qed simp

lemma int_dec_nonempty [simp]: "int_dec i \<noteq> []"
  by (simp add: int_dec_def)

lemma set_int_dec: "c \<in> set (int_dec i) \<Longrightarrow> is_digit c \<or> c = CHR ''-''"
  by (auto simp: int_dec_def dest: set_nat_dec split: if_splits)

section \<open>Python's repr of a string\<close>

definition hex_digit :: "nat \<Rightarrow> char" where
  "hex_digit d = (if d < 10 then char_of (48 + d) else char_of (87 + d))"

definition hex2 :: "nat \<Rightarrow> string" where
  "hex2 n = [hex_digit (n div 16 mod 16), hex_digit (n mod 16)]"

definition repr_char :: "char \<Rightarrow> char \<Rightarrow> string" where
  "repr_char quote c =
     (if c = quote \<or> code c = 92 then [char_of (92 :: nat), c]
      else if code c = 9 then [char_of (92 :: nat), CHR ''t'']
      else if code c = 10 then [char_of (92 :: nat), CHR ''n'']
      else if code c = 13 then [char_of (92 :: nat), CHR ''r'']
      else if code c < 32 \<or> (127 \<le> code c \<and> code c \<le> 160) \<or> code c = 173
        then [char_of (92 :: nat), CHR ''x''] @ hex2 (code c)
      else [c])"

text \<open>Single quotes, unless the text has a single quote and no double quote.\<close>

definition repr_str :: "string \<Rightarrow> string" where
  "repr_str s =
     (let quote = (if char_of (39 :: nat) \<in> set s \<and> char_of (34 :: nat) \<notin> set s
                   then char_of (34 :: nat) else char_of (39 :: nat))
      in [quote] @ concat (map (repr_char quote) s) @ [quote])"

fun repr_opt_str :: "string option \<Rightarrow> string" where
  "repr_opt_str None = ''None''"
| "repr_opt_str (Some s) = repr_str s"

section \<open>Decoded JSON and YAML values\<close>

datatype json =
    JNull
  | JBool bool
  | JInt int
  | JFloat py_float
  | JStr string
  | JArr "json list"
  | JObj "(string \<times> json) list"

text \<open>\<open>bool(v)\<close>, as \<open>not v\<close> and \<open>v or default\<close> use it.\<close>

fun truthy :: "json \<Rightarrow> bool" where
  "truthy JNull \<longleftrightarrow> False"
| "truthy (JBool b) \<longleftrightarrow> b"
| "truthy (JInt i) \<longleftrightarrow> i \<noteq> 0"
| "truthy (JFloat x) \<longleftrightarrow> x \<noteq> 0"
| "truthy (JStr s) \<longleftrightarrow> s \<noteq> []"
| "truthy (JArr xs) \<longleftrightarrow> xs \<noteq> []"
| "truthy (JObj kvs) \<longleftrightarrow> kvs \<noteq> []"

fun is_str :: "json \<Rightarrow> bool" where
  "is_str (JStr s) \<longleftrightarrow> True"
| "is_str _ \<longleftrightarrow> False"

fun the_str :: "json \<Rightarrow> string" where
  "the_str (JStr s) = s"
| "the_str _ = []"

lemma is_strE: "is_str v \<Longrightarrow> (\<And>s. v = JStr s \<Longrightarrow> P) \<Longrightarrow> P"
  by (cases v) auto

text \<open>\<open>d.get(k)\<close>: a missing key is None.\<close>

definition dict_get :: "(string \<times> json) list \<Rightarrow> string \<Rightarrow> json" where
  "dict_get d k = (case map_of d k of None \<Rightarrow> JNull | Some v \<Rightarrow> v)"

fun opt_str :: "string option \<Rightarrow> json" where
  "opt_str None = JNull"
| "opt_str (Some s) = JStr s"

fun opt_int :: "int option \<Rightarrow> json" where
  "opt_int None = JNull"
| "opt_int (Some i) = JInt i"

text \<open>\<open>d.get(k, default)\<close>: the default only for a missing key; and \<open>v or {}\<close>.\<close>

definition dict_get_default :: "(string \<times> json) list \<Rightarrow> string \<Rightarrow> json \<Rightarrow> json" where
  "dict_get_default d k v = (case map_of d k of None \<Rightarrow> v | Some w \<Rightarrow> w)"

definition or_empty :: "json \<Rightarrow> json" where
  "or_empty v = (if truthy v then v else JObj [])"

text \<open>
  The exceptions of the interpreter that loading configuration can raise. \<open>IllTyped\<close> is not a
  Python exception: it marks a value that Python would store unchecked in a field annotated with
  another type, where this model stops.
\<close>

datatype py_exn = AttributeError | KeyError | TypeError | ValueError | IllTyped

text \<open>A dict hashes a key before it compares it: a list or a dict as a key raises \<open>TypeError\<close>.\<close>

fun hashable :: "json \<Rightarrow> bool" where
  "hashable (JArr vs) \<longleftrightarrow> False"
| "hashable (JObj d) \<longleftrightarrow> False"
| "hashable v \<longleftrightarrow> True"

definition hash_key :: "json \<Rightarrow> py_exn + json" where
  "hash_key v = (if hashable v then Inr v else Inl TypeError)"

lemma hash_key_simps [simp]:
  "hash_key JNull = Inr JNull" "hash_key (JBool b) = Inr (JBool b)" "hash_key (JInt i) = Inr (JInt i)"
  "hash_key (JFloat x) = Inr (JFloat x)" "hash_key (JStr s) = Inr (JStr s)"
  "hash_key (JArr vs) = Inl TypeError" "hash_key (JObj d) = Inl TypeError"
  by (simp_all add: hash_key_def)

text \<open>\<open>v.items()\<close> and \<open>list(v)\<close> of strings (a string lists its characters).\<close>

fun as_dict :: "json \<Rightarrow> py_exn + (string \<times> json) list" where
  "as_dict (JObj d) = Inr d"
| "as_dict _ = Inl AttributeError"

text \<open>\<open>v[k]\<close>: a value that is not a dict cannot be indexed by a string.\<close>

fun subscript :: "json \<Rightarrow> string \<Rightarrow> py_exn + json" where
  "subscript (JObj d) k = (case map_of d k of None \<Rightarrow> Inl KeyError | Some v \<Rightarrow> Inr v)"
| "subscript _ k = Inl TypeError"

fun as_str_list :: "json \<Rightarrow> py_exn + string list" where
  "as_str_list (JArr vs) = (if list_all is_str vs then Inr (map the_str vs) else Inl IllTyped)"
| "as_str_list (JStr s) = Inr (map (\<lambda>c. [c]) s)"
| "as_str_list (JObj d) = Inr (map fst d)"
| "as_str_list _ = Inl TypeError"

fun as_str :: "json \<Rightarrow> py_exn + string" where
  "as_str (JStr s) = Inr s"
| "as_str _ = Inl IllTyped"

text \<open>\<open>int(s)\<close> of a string: blanks around, a sign, digits with single underscores between them.\<close>

fun digits_value :: "nat \<Rightarrow> bool \<Rightarrow> string \<Rightarrow> nat option" where
  "digits_value n after [] = (if after then Some n else None)"
| "digits_value n after (c # cs) =
     (if is_digit c then digits_value (10 * n + (code c - 48)) True cs
      else if code c = 95 \<and> after then digits_value n False cs
      else None)"

definition int_of_str :: "string \<Rightarrow> int option" where
  "int_of_str s =
     (case strip s of
        [] \<Rightarrow> None
      | c # cs \<Rightarrow>
          if code c = 45 then map_option (\<lambda>n. - int n) (digits_value 0 False cs)
          else if code c = 43 then map_option int (digits_value 0 False cs)
          else map_option int (digits_value 0 False (c # cs)))"

text \<open>\<open>int(v)\<close>: a float is truncated towards zero.\<close>

fun as_int :: "json \<Rightarrow> py_exn + int" where
  "as_int (JInt i) = Inr i"
| "as_int (JBool b) = Inr (if b then 1 else 0)"
| "as_int (JFloat x) = Inr (if 0 \<le> x then \<lfloor>x\<rfloor> else \<lceil>x\<rceil>)"
| "as_int (JStr s) = (case int_of_str s of None \<Rightarrow> Inl ValueError | Some i \<Rightarrow> Inr i)"
| "as_int _ = Inl TypeError"

text \<open>Collecting the results of a loop that stops at the first exception.\<close>

fun map_r :: "('a \<Rightarrow> 'e + 'b) \<Rightarrow> 'a list \<Rightarrow> 'e + 'b list" where
  "map_r f [] = Inr []"
| "map_r f (x # xs) =
     (case f x of Inl e \<Rightarrow> Inl e
      | Inr y \<Rightarrow> (case map_r f xs of Inl e \<Rightarrow> Inl e | Inr ys \<Rightarrow> Inr (y # ys)))"

section \<open>Results that may be errors\<close>

text \<open>\<open>Inl\<close> is a raised exception, \<open>Inr\<close> a returned value; \<open>bind_r\<close> stops at the first error.\<close>

definition bind_r :: "('e + 'a) \<Rightarrow> ('a \<Rightarrow> 'e + 'b) \<Rightarrow> 'e + 'b" where
  "bind_r r f = (case r of Inl e \<Rightarrow> Inl e | Inr v \<Rightarrow> f v)"

lemma bind_r_simps [simp]: "bind_r (Inl e) f = Inl e" "bind_r (Inr v) f = f v"
  by (simp_all add: bind_r_def)

lemma bind_r_Inr_iff: "bind_r r f = Inr y \<longleftrightarrow> (\<exists>x. r = Inr x \<and> f x = Inr y)"
  by (cases r) auto

lemma bind_r_Inl_iff: "bind_r r f = Inl e \<longleftrightarrow> r = Inl e \<or> (\<exists>x. r = Inr x \<and> f x = Inl e)"
  by (cases r) auto

definition is_ok :: "'e + 'a \<Rightarrow> bool" where
  "is_ok r \<longleftrightarrow> (case r of Inl _ \<Rightarrow> False | Inr _ \<Rightarrow> True)"

lemma is_ok_simps [simp]: "is_ok (Inl e) = False" "is_ok (Inr v) = True"
  by (simp_all add: is_ok_def)

lemma map_r_Inr_iff: "map_r f xs = Inr ys \<longleftrightarrow> list_all2 (\<lambda>x y. f x = Inr y) xs ys"
proof (induction xs arbitrary: ys)
  case Nil
  then show ?case by auto
next
  case (Cons x xs)
  then show ?case
    by (cases "f x"; cases "map_r f xs") (auto simp: list_all2_Cons1 Cons.IH [symmetric])
qed

lemma map_of_rev_distinct: "distinct (map fst xs) \<Longrightarrow> map_of (rev xs) = map_of xs"
proof (induction xs)
  case Nil
  then show ?case by simp
next
  case (Cons x xs)
  then have "map_of xs (fst x) = None" by (simp add: map_of_eq_None_iff)
  with Cons show ?case
    by (cases x) (auto simp: map_of_append map_add_def fun_eq_iff split: option.split)
qed

end
