(* ===== verification/Identity.thy ===== *)
theory Identity
  imports Prelude
begin

text \<open>
  \<open>auth/identity.py\<close>, \<open>auth/rbac.py\<close> and \<open>auth/aws_iam.py\<close>: the authenticated caller, the role
  check, and the mapping of verified IAM principals to tenants. \<open>Inl\<close> is the raised exception.
  The claims of a verified token are decoded JSON: the code checks their presence and, for the
  roles, their type, so the other fields of an identity are JSON values.
\<close>

section \<open>identity.py\<close>

datatype auth_error = AuthError (ae_message: string) (ae_code: string)

datatype authorization_error = AuthorizationError (az_message: string) (az_code: string)

record identity =
  id_sub :: json
  id_tenant_id :: json
  id_application_id :: json
  id_roles :: "string list"
  id_auth_type :: string
  id_account_id :: "string option"

definition has_role :: "identity \<Rightarrow> string \<Rightarrow> bool" where
  "has_role i role \<longleftrightarrow> List.member (id_roles i) role"

definition missing_claims :: "(string \<times> json) list \<Rightarrow> string list" where
  "missing_claims claims =
     map fst (filter (\<lambda>nv. \<not> truthy (snd nv))
       [(''sub'', dict_get claims ''sub''),
        (''tenant_id'', dict_get claims ''tenant_id''),
        (''application_id'', dict_get claims ''application_id'')])"

definition roles_claim :: "(string \<times> json) list \<Rightarrow> json" where
  "roles_claim claims =
     (let roles = dict_get claims ''roles'' in if truthy roles then roles else JArr [])"

fun str_list :: "json \<Rightarrow> string list option" where
  "str_list (JArr vs) = (if list_all is_str vs then Some (map the_str vs) else None)"
| "str_list _ = None"

definition identity_from_claims :: "(string \<times> json) list \<Rightarrow> auth_error + identity" where
  "identity_from_claims claims =
     (let missing = missing_claims claims in
      if missing \<noteq> []
      then Inl (AuthError (''token is missing required claim(s): '' @ join '', '' missing) ''UNAUTHENTICATED'')
      else
        (case str_list (roles_claim claims) of
           None \<Rightarrow> Inl (AuthError (''token '' @ quoted ''roles'' @ '' claim must be a list of strings'') ''UNAUTHENTICATED'')
         | Some roles \<Rightarrow>
             Inr \<lparr>id_sub = dict_get claims ''sub'', id_tenant_id = dict_get claims ''tenant_id'',
                  id_application_id = dict_get claims ''application_id'', id_roles = roles,
                  id_auth_type = ''jwt'', id_account_id = None\<rparr>))"

section \<open>rbac.py\<close>

definition require_role :: "identity \<Rightarrow> string \<Rightarrow> authorization_error + unit" where
  "require_role i role =
     (if \<not> has_role i role
      then Inl (AuthorizationError (''role '' @ quoted role @ '' is required for this operation'') ''FORBIDDEN'')
      else Inr ())"

definition repr_str_list :: "string list \<Rightarrow> string" where
  "repr_str_list xs = ''['' @ join '', '' (map repr_str xs) @ '']''"

definition require_any_role :: "identity \<Rightarrow> string list \<Rightarrow> authorization_error + unit" where
  "require_any_role i roles =
     (if \<not> list_ex (has_role i) roles
      then Inl (AuthorizationError
        (''one of roles '' @ repr_str_list roles @ '' is required for this operation'') ''FORBIDDEN'')
      else Inr ())"

section \<open>aws_iam.py\<close>

definition HEADER_PRINCIPAL_ARN :: string where
  "HEADER_PRINCIPAL_ARN = ''x-platform-principal-arn''"

definition HEADER_ACCOUNT_ID :: string where
  "HEADER_ACCOUNT_ID = ''x-platform-account-id''"

record iam_grant =
  grant_tenant_id :: string
  grant_application_id :: string
  grant_roles :: "string list"

text \<open>The prefix dict keeps its order, because the first matching prefix wins.\<close>

record iam_resolver =
  exact :: "(string \<times> iam_grant) list"
  prefixes :: "(string \<times> iam_grant) list"

definition load_grant :: "json \<Rightarrow> py_exn + iam_grant" where
  "load_grant entry =
     bind_r (subscript entry ''tenant_id'') (\<lambda>t. bind_r (as_str t) (\<lambda>tid.
     bind_r (subscript entry ''application_id'') (\<lambda>a. bind_r (as_str a) (\<lambda>aid.
     bind_r (as_dict entry) (\<lambda>d.
     bind_r (as_str_list (let r = dict_get d ''roles'' in if truthy r then r else JArr [])) (\<lambda>roles.
     Inr \<lparr>grant_tenant_id = tid, grant_application_id = aid, grant_roles = roles\<rparr>))))))"

definition add_grant :: "string \<Rightarrow> iam_grant \<Rightarrow> iam_resolver \<Rightarrow> iam_resolver" where
  "add_grant arn_pattern grant r =
     (if suffix ''*'' arn_pattern
      then r\<lparr>prefixes := AList.update (butlast arn_pattern) grant (prefixes r)\<rparr>
      else r\<lparr>exact := AList.update arn_pattern grant (exact r)\<rparr>)"

fun load_grants :: "(string \<times> json) list \<Rightarrow> iam_resolver \<Rightarrow> py_exn + iam_resolver" where
  "load_grants [] r = Inr r"
| "load_grants ((arn_pattern, entry) # rest) r =
     bind_r (load_grant entry) (\<lambda>grant. load_grants rest (add_grant arn_pattern grant r))"

text \<open>The constructor; \<open>None\<close> is a path that is empty or names no file.\<close>

definition iam_resolver_init :: "json option \<Rightarrow> py_exn + iam_resolver" where
  "iam_resolver_init file =
     (let r = \<lparr>exact = [], prefixes = []\<rparr> in
      case file of
        None \<Rightarrow> Inr r
      | Some data \<Rightarrow>
          bind_r (as_dict (or_empty data)) (\<lambda>d.
          bind_r (as_dict (or_empty (dict_get d ''iam_principals''))) (\<lambda>principals.
          load_grants principals r)))"

definition iam_resolve :: "iam_resolver \<Rightarrow> string \<Rightarrow> auth_error + iam_grant" where
  "iam_resolve r principal_arn =
     (case map_of (exact r) principal_arn of
        Some grant \<Rightarrow> Inr grant
      | None \<Rightarrow>
          (case List.find (\<lambda>pg. prefix (fst pg) principal_arn) (prefixes r) of
             Some pg \<Rightarrow> Inr (snd pg)
           | None \<Rightarrow>
               Inl (AuthError (''no tenant mapping for IAM principal '' @ quoted principal_arn)
                     ''UNKNOWN_IAM_PRINCIPAL'')))"

section \<open>Properties\<close>

text \<open>
  an identity is built from a token's claims exactly when subject, tenant and application are
  truthy and the roles are absent, falsy or a list of strings, and then it carries those claims.
\<close>

theorem identity_from_claims_iff:
  "identity_from_claims claims = Inr i \<longleftrightarrow>
     truthy (dict_get claims ''sub'') \<and> truthy (dict_get claims ''tenant_id'') \<and>
     truthy (dict_get claims ''application_id'') \<and>
     str_list (roles_claim claims) = Some (id_roles i) \<and>
     id_sub i = dict_get claims ''sub'' \<and> id_tenant_id i = dict_get claims ''tenant_id'' \<and>
     id_application_id i = dict_get claims ''application_id'' \<and>
     id_auth_type i = ''jwt'' \<and> id_account_id i = None"
  by (cases i) (auto simp: identity_from_claims_def missing_claims_def Let_def split: option.splits)

text \<open>The grants a resolver holds, each with a predicate for the principals it is for.\<close>

definition grants_from :: "(string \<times> json) list \<Rightarrow> iam_resolver \<Rightarrow> bool" where
  "grants_from entries r \<longleftrightarrow>
     (\<forall>(arn, g) \<in> set (exact r). \<not> suffix ''*'' arn \<and>
        (\<exists>e. (arn, e) \<in> set entries \<and> load_grant e = Inr g)) \<and>
     (\<forall>(p, g) \<in> set (prefixes r). \<exists>e. (p @ ''*'', e) \<in> set entries \<and> load_grant e = Inr g)"

lemma set_update: "set (AList.update k v xs) \<subseteq> insert (k, v) (set xs)"
  by (induction xs) auto

lemma grants_from_mono: "grants_from es r \<Longrightarrow> grants_from (e # es) r"
  unfolding grants_from_def by fastforce

lemma grants_from_add:
  assumes "grants_from es r" "(arn, e) \<in> set es" "load_grant e = Inr g"
  shows "grants_from es (add_grant arn g r)"
proof (cases "suffix ''*'' arn")
  case True
  then have "butlast arn @ ''*'' = arn" by (auto simp: suffix_def)
  with assms have "\<exists>e. (butlast arn @ ''*'', e) \<in> set es \<and> load_grant e = Inr g" by metis
  with assms(1) True set_update [of "butlast arn" g "prefixes r"] show ?thesis
    unfolding grants_from_def add_grant_def by (simp, blast)
next
  case False
  from assms have "\<exists>e. (arn, e) \<in> set es \<and> load_grant e = Inr g" by blast
  with assms(1) False set_update [of arn g "exact r"] show ?thesis
    unfolding grants_from_def add_grant_def by (simp, blast)
qed

lemma load_grants_from:
  "load_grants es r0 = Inr r \<Longrightarrow> grants_from all r0 \<Longrightarrow> set es \<subseteq> set all \<Longrightarrow> grants_from all r"
proof (induction es arbitrary: r0)
  case Nil
  then show ?case by simp
next
  case (Cons e es)
  then show ?case
    by (cases e) (auto simp: bind_r_Inr_iff intro: grants_from_add)
qed

text \<open>
  C37: an IAM principal only ever receives the grant of an entry of the file that names it, as the
  exact ARN or as a wildcard whose prefix it extends; an exact entry wins over every wildcard.
\<close>

theorem iam_grant_provenance:
  assumes "load_grants entries \<lparr>exact = [], prefixes = []\<rparr> = Inr r" and "iam_resolve r arn = Inr g"
  shows "\<exists>pattern e. List.member entries (pattern, e) \<and> load_grant e = Inr g \<and>
           (if map_of (exact r) arn = None then suffix ''*'' pattern \<and> prefix (butlast pattern) arn
            else pattern = arn)"
proof -
  have "grants_from entries \<lparr>exact = [], prefixes = []\<rparr>" by (simp add: grants_from_def)
  with load_grants_from [OF assms(1)] have gf: "grants_from entries r" by blast
  show ?thesis
  proof (cases "map_of (exact r) arn")
    case (Some g')
    with assms(2) have "(arn, g) \<in> set (exact r)"
      by (auto simp: iam_resolve_def dest: map_of_SomeD)
    with gf Some show ?thesis by (fastforce simp: grants_from_def)
  next
    case None
    with assms(2) obtain p where "List.find (\<lambda>pg. prefix (fst pg) arn) (prefixes r) = Some (p, g)"
      by (auto simp: iam_resolve_def split: option.splits)
    then have "(p, g) \<in> set (prefixes r)" "prefix p arn"
      by (auto simp: find_Some_iff) (metis fst_conv nth_mem)+
    with gf obtain e where "(p @ ''*'', e) \<in> set entries" "load_grant e = Inr g"
      by (fastforce simp: grants_from_def)
    with None \<open>prefix p arn\<close> show ?thesis
      by (intro exI [of _ "p @ ''*''"] exI [of _ e]) (simp add: suffix_def)
  qed
qed

definition sample_grants :: "(string \<times> json) list" where
  "sample_grants =
     [(''role/team-a'', JObj [(''tenant_id'', JStr ''team-a''), (''application_id'', JStr ''a''), (''roles'', JArr [JStr ''developer''])]),
      (''assumed-role/team-a/*'', JObj [(''tenant_id'', JStr ''team-a''), (''application_id'', JStr ''b'')])]"

theorem iam_grant_provenance_witness:
  "\<exists>pattern e. List.member sample_grants (pattern, e) \<and>
     load_grant e = Inr \<lparr>grant_tenant_id = ''team-a'', grant_application_id = ''b'', grant_roles = []\<rparr> \<and>
     (if map_of (exact \<lparr>exact = [(''role/team-a'', \<lparr>grant_tenant_id = ''team-a'', grant_application_id = ''a'',
          grant_roles = [''developer'']\<rparr>)], prefixes = [(''assumed-role/team-a/'',
          \<lparr>grant_tenant_id = ''team-a'', grant_application_id = ''b'', grant_roles = []\<rparr>)]\<rparr>) ''assumed-role/team-a/s1'' = None
      then suffix ''*'' pattern \<and> prefix (butlast pattern) ''assumed-role/team-a/s1''
      else pattern = ''assumed-role/team-a/s1'')"
  by (rule iam_grant_provenance)
    (simp_all add: sample_grants_def load_grant_def dict_get_def add_grant_def suffix_def iam_resolve_def)

end
