(* ===== verification/Jwt_Verifier.thy ===== *)
theory Jwt_Verifier
  imports Identity
begin

text \<open>
  \<open>auth/jwt_verifier.py\<close>. PyJWT and the HTTP client are parameters: the key id of the
  unverified header (an exception text if the token is malformed; PyJWT accepts only a string there, or
  none), the RSA key made from a JWK (or the exception it raises), the decoding of a token with a key and
  the options of the call, and the answer of each fetch of the JWKS document (the counter \<open>fetches\<close> numbers
  them). Decoding can raise the two exceptions the code handles, or any other one (PyJWT's
  \<open>InvalidKeyError\<close>, say, is none of the two). An exception that is not an \<open>AuthError\<close> leaves \<open>verify\<close> as
  \<open>Escapes\<close>.
\<close>

datatype decode_error = ExpiredSignature | InvalidToken string | DecodeRaises py_exn

datatype verify_error = Auth auth_error | Escapes py_exn

text \<open>The keyword arguments of \<open>jwt.decode\<close>.\<close>

record decode_options =
  algorithms :: "string list"
  expected_audience :: string
  expected_issuer :: string
  required_claims :: "string list"

record 'key jwt_lib =
  unverified_kid :: "string \<Rightarrow> string + string option"
  from_jwk :: "json \<Rightarrow> py_exn + 'key"
  jwt_decode :: "string \<Rightarrow> 'key \<Rightarrow> decode_options \<Rightarrow> decode_error + (string \<times> json) list"
  fetch_jwks :: "nat \<Rightarrow> string + json"

record verifier_config =
  jwks_url :: string
  issuer :: string
  audience :: string
  cache_ttl_s :: py_float

record 'key verifier_state =
  keys_by_kid :: "(json \<times> 'key) list"
  fetched_at :: py_float
  fetches :: nat

definition decode_args :: "string \<Rightarrow> string \<Rightarrow> decode_options" where
  "decode_args iss aud = \<lparr>algorithms = [''RS256''], expected_audience = aud, expected_issuer = iss,
     required_claims = [''exp'', ''iat'']\<rparr>"

definition decode_token ::
  "'key jwt_lib \<Rightarrow> string \<Rightarrow> 'key \<Rightarrow> string \<Rightarrow> string \<Rightarrow> verify_error + (string \<times> json) list" where
  "decode_token lib token key iss aud =
     (case jwt_decode lib token key (decode_args iss aud) of
        Inr claims \<Rightarrow> Inr claims
      | Inl ExpiredSignature \<Rightarrow> Inl (Auth (AuthError ''token expired'' ''UNAUTHENTICATED''))
      | Inl (InvalidToken msg) \<Rightarrow> Inl (Auth (AuthError (''invalid token: '' @ msg) ''UNAUTHENTICATED''))
      | Inl (DecodeRaises e) \<Rightarrow> Inl (Escapes e))"

text \<open>
  The dict comprehension over the published keys: \<open>k["kid"]\<close> needs the member, then the value is made,
  then the dict hashes the key. The key can be any JSON value; numbers that Python would take for one key
  (1, 1.0 and True) stay apart here, which no lookup of a token's key id can tell.
\<close>

fun jwk_entry :: "'key jwt_lib \<Rightarrow> json \<Rightarrow> py_exn + (json \<times> 'key)" where
  "jwk_entry lib k =
     bind_r (subscript k ''kid'') (\<lambda>kid. bind_r (from_jwk lib k) (\<lambda>key. bind_r (hash_key kid) (\<lambda>kid.
     Inr (kid, key))))"

fun as_array :: "json \<Rightarrow> py_exn + json list" where
  "as_array (JArr vs) = Inr vs"
| "as_array (JObj d) = Inr (map (JStr \<circ> fst) d)"
| "as_array (JStr s) = Inr (map (\<lambda>c. JStr [c]) s)"
| "as_array _ = Inl TypeError"

definition published_keys :: "'key jwt_lib \<Rightarrow> json \<Rightarrow> py_exn + (json \<times> 'key) list" where
  "published_keys lib jwks =
     bind_r (as_dict jwks) (\<lambda>d.
     bind_r (as_array (dict_get_default d ''keys'' (JArr []))) (\<lambda>ks.
     bind_r (map_r (jwk_entry lib) ks) (\<lambda>kks.
     Inr (fold (\<lambda>(kid, key) d. AList.update kid key d) kks []))))"

definition refresh ::
  "'key jwt_lib \<Rightarrow> verifier_config \<Rightarrow> 'key verifier_state \<Rightarrow> py_float \<Rightarrow>
   (verify_error + unit) \<times> 'key verifier_state" where
  "refresh lib cfg st now =
     (let fetched = fetch_jwks lib (fetches st); st = st\<lparr>fetches := fetches st + 1\<rparr> in
      case fetched of
        Inl exc \<Rightarrow>
          (Inl (Auth (AuthError (''unable to fetch JWKS from '' @ jwks_url cfg @ '': '' @ exc)
             ''IDENTITY_PROVIDER_UNAVAILABLE'')), st)
      | Inr jwks \<Rightarrow>
          (case published_keys lib jwks of
             Inl e \<Rightarrow> (Inl (Escapes e), st)
           | Inr keys \<Rightarrow> (Inr (), st\<lparr>keys_by_kid := keys, fetched_at := now\<rparr>)))"

definition is_stale :: "verifier_config \<Rightarrow> 'key verifier_state \<Rightarrow> py_float \<Rightarrow> bool" where
  "is_stale cfg st now \<longleftrightarrow> keys_by_kid st = [] \<or> cache_ttl_s cfg \<le> now - fetched_at st"

definition refresh_if_stale ::
  "'key jwt_lib \<Rightarrow> verifier_config \<Rightarrow> 'key verifier_state \<Rightarrow> py_float \<Rightarrow> py_float \<Rightarrow>
   (verify_error + unit) \<times> 'key verifier_state" where
  "refresh_if_stale lib cfg st t_check t_fetched =
     (if is_stale cfg st t_check then refresh lib cfg st t_fetched else (Inr (), st))"

text \<open>\<open>header.get("kid")\<close> as the key of a lookup.\<close>

definition kid_key :: "string option \<Rightarrow> json" where
  "kid_key kid = (case kid of None \<Rightarrow> JNull | Some s \<Rightarrow> JStr s)"

definition key_for :: "'key verifier_state \<Rightarrow> string option \<Rightarrow> 'key option" where
  "key_for st kid = map_of (keys_by_kid st) (kid_key kid)"

text \<open>\<open>t_check\<close>, \<open>t1\<close>, \<open>t2\<close>: the clock at the staleness test and after each fetch.\<close>

definition jwks_verify ::
  "'key jwt_lib \<Rightarrow> verifier_config \<Rightarrow> 'key verifier_state \<Rightarrow> string \<Rightarrow> py_float \<Rightarrow> py_float \<Rightarrow> py_float \<Rightarrow>
   (verify_error + (string \<times> json) list) \<times> 'key verifier_state" where
  "jwks_verify lib cfg st token t_check t1 t2 =
     (case unverified_kid lib token of
        Inl exc \<Rightarrow> (Inl (Auth (AuthError (''malformed token: '' @ exc) ''UNAUTHENTICATED'')), st)
      | Inr kid \<Rightarrow>
          (case refresh_if_stale lib cfg st t_check t1 of
             (Inl e, st) \<Rightarrow> (Inl e, st)
           | (Inr _, st) \<Rightarrow>
               (case (if key_for st kid = None then refresh lib cfg st t2 else (Inr (), st)) of
                  (Inl e, st) \<Rightarrow> (Inl e, st)
                | (Inr _, st) \<Rightarrow>
                    (case key_for st kid of
                       None \<Rightarrow>
                         (Inl (Auth (AuthError (''unknown signing key id: '' @ repr_opt_str kid)
                            ''UNAUTHENTICATED'')), st)
                     | Some key \<Rightarrow>
                         (case decode_token lib token key (issuer cfg) (audience cfg) of
                            Inl e \<Rightarrow> (Inl e, st)
                          | Inr claims \<Rightarrow> (Inr claims, st))))))"

definition static_verify ::
  "'key jwt_lib \<Rightarrow> verifier_config \<Rightarrow> 'key \<Rightarrow> string \<Rightarrow> verify_error + (string \<times> json) list" where
  "static_verify lib cfg public_key token = decode_token lib token public_key (issuer cfg) (audience cfg)"

section \<open>Properties\<close>

lemma decode_token_Inr: "decode_token lib t k i a = Inr c \<longleftrightarrow> jwt_decode lib t k (decode_args i a) = Inr c"
  by (auto simp: decode_token_def split: sum.splits decode_error.splits)

text \<open>The keys the verifier holds come from one fetch.\<close>

definition keys_published :: "'key jwt_lib \<Rightarrow> 'key verifier_state \<Rightarrow> bool" where
  "keys_published lib st \<longleftrightarrow> keys_by_kid st = [] \<or>
     (\<exists>n jwks. n < fetches st \<and> fetch_jwks lib n = Inr jwks \<and> published_keys lib jwks = Inr (keys_by_kid st))"

lemma refresh_published [inv_intros]:
  "keys_published lib st \<Longrightarrow> keys_published lib (snd (refresh lib cfg st now))"
  by (auto simp: refresh_def keys_published_def Let_def less_Suc_eq split: sum.splits)

lemma refresh_if_stale_published [inv_intros]:
  "keys_published lib st \<Longrightarrow> keys_published lib (snd (refresh_if_stale lib cfg st tc tf))"
  by (simp add: refresh_if_stale_def refresh_published)

lemma fetches_refresh [simp]: "fetches (snd (refresh lib cfg st now)) = fetches st + 1"
  by (simp add: refresh_def Let_def split: sum.split)

lemma fetches_refresh_if_stale:
  "fetches (snd (refresh_if_stale lib cfg st tc tf)) = fetches st + (if is_stale cfg st tc then 1 else 0)"
  by (simp add: refresh_if_stale_def)

text \<open>
  C34: a token is only accepted by the decoder, for RS256, the configured issuer and audience and with an
  expiry and an issue time required, under a key that the provider published in some fetch under the
  token's key id.
\<close>

theorem jwks_verify_accepts:
  assumes "keys_published lib st" and "fst (jwks_verify lib cfg st token tc t1 t2) = Inr claims"
  shows "\<exists>kid key n jwks ks. unverified_kid lib token = Inr kid \<and>
     fetch_jwks lib n = Inr jwks \<and> published_keys lib jwks = Inr ks \<and>
     map_of ks (case kid of None \<Rightarrow> JNull | Some s \<Rightarrow> JStr s) = Some key \<and>
     jwt_decode lib token key \<lparr>algorithms = [''RS256''], expected_audience = audience cfg,
       expected_issuer = issuer cfg, required_claims = [''exp'', ''iat'']\<rparr> = Inr claims"
proof -
  define s1 where "s1 = snd (refresh_if_stale lib cfg st tc t1)"
  from assms(2) obtain kid s2 key where kid: "unverified_kid lib token = Inr kid"
    and s2: "s2 = s1 \<or> s2 = snd (refresh lib cfg s1 t2)" and key: "key_for s2 kid = Some key"
    and dec: "jwt_decode lib token key (decode_args (issuer cfg) (audience cfg)) = Inr claims"
    by (fastforce simp: jwks_verify_def decode_token_Inr s1_def split: sum.splits prod.splits option.splits if_splits)
  have "keys_published lib s2"
    using s2 assms(1) by (auto simp: s1_def intro: refresh_published refresh_if_stale_published)
  moreover from key have k: "map_of (keys_by_kid s2) (kid_key kid) = Some key" by (simp add: key_for_def)
  ultimately obtain n jwks where "fetch_jwks lib n = Inr jwks" "published_keys lib jwks = Inr (keys_by_kid s2)"
    by (auto simp: keys_published_def)
  with kid k dec show ?thesis unfolding kid_key_def decode_args_def by blast
qed

definition sample_jwks :: "json list \<Rightarrow> unit jwt_lib" where
  "sample_jwks keys = \<lparr>unverified_kid = \<lambda>_. Inr (Some ''k1''), from_jwk = \<lambda>_. Inr (),
     jwt_decode = \<lambda>_ _ _. Inr [(''sub'', JStr ''alice'')],
     fetch_jwks = \<lambda>_. Inr (JObj [(''keys'', JArr keys)])\<rparr>"

definition sample_cfg :: verifier_config where
  "sample_cfg = \<lparr>jwks_url = ''u'', issuer = ''i'', audience = ''a'', cache_ttl_s = 300\<rparr>"

definition empty_verifier :: "unit verifier_state" where
  "empty_verifier = \<lparr>keys_by_kid = [], fetched_at = 0, fetches = 0\<rparr>"

lemmas sample_verifier_defs = sample_jwks_def sample_cfg_def empty_verifier_def keys_published_def
  jwks_verify_def refresh_if_stale_def is_stale_def refresh_def published_keys_def dict_get_default_def
  key_for_def kid_key_def hash_key_def decode_token_def Let_def

lemma jwks_verify_accepts_witness:
  "\<exists>kid key n jwks ks. unverified_kid (sample_jwks [JObj [(''kid'', JStr ''k1'')]]) ''t'' = Inr kid \<and>
     fetch_jwks (sample_jwks [JObj [(''kid'', JStr ''k1'')]]) n = Inr jwks \<and>
     published_keys (sample_jwks [JObj [(''kid'', JStr ''k1'')]]) jwks = Inr ks \<and>
     map_of ks (case kid of None \<Rightarrow> JNull | Some s \<Rightarrow> JStr s) = Some key \<and>
     jwt_decode (sample_jwks [JObj [(''kid'', JStr ''k1'')]]) ''t'' key
       \<lparr>algorithms = [''RS256''], expected_audience = audience sample_cfg, expected_issuer = issuer sample_cfg,
         required_claims = [''exp'', ''iat'']\<rparr>
       = Inr [(''sub'', JStr ''alice'')]"
  by (rule jwks_verify_accepts [of _ empty_verifier sample_cfg "''t''" 0 1 2])
    (simp_all add: sample_verifier_defs)

text \<open>
  a verification makes at most two fetches, and none at all when the cache is fresh and holds
  the token's key.
\<close>

theorem jwks_verify_fetches:
  "fetches (snd (jwks_verify lib cfg st token tc t1 t2)) \<le> fetches st + 2 \<and>
   (\<not> is_stale cfg st tc \<and> unverified_kid lib token = Inr kid \<and> key_for st kid \<noteq> None \<longrightarrow>
      snd (jwks_verify lib cfg st token tc t1 t2) = st)"
proof -
  have le: "fetches (snd (refresh_if_stale lib cfg st tc t1)) \<le> fetches st + 1"
    by (simp add: fetches_refresh_if_stale)
  have "snd (jwks_verify lib cfg st token tc t1 t2) \<in>
      {st, snd (refresh_if_stale lib cfg st tc t1), snd (refresh lib cfg (snd (refresh_if_stale lib cfg st tc t1)) t2)}"
    by (auto simp: jwks_verify_def split: sum.splits prod.splits option.splits)
  with le show ?thesis
    by (auto simp: jwks_verify_def refresh_if_stale_def split: sum.splits)
qed

lemma jwks_verify_fetches_witness:
  "snd (jwks_verify (sample_jwks []) sample_cfg (empty_verifier\<lparr>keys_by_kid := [(JStr ''k1'', ())]\<rparr>) ''t'' 1 2 3)
     = empty_verifier\<lparr>keys_by_kid := [(JStr ''k1'', ())]\<rparr>"
  using jwks_verify_fetches [of "sample_jwks []" sample_cfg "empty_verifier\<lparr>keys_by_kid := [(JStr ''k1'', ())]\<rparr>"
      "''t''" 1 2 3 "Some ''k1''"]
  by (simp add: sample_verifier_defs)

section \<open>One bad entry\<close>

text \<open>A sequence of verifications, each with its clock readings.\<close>

fun verify_each ::
  "'key jwt_lib \<Rightarrow> verifier_config \<Rightarrow> (string \<times> py_float \<times> py_float \<times> py_float) list \<Rightarrow> 'key verifier_state \<Rightarrow>
   (verify_error + (string \<times> json) list) list \<times> 'key verifier_state" where
  "verify_each lib cfg [] st = ([], st)"
| "verify_each lib cfg ((token, t_check, t1, t2) # reqs) st =
     (let (r, st) = jwks_verify lib cfg st token t_check t1 t2; (rs, st) = verify_each lib cfg reqs st in (r # rs, st))"

text \<open>An entry of a JWKS document that the verifier has no use for, whatever the other entries are.\<close>

fun unusable_entry :: "'key jwt_lib \<Rightarrow> json \<Rightarrow> bool" where
  "unusable_entry lib (JObj d) \<longleftrightarrow>
     (case map_of d ''kid'' of
        None \<Rightarrow> True
      | Some kid \<Rightarrow> \<not> hashable kid \<or> (case from_jwk lib (JObj d) of Inl e \<Rightarrow> True | Inr key \<Rightarrow> False))"
| "unusable_entry lib k \<longleftrightarrow> True"

definition has_bad_entry :: "'key jwt_lib \<Rightarrow> string + json \<Rightarrow> bool" where
  "has_bad_entry lib answer \<longleftrightarrow>
     (case answer of
        Inr (JObj d) \<Rightarrow> (case dict_get_default d ''keys'' (JArr []) of JArr ks \<Rightarrow> list_ex (unusable_entry lib) ks | _ \<Rightarrow> False)
      | _ \<Rightarrow> False)"

lemma unusable_fails: "unusable_entry lib k \<Longrightarrow> \<exists>e. jwk_entry lib k = Inl e"
  by (cases k) (auto simp: hash_key_def split: option.splits sum.splits)

lemma bad_entry_fails: "unusable_entry lib k \<Longrightarrow> k \<in> set ks \<Longrightarrow> \<exists>e. map_r (jwk_entry lib) ks = Inl e"
proof (rule ccontr)
  assume bad: "unusable_entry lib k" "k \<in> set ks" and "\<nexists>e. map_r (jwk_entry lib) ks = Inl e"
  then obtain kks where "map_r (jwk_entry lib) ks = Inr kks" by (cases "map_r (jwk_entry lib) ks") auto
  then have "list_all2 (\<lambda>x y. jwk_entry lib x = Inr y) ks kks" unfolding map_r_Inr_iff .
  with bad(2) obtain y where "jwk_entry lib k = Inr y" unfolding list_all2_conv_all_nth by (metis in_set_conv_nth)
  with unusable_fails [OF bad(1)] show False by simp
qed

lemma bad_document_refresh:
  assumes "has_bad_entry lib (fetch_jwks lib (fetches st))"
  shows "\<exists>e. refresh lib cfg st now = (Inl (Escapes e), st\<lparr>fetches := fetches st + 1\<rparr>)"
proof -
  from assms obtain d ks k where f: "fetch_jwks lib (fetches st) = Inr (JObj d)"
    "dict_get_default d ''keys'' (JArr []) = JArr ks" "k \<in> set ks" "unusable_entry lib k"
    by (auto simp: has_bad_entry_def list_ex_iff split: sum.splits json.splits)
  from bad_entry_fails [OF f(4, 3)] f(1, 2) show ?thesis
    by (auto simp: refresh_def published_keys_def Let_def)
qed

text \<open>What a verification comes to while the document is bad: malformed tokens are refused, any other one raises.\<close>

definition raises_bare :: "'key jwt_lib \<Rightarrow> string \<times> py_float \<times> py_float \<times> py_float \<Rightarrow> verify_error + (string \<times> json) list \<Rightarrow> bool" where
  "raises_bare lib req r \<longleftrightarrow>
     (case unverified_kid lib (fst req) of
        Inl exc \<Rightarrow> r = Inl (Auth (AuthError (''malformed token: '' @ exc) ''UNAUTHENTICATED''))
      | Inr kid \<Rightarrow> (\<exists>e. r = Inl (Escapes e)))"

lemma bad_document_verify:
  assumes "has_bad_entry lib (fetch_jwks lib (fetches st))" and "is_stale cfg st tc"
    and "jwks_verify lib cfg st token tc t1 t2 = (r, st')"
  shows "raises_bare lib (token, x) r \<and> (st' = st \<or> st' = st\<lparr>fetches := fetches st + 1\<rparr>)"
proof -
  obtain e where "refresh lib cfg st t1 = (Inl (Escapes e), st\<lparr>fetches := fetches st + 1\<rparr>)"
    using bad_document_refresh [OF assms(1)] by blast
  with assms(2, 3) show ?thesis
    by (auto simp: jwks_verify_def refresh_if_stale_def raises_bare_def split: sum.splits)
qed

text \<open>
  C35: the module promises an \<open>AuthError\<close> on any failure, never a bare exception. But one entry of the
  provider's document that the comprehension cannot use (no \<open>kid\<close>, one that is no dict key, or a key that
  is not RSA) locks everybody out: once the verifier's keys are stale, or it has none, and as long as the
  provider serves such a document, no token of any sequence is accepted, not even one signed with a good
  key of the same document, and each token that is well formed makes \<open>verify\<close> raise a bare exception.
\<close>

theorem bad_entry_locks_out:
  assumes "\<And>n. fetches st \<le> n \<Longrightarrow> has_bad_entry lib (fetch_jwks lib n)"
    and "list_all (\<lambda>(token, t_check, t1, t2). is_stale cfg st t_check) reqs"
  shows "list_all2 (raises_bare lib) reqs (fst (verify_each lib cfg reqs st))"
  using assms
proof (induction reqs arbitrary: st)
  case (Cons req reqs)
  obtain token tc t1 t2 where req: "req = (token, tc, t1, t2)" by (cases req)
  obtain r st' where v: "jwks_verify lib cfg st token tc t1 t2 = (r, st')"
    by (cases "jwks_verify lib cfg st token tc t1 t2")
  from bad_document_verify [where x = "(tc, t1, t2)", OF Cons.prems(1) _ v] Cons.prems(2) req
  have r: "raises_bare lib req r" and st': "st' = st \<or> st' = st\<lparr>fetches := fetches st + 1\<rparr>" by auto
  from st' have "is_stale cfg st' t = is_stale cfg st t" for t by (auto simp: is_stale_def)
  with st' Cons.prems have "list_all2 (raises_bare lib) reqs (fst (verify_each lib cfg reqs st'))"
    by (intro Cons.IH) auto
  with v r show ?case by (simp add: req split_beta)
qed simp

lemma bad_entry_locks_out_witness:
  "list_all2 (raises_bare (sample_jwks [JObj [(''kid'', JStr ''k1'')], JObj [(''kty'', JStr ''RSA'')]]))
     [(''t'', 0, 1, 2), (''t'', 3, 4, 5)]
     (fst (verify_each (sample_jwks [JObj [(''kid'', JStr ''k1'')], JObj [(''kty'', JStr ''RSA'')]]) sample_cfg
       [(''t'', 0, 1, 2), (''t'', 3, 4, 5)] empty_verifier))"
  by (rule bad_entry_locks_out)
    (simp_all add: has_bad_entry_def sample_jwks_def dict_get_default_def is_stale_def empty_verifier_def)

end
