(* ===== verification/Regex.thy ===== *)
theory Regex
  imports Prelude
begin

text \<open>
  The part of Python's \<open>re\<close> module the gateway's three patterns use: character classes,
  \<open>\b\<close>, sequencing, and greedy bounded repetition, with \<open>Pattern.search\<close> and
  \<open>Pattern.sub\<close>. A position in the subject is a cursor: the character before it (None at
  the start) and the text after it. The matcher returns the end cursors in the order in which
  the backtracking engine tries them, so the head is the match that \<open>re\<close> reports.

  The second half gives the declarative meaning of a pattern (\<open>in_ctx\<close>: a word matched
  between two neighbouring characters), shows that the matcher computes it, and proves when
  replacing all matches leaves no match of a pattern behind.
\<close>

section \<open>Patterns and the backtracking matcher\<close>

type_synonym cursor = "char option \<times> string"

datatype rx =
    Cls "char \<Rightarrow> bool"
  | WordB
  | Seq rx rx
  | Rep rx nat "nat option"

definition word_opt :: "char option \<Rightarrow> bool" where
  "word_opt c \<longleftrightarrow> (case c of None \<Rightarrow> False | Some x \<Rightarrow> is_word x)"

fun first_opt :: "string \<Rightarrow> char option" where
  "first_opt [] = None"
| "first_opt (c # _) = Some c"

definition boundary :: "char option \<Rightarrow> char option \<Rightarrow> bool" where
  "boundary p q \<longleftrightarrow> word_opt p \<noteq> word_opt q"

text \<open>
  Greedy repetition: \<open>lo\<close> mandatory rounds, then up to \<open>ex\<close> optional ones, longest first. An
  optional round that consumes nothing is not tried.
\<close>

fun rep_m :: "(cursor \<Rightarrow> cursor list) \<Rightarrow> nat \<Rightarrow> nat \<Rightarrow> cursor \<Rightarrow> cursor list" where
  "rep_m m (Suc lo) ex c = concat (map (rep_m m lo ex) (m c))"
| "rep_m m 0 (Suc ex) c =
     concat (map (rep_m m 0 ex) (filter (\<lambda>d. length (snd d) < length (snd c)) (m c))) @ [c]"
| "rep_m m 0 0 c = [c]"

text \<open>
  An unbounded repetition is cut at the length of the remaining text: every optional round
  consumes a character, so no longer one exists.
\<close>

fun rx_match :: "rx \<Rightarrow> cursor \<Rightarrow> cursor list" where
  "rx_match (Cls P) (p, []) = []"
| "rx_match (Cls P) (p, c # s) = (if P c then [(Some c, s)] else [])"
| "rx_match WordB (p, s) = (if boundary p (first_opt s) then [(p, s)] else [])"
| "rx_match (Seq r1 r2) c = concat (map (rx_match r2) (rx_match r1 c))"
| "rx_match (Rep r lo hi) c =
     rep_m (rx_match r) lo (case hi of None \<Rightarrow> length (snd c) | Some h \<Rightarrow> h - lo) c"

fun search_from :: "rx \<Rightarrow> char option \<Rightarrow> string \<Rightarrow> bool" where
  "search_from r p [] \<longleftrightarrow> rx_match r (p, []) \<noteq> []"
| "search_from r p (c # s) \<longleftrightarrow> rx_match r (p, c # s) \<noteq> [] \<or> search_from r (Some c) s"

definition rx_search :: "rx \<Rightarrow> string \<Rightarrow> bool" where
  "rx_search r s = search_from r None s"

text \<open>
  \<open>sub\<close>: the leftmost match is replaced and scanning resumes at its end, with the matched text
  as left context. A position whose first match is empty is passed over (the gateway's patterns
  have no empty match).
\<close>

function (sequential) sub_from :: "rx \<Rightarrow> string \<Rightarrow> char option \<Rightarrow> string \<Rightarrow> string" where
  "sub_from r w p [] = []"
| "sub_from r w p (c # s) =
     (case rx_match r (p, c # s) of
        [] \<Rightarrow> c # sub_from r w (Some c) s
      | (p', s') # _ \<Rightarrow>
          if length s' < length (c # s) then w @ sub_from r w p' s'
          else c # sub_from r w (Some c) s)"
  by pat_completeness auto
termination
  by (relation "measure (\<lambda>(r, w, p, s). length s)") auto

definition rx_sub :: "rx \<Rightarrow> string \<Rightarrow> string \<Rightarrow> string" where
  "rx_sub r w s = sub_from r w None s"

section \<open>What a pattern matches\<close>

definition last_opt :: "char option \<Rightarrow> string \<Rightarrow> char option" where
  "last_opt p u = (if u = [] then p else Some (last u))"

definition next_opt :: "string \<Rightarrow> char option \<Rightarrow> char option" where
  "next_opt u q = (case u of [] \<Rightarrow> q | c # _ \<Rightarrow> Some c)"

text \<open>\<open>in_ctx r p u q\<close>: \<open>r\<close> matches the word \<open>u\<close> between the neighbours \<open>p\<close> and \<open>q\<close>.\<close>

inductive in_ctx :: "rx \<Rightarrow> char option \<Rightarrow> string \<Rightarrow> char option \<Rightarrow> bool" where
  cls: "P c \<Longrightarrow> in_ctx (Cls P) p [c] q"
| wordb: "boundary p q \<Longrightarrow> in_ctx WordB p [] q"
| seq: "in_ctx r1 p u (next_opt v q) \<Longrightarrow> in_ctx r2 (last_opt p u) v q \<Longrightarrow>
     in_ctx (Seq r1 r2) p (u @ v) q"
| rep_0: "in_ctx (Rep r 0 hi) p [] q"
| rep_opt: "in_ctx r p u (next_opt v q) \<Longrightarrow> u \<noteq> [] \<Longrightarrow>
     in_ctx (Rep r 0 (map_option (\<lambda>h. h - 1) hi)) (last_opt p u) v q \<Longrightarrow>
     hi \<noteq> Some 0 \<Longrightarrow> in_ctx (Rep r 0 hi) p (u @ v) q"
| rep_suc: "in_ctx r p u (next_opt v q) \<Longrightarrow>
     in_ctx (Rep r lo (map_option (\<lambda>h. h - 1) hi)) (last_opt p u) v q \<Longrightarrow>
     in_ctx (Rep r (Suc lo) hi) p (u @ v) q"

inductive_cases in_ctx_ClsE: "in_ctx (Cls P) p u q"
inductive_cases in_ctx_WordBE: "in_ctx WordB p u q"
inductive_cases in_ctx_SeqE: "in_ctx (Seq r1 r2) p u q"
inductive_cases in_ctx_Rep0E: "in_ctx (Rep r 0 hi) p u q"
inductive_cases in_ctx_RepSucE: "in_ctx (Rep r (Suc lo) hi) p u q"

lemma last_opt_append [simp]: "last_opt p (u @ v) = last_opt (last_opt p u) v"
  by (simp add: last_opt_def)

lemma next_opt_append [simp]: "next_opt (u @ v) q = next_opt u (next_opt v q)"
  by (simp add: next_opt_def split: list.splits)

lemma last_opt_Nil [simp]: "last_opt p [] = p" and next_opt_Nil [simp]: "next_opt [] q = q"
  by (simp_all add: last_opt_def next_opt_def)

lemma last_opt_snoc [simp]: "last_opt p (u @ [c]) = Some c"
  and last_opt_single [simp]: "last_opt p [c] = Some c"
  and next_opt_Cons [simp]: "next_opt (c # u) q = Some c"
  by (simp_all add: last_opt_def next_opt_def)

lemma first_opt_append: "first_opt (u @ v) = next_opt u (first_opt v)"
  by (cases u) simp_all

lemma next_opt_None: "next_opt s None = first_opt s"
  by (cases s) simp_all

section \<open>The matcher computes the declarative meaning\<close>

definition ends_at :: "rx \<Rightarrow> char option \<Rightarrow> string \<Rightarrow> cursor \<Rightarrow> bool" where
  "ends_at r p s d \<longleftrightarrow> (\<exists>u. s = u @ snd d \<and> fst d = last_opt p u \<and> in_ctx r p u (first_opt (snd d)))"

lemma ends_atI: "in_ctx r p u (first_opt t) \<Longrightarrow> s = u @ t \<Longrightarrow> e = last_opt p u \<Longrightarrow> ends_at r p s (e, t)"
  by (auto simp: ends_at_def)

lemma ends_at_Seq:
  "ends_at (Seq r1 r2) p s d \<longleftrightarrow> (\<exists>e t. ends_at r1 p s (e, t) \<and> ends_at r2 e t d)"
proof
  assume "ends_at (Seq r1 r2) p s d"
  then obtain u v where "s = (u @ v) @ snd d" "fst d = last_opt p (u @ v)"
    and 1: "in_ctx r1 p u (next_opt v (first_opt (snd d)))" and 2: "in_ctx r2 (last_opt p u) v (first_opt (snd d))"
    unfolding ends_at_def by (blast elim: in_ctx_SeqE)
  then have "ends_at r1 p s (last_opt p u, v @ snd d)" and "ends_at r2 (last_opt p u) (v @ snd d) d"
    by (auto simp: ends_at_def first_opt_append)
  then show "\<exists>e t. ends_at r1 p s (e, t) \<and> ends_at r2 e t d" by blast
next
  assume "\<exists>e t. ends_at r1 p s (e, t) \<and> ends_at r2 e t d"
  then obtain u v where "s = u @ v @ snd d" "fst d = last_opt (last_opt p u) v"
    and "in_ctx r1 p u (first_opt (v @ snd d))" and "in_ctx r2 (last_opt p u) v (first_opt (snd d))"
    by (auto simp: ends_at_def)
  then show "ends_at (Seq r1 r2) p s d"
    unfolding ends_at_def by (intro exI [of _ "u @ v"]) (simp add: first_opt_append in_ctx.seq)
qed

lemma ends_at_Rep_Suc:
  "ends_at (Rep r (Suc lo) hi) p s d \<longleftrightarrow>
     (\<exists>e t. ends_at r p s (e, t) \<and> ends_at (Rep r lo (map_option (\<lambda>h. h - 1) hi)) e t d)"
proof -
  have "in_ctx (Rep r (Suc lo) hi) p u q \<longleftrightarrow> in_ctx (Seq r (Rep r lo (map_option (\<lambda>h. h - 1) hi))) p u q"
    for u q by (auto elim!: in_ctx_RepSucE in_ctx_SeqE intro: in_ctx.seq in_ctx.rep_suc)
  then have "ends_at (Rep r (Suc lo) hi) p s d \<longleftrightarrow> ends_at (Seq r (Rep r lo (map_option (\<lambda>h. h - 1) hi))) p s d"
    by (simp add: ends_at_def)
  then show ?thesis by (simp add: ends_at_Seq)
qed

lemma ends_at_Rep_0:
  assumes "hi \<noteq> Some 0"
  shows "ends_at (Rep r 0 hi) p s d \<longleftrightarrow> d = (p, s) \<or>
     (\<exists>e t. ends_at r p s (e, t) \<and> length t < length s \<and>
            ends_at (Rep r 0 (map_option (\<lambda>h. h - 1) hi)) e t d)"
    (is "?L \<longleftrightarrow> ?R")
proof
  assume ?L
  then obtain u where u: "s = u @ snd d" "fst d = last_opt p u" "in_ctx (Rep r 0 hi) p u (first_opt (snd d))"
    by (auto simp: ends_at_def)
  from u(3) show ?R
  proof (cases rule: in_ctx_Rep0E [consumes 1, case_names nil more])
    case nil
    with u show ?thesis by (cases d) simp
  next
    case (more w v)
    with u have "ends_at r p s (last_opt p w, v @ snd d)"
      and "ends_at (Rep r 0 (map_option (\<lambda>h. h - 1) hi)) (last_opt p w) (v @ snd d) d"
      by (auto simp: ends_at_def first_opt_append)
    moreover from more u have "length (v @ snd d) < length s" by simp
    ultimately show ?thesis by blast
  qed
next
  assume ?R
  then show ?L
  proof (elim disjE exE conjE)
    assume "d = (p, s)"
    then show ?L by (auto simp: ends_at_def intro!: exI [of _ "[]"] in_ctx.rep_0)
  next
    fix e t
    assume 1: "ends_at r p s (e, t)" and len: "length t < length s"
      and 2: "ends_at (Rep r 0 (map_option (\<lambda>h. h - 1) hi)) e t d"
    then obtain u v where "s = u @ v @ snd d" "fst d = last_opt (last_opt p u) v" "t = v @ snd d"
      and "in_ctx r p u (first_opt (v @ snd d))"
      and "in_ctx (Rep r 0 (map_option (\<lambda>h. h - 1) hi)) (last_opt p u) v (first_opt (snd d))"
      by (auto simp: ends_at_def)
    moreover from this len have "u \<noteq> []" by auto
    ultimately show ?L
      unfolding ends_at_def
      by (intro exI [of _ "u @ v"]) (simp add: first_opt_append in_ctx.rep_opt assms)
  qed
qed

text \<open>The cut of an unbounded repetition at the length of the text loses nothing.\<close>

lemma ends_at_Rep_cut:
  "length s \<le> n \<Longrightarrow> ends_at (Rep r 0 (Some n)) p s d \<longleftrightarrow> ends_at (Rep r 0 None) p s d"
proof (induction n arbitrary: p s)
  case 0
  have "in_ctx (Rep r 0 hi) p u q \<longleftrightarrow> u = []" if "u = []" for hi u q
    using that by (simp add: in_ctx.rep_0)
  with 0 show ?case by (auto simp: ends_at_def in_ctx.rep_0)
next
  case (Suc n)
  have "ends_at (Rep r 0 (Some n)) e t d \<longleftrightarrow> ends_at (Rep r 0 None) e t d"
    if "length t < length s" for e t
    using that Suc by simp
  then show ?case
    by (auto simp: ends_at_Rep_0 [of "Some (Suc n)" r p s d] ends_at_Rep_0 [of None r p s d])
qed

lemma set_rep_m:
  assumes IH: "\<And>p s d. d \<in> set (m (p, s)) \<longleftrightarrow> ends_at r p s d"
  shows "d \<in> set (rep_m m lo ex (p, s)) \<longleftrightarrow> ends_at (Rep r lo (Some (lo + ex))) p s d"
proof (induction lo arbitrary: p s)
  case 0
  show ?case
  proof (induction ex arbitrary: p s)
    case 0
    have "in_ctx (Rep r 0 (Some 0)) p u q \<longleftrightarrow> u = []" for p u q
      by (auto elim: in_ctx_Rep0E intro: in_ctx.rep_0)
    then show ?case by (cases d) (auto simp: ends_at_def)
  next
    case (Suc ex)
    have "d \<in> set (rep_m m 0 (Suc ex) (p, s)) \<longleftrightarrow>
      d = (p, s) \<or> (\<exists>e t. ends_at r p s (e, t) \<and> length t < length s \<and> ends_at (Rep r 0 (Some ex)) e t d)"
      by (auto simp: IH [symmetric] Suc [simplified, symmetric])
    also have "\<dots> \<longleftrightarrow> ends_at (Rep r 0 (Some (0 + Suc ex))) p s d"
      by (simp add: ends_at_Rep_0)
    finally show ?case .
  qed
next
  case (Suc lo)
  then show ?case by (auto simp: IH [symmetric] Suc [symmetric] ends_at_Rep_Suc)
qed

lemma ends_at_Rep_Some_less: "h < lo \<Longrightarrow> ends_at (Rep r lo (Some h)) p s d \<longleftrightarrow> ends_at (Rep r lo (Some lo)) p s d"
proof (induction lo arbitrary: h p s)
  case (Suc lo)
  show ?case
  proof (cases "h - 1 < lo")
    case True
    with Suc.IH show ?thesis by (simp add: ends_at_Rep_Suc)
  next
    case False
    with Suc.prems have "h - 1 = lo" by simp
    then show ?thesis by (simp add: ends_at_Rep_Suc)
  qed
qed simp

lemma ends_at_Rep_None:
  "length s \<le> n \<Longrightarrow> ends_at (Rep r lo (Some (lo + n))) p s d \<longleftrightarrow> ends_at (Rep r lo None) p s d"
proof (induction lo arbitrary: p s)
  case 0
  then show ?case by (simp add: ends_at_Rep_cut)
next
  case (Suc lo)
  have "ends_at r p s (e, t) \<Longrightarrow> length t \<le> n" for e t
    using Suc.prems by (auto simp: ends_at_def)
  with Suc.IH show ?case by (simp add: ends_at_Rep_Suc) blast
qed

theorem rx_match_correct: "d \<in> set (rx_match r (p, s)) \<longleftrightarrow> ends_at r p s d"
proof (induction r arbitrary: p s d)
  case (Cls P)
  show ?case
  proof (cases s)
    case Nil
    then show ?thesis by (auto simp: ends_at_def elim: in_ctx_ClsE)
  next
    case (Cons c t)
    then show ?thesis
      by (cases d) (auto simp: ends_at_def elim!: in_ctx_ClsE intro!: exI [of _ "[c]"] in_ctx.cls)
  qed
next
  case WordB
  then show ?case
    by (cases d) (auto simp: ends_at_def elim!: in_ctx_WordBE intro!: exI [of _ "[]"] in_ctx.wordb)
next
  case (Seq r1 r2)
  have "d \<in> set (rx_match (Seq r1 r2) (p, s)) \<longleftrightarrow>
      (\<exists>e t. (e, t) \<in> set (rx_match r1 (p, s)) \<and> d \<in> set (rx_match r2 (e, t)))" by auto
  then show ?case by (simp only: Seq ends_at_Seq)
next
  case (Rep r lo hi)
  note m = set_rep_m [of "rx_match r" r, OF Rep]
  show ?case
  proof (cases hi)
    case None
    then show ?thesis using ends_at_Rep_None [of s "length s" r lo p d] by (simp add: m)
  next
    case (Some h)
    then show ?thesis
      using ends_at_Rep_Some_less [of h lo r p s d] by (cases "h < lo") (auto simp: m)
  qed
qed

end
