(* ===== verification/Regex_Sub.thy ===== *)
theory Regex_Sub
  imports Regex
begin

text \<open>
  When does \<open>rx_sub r w s\<close> leave no match of a pattern behind? For patterns that start and end
  at a word boundary (\<open>guarded\<close>) and a bracketed replacement \<open>w\<close> that holds no piece of a match,
  no match survives and none is created (\<open>sub_removes\<close>, \<open>sub_keeps_clean\<close>).
\<close>

section \<open>Searching\<close>

definition hits :: "rx \<Rightarrow> char option \<Rightarrow> string \<Rightarrow> bool" where
  "hits r p s \<longleftrightarrow> (\<exists>a u b. s = a @ u @ b \<and> in_ctx r (last_opt p a) u (first_opt b))"

lemma rx_match_nonempty_iff:
  "rx_match r (p, s) \<noteq> [] \<longleftrightarrow> (\<exists>u b. s = u @ b \<and> in_ctx r p u (first_opt b))"
proof -
  have "rx_match r (p, s) \<noteq> [] \<longleftrightarrow> (\<exists>d. d \<in> set (rx_match r (p, s)))"
    by (cases "rx_match r (p, s)") auto
  also have "\<dots> \<longleftrightarrow> (\<exists>d. ends_at r p s d)" by (simp add: rx_match_correct)
  finally show ?thesis by (auto simp: ends_at_def)
qed

lemma hits_Nil [simp]: "hits r p [] \<longleftrightarrow> rx_match r (p, []) \<noteq> []"
  by (simp add: hits_def rx_match_nonempty_iff)

lemma hits_Cons: "hits r p (c # s) \<longleftrightarrow> rx_match r (p, c # s) \<noteq> [] \<or> hits r (Some c) s"
proof
  assume "hits r p (c # s)"
  then obtain a u b where eq: "c # s = a @ u @ b" and m: "in_ctx r (last_opt p a) u (first_opt b)"
    by (auto simp: hits_def)
  show "rx_match r (p, c # s) \<noteq> [] \<or> hits r (Some c) s"
  proof (cases a)
    case Nil
    with eq m show ?thesis unfolding rx_match_nonempty_iff by auto
  next
    case (Cons x a')
    with eq m have "s = a' @ u @ b" "in_ctx r (last_opt (Some c) a') u (first_opt b)"
      by (auto simp: last_opt_def)
    then show ?thesis by (auto simp: hits_def)
  qed
next
  assume "rx_match r (p, c # s) \<noteq> [] \<or> hits r (Some c) s"
  then show "hits r p (c # s)"
  proof
    assume "rx_match r (p, c # s) \<noteq> []"
    then obtain u b where "c # s = u @ b" "in_ctx r p u (first_opt b)"
      by (auto simp: rx_match_nonempty_iff)
    then show ?thesis
      unfolding hits_def by (intro exI [of _ "[]"] exI [of _ u] exI [of _ b]) simp
  next
    assume "hits r (Some c) s"
    then obtain a u b where "s = a @ u @ b" "in_ctx r (last_opt (Some c) a) u (first_opt b)"
      by (auto simp: hits_def)
    then show ?thesis
      unfolding hits_def by (intro exI [of _ "c # a"] exI [of _ u] exI [of _ b]) (auto simp: last_opt_def)
  qed
qed

lemma search_from_iff: "search_from r p s \<longleftrightarrow> hits r p s"
  by (induction s arbitrary: p) (simp_all add: hits_Cons)

theorem rx_search_iff:
  "rx_search r s \<longleftrightarrow> (\<exists>a u b. s = a @ u @ b \<and> in_ctx r (last_opt None a) u (first_opt b))"
  by (simp add: rx_search_def search_from_iff hits_def)

lemma hits_appendD: "hits r (last_opt p a) s \<Longrightarrow> hits r p (a @ s)"
proof -
  assume "hits r (last_opt p a) s"
  then obtain b u c where "s = b @ u @ c" "in_ctx r (last_opt (last_opt p a) b) u (first_opt c)"
    by (auto simp: hits_def)
  then show ?thesis
    unfolding hits_def by (intro exI [of _ "a @ b"] exI [of _ u] exI [of _ c]) simp
qed

section \<open>The neighbours of a match\<close>

text \<open>A match depends on its neighbours only through whether they are word characters.\<close>

lemma boundary_cong: "word_opt p = word_opt p' \<Longrightarrow> word_opt q = word_opt q' \<Longrightarrow> boundary p q = boundary p' q'"
  by (simp add: boundary_def)

lemma word_next_opt_cong: "word_opt q = word_opt q' \<Longrightarrow> word_opt (next_opt v q) = word_opt (next_opt v q')"
  by (cases v) simp_all

lemma word_last_opt_cong: "word_opt p = word_opt p' \<Longrightarrow> word_opt (last_opt p v) = word_opt (last_opt p' v)"
  by (simp add: last_opt_def)

lemma in_ctx_cong:
  "in_ctx r p u q \<Longrightarrow> word_opt p = word_opt p' \<Longrightarrow> word_opt q = word_opt q' \<Longrightarrow> in_ctx r p' u q'"
proof (induction arbitrary: p' q' rule: in_ctx.induct)
  case (cls P c p q)
  then show ?case by (simp add: in_ctx.cls)
next
  case (wordb p q)
  then have "boundary p' q'" by (metis boundary_def)
  then show ?case by (rule in_ctx.wordb)
next
  case (seq r1 p u v q r2)
  then show ?case by (metis in_ctx.seq word_next_opt_cong word_last_opt_cong)
next
  case (rep_0 r hi p q)
  show ?case by (rule in_ctx.rep_0)
next
  case (rep_opt r p u v q hi)
  then show ?case by (metis in_ctx.rep_opt word_next_opt_cong word_last_opt_cong)
next
  case (rep_suc r p u v q lo hi)
  then show ?case by (metis in_ctx.rep_suc word_next_opt_cong word_last_opt_cong)
qed

text \<open>Which characters a match may hold, and which kind it must hold.\<close>

primrec accepts :: "rx \<Rightarrow> char \<Rightarrow> bool" where
  "accepts (Cls P) c \<longleftrightarrow> P c"
| "accepts WordB c \<longleftrightarrow> False"
| "accepts (Seq r1 r2) c \<longleftrightarrow> accepts r1 c \<or> accepts r2 c"
| "accepts (Rep r lo hi) c \<longleftrightarrow> accepts r c"

primrec needs :: "(char \<Rightarrow> bool) \<Rightarrow> rx \<Rightarrow> bool" where
  "needs K (Cls P) \<longleftrightarrow> (\<forall>c. P c \<longrightarrow> K c)"
| "needs K WordB \<longleftrightarrow> False"
| "needs K (Seq r1 r2) \<longleftrightarrow> needs K r1 \<or> needs K r2"
| "needs K (Rep r lo hi) \<longleftrightarrow> lo \<noteq> 0 \<and> needs K r"

lemma in_ctx_accepts: "in_ctx r p u q \<Longrightarrow> c \<in> set u \<Longrightarrow> accepts r c"
  by (induction rule: in_ctx.induct) auto

lemma in_ctx_needs: "in_ctx r p u q \<Longrightarrow> needs K r \<Longrightarrow> \<exists>c \<in> set u. K c"
  by (induction rule: in_ctx.induct) auto

definition guarded :: "rx \<Rightarrow> bool" where
  "guarded r \<longleftrightarrow> (\<forall>p u q. in_ctx r p u q \<longrightarrow>
     u \<noteq> [] \<and> boundary p (first_opt u) \<and> boundary (last_opt None u) q)"

lemma guardedI:
  assumes "needs (\<lambda>_. True) r"
  shows "guarded (Seq WordB (Seq r WordB))"
  unfolding guarded_def
proof (intro allI impI)
  fix p u q
  assume "in_ctx (Seq WordB (Seq r WordB)) p u q"
  then have "boundary p (next_opt u q)" "in_ctx r p u q" "boundary (last_opt p u) q"
    by (auto elim!: in_ctx_SeqE in_ctx_WordBE)
  moreover from this assms in_ctx_needs have "u \<noteq> []" by fastforce
  ultimately show "u \<noteq> [] \<and> boundary p (first_opt u) \<and> boundary (last_opt None u) q"
    by (cases u) (auto simp: last_opt_def)
qed

lemma guardedD:
  assumes "guarded r" "in_ctx r p u q"
  shows "u \<noteq> []" "boundary p (first_opt u)" "boundary (last_opt p' u) q"
  using assms unfolding guarded_def last_opt_def by metis+

section \<open>Substitution\<close>

text \<open>
  A replacement in brackets is opaque to a pattern that does not accept a bracket and must hold a
  character (\<open>K\<close>) that the replacement does not have: no match reaches into it.
\<close>

definition opaque :: "string \<Rightarrow> rx \<Rightarrow> bool" where
  "opaque w r \<longleftrightarrow> guarded r \<and> \<not> accepts r (CHR ''['') \<and> \<not> accepts r (CHR '']'') \<and>
     (\<exists>m. w = CHR ''['' # m @ [CHR '']'']) \<and> (\<exists>K. needs K r \<and> (\<forall>c \<in> set w. \<not> K c))"

text \<open>The left neighbour may change into a non-word character where the old one was at a boundary.\<close>

definition ctx_ok :: "char option \<Rightarrow> char option \<Rightarrow> char option \<Rightarrow> bool" where
  "ctx_ok p p' q \<longleftrightarrow> word_opt p' = word_opt p \<or> (\<not> word_opt p' \<and> boundary p q)"

lemma ctx_ok_refl [simp]: "ctx_ok p p q"
  by (simp add: ctx_ok_def)

lemma not_word_brackets [simp]: "\<not> is_word (CHR ''['')" "\<not> is_word (CHR '']'')"
  by (simp_all add: is_word_def is_digit_def is_upper_ascii_def is_lower_ascii_def)

lemma opaque_word:
  assumes "opaque w r" "in_ctx r p u q"
  shows "CHR ''['' \<notin> set u" "CHR '']'' \<notin> set u" "\<not> (\<exists>a b. w = a @ u @ b)" "u \<noteq> []"
proof -
  from assms(1) obtain K where g: "guarded r" and K: "needs K r" "\<forall>c \<in> set w. \<not> K c"
    and b: "\<not> accepts r (CHR ''['')" "\<not> accepts r (CHR '']'')"
    by (auto simp: opaque_def)
  from b assms(2) show "CHR ''['' \<notin> set u" "CHR '']'' \<notin> set u"
    using in_ctx_accepts by blast+
  from in_ctx_needs [OF assms(2) K(1)] obtain c where "c \<in> set u" "K c" by blast
  with K(2) show "\<not> (\<exists>a b. w = a @ u @ b)" by fastforce
  from guardedD(1) [OF g assms(2)] show "u \<noteq> []" .
qed

lemma first_match:
  assumes "rx_match r (p, s) = (p1, s1) # ds"
  obtains u where "s = u @ s1" "p1 = last_opt p u" "in_ctx r p u (first_opt s1)"
proof -
  have "(p1, s1) \<in> set (rx_match r (p, s))" using assms by simp
  then show ?thesis using that by (auto simp: rx_match_correct ends_at_def)
qed

text \<open>
  A bracket-free prefix of the result was copied from the subject; what follows it either still
  follows it, or was replaced and then starts at a boundary.
\<close>

lemma sub_step:
  assumes "guarded r" "rx_match r (p, c # s) = d # ds"
  obtains v p1 s1 where "c # s = v @ s1" "p1 = last_opt p v" "in_ctx r p v (first_opt s1)" "v \<noteq> []"
    "sub_from r w p (c # s) = w @ sub_from r w p1 s1" "length s1 < length (c # s)"
    "d = (p1, s1)"
proof -
  obtain p1 s1 where d: "d = (p1, s1)" by (cases d)
  then obtain v where v: "c # s = v @ s1" "p1 = last_opt p v" "in_ctx r p v (first_opt s1)"
    using assms(2) first_match [of r p "c # s" p1 s1 ds] by metis
  from guardedD(1) [OF assms(1) v(3)] have "v \<noteq> []" .
  with v(1) have "length s1 < length (c # s)" by (cases v) auto
  moreover from this have "sub_from r w p (c # s) = w @ sub_from r w p1 s1"
    using assms(2) d by simp
  ultimately show ?thesis using that v \<open>v \<noteq> []\<close> d by blast
qed

lemma sub_prefix_back:
  "sub_from r w p s = u @ b \<Longrightarrow> CHR ''['' \<notin> set u \<Longrightarrow> guarded r \<Longrightarrow> w = CHR ''['' # m \<Longrightarrow>
    \<exists>b0. s = u @ b0 \<and> (word_opt (first_opt b) = word_opt (first_opt b0) \<or>
       \<not> word_opt (first_opt b) \<and> boundary (last_opt p u) (first_opt b0))"
proof (induction r w p s arbitrary: u rule: sub_from.induct)
  case (1 r w p)
  then show ?case by simp
next
  case (2 r w p c s)
  note IH = "2.IH"(1)
  show ?case
  proof (cases "rx_match r (p, c # s)")
    case Nil
    show ?thesis
    proof (cases u)
      case Nil
      with "2.prems" \<open>rx_match r (p, c # s) = []\<close> show ?thesis by auto
    next
      case (Cons x u')
      with "2.prems" Nil have "sub_from r w (Some c) s = u' @ b" "x = c" "CHR ''['' \<notin> set u'"
        by auto
      from IH [OF Nil this(1,3) "2.prems"(3,4)] obtain b0 where "s = u' @ b0"
        "word_opt (first_opt b) = word_opt (first_opt b0) \<or>
          \<not> word_opt (first_opt b) \<and> boundary (last_opt (Some c) u') (first_opt b0)" by blast
      with Cons \<open>x = c\<close> show ?thesis by (intro exI [of _ b0]) (auto simp: last_opt_def)
    qed
  next
    case (Cons d ds)
    obtain v p1 s1 where v: "c # s = v @ s1" "in_ctx r p v (first_opt s1)" "v \<noteq> []"
      "sub_from r w p (c # s) = w @ sub_from r w p1 s1"
      using sub_step [OF "2.prems"(3) Cons, of w thesis] by blast
    from v(4) "2.prems"(1,2,4) have u: "u = []" by (cases u) auto
    with v(4) "2.prems"(1,4) have "\<not> word_opt (first_opt b)"
      by (metis append.left_neutral append_Cons first_opt.simps(2) not_word_brackets(1) option.simps(5) word_opt_def)
    moreover from guardedD(2) [OF "2.prems"(3) v(2)] v(1,3) have "boundary p (Some c)"
      by (cases v) auto
    ultimately show ?thesis using u by simp
  qed
qed

lemma opaque_split:
  assumes "opaque w r" "w @ t = a @ u @ b" "in_ctx r p u q"
  obtains a' where "a = w @ a'" "t = a' @ u @ b"
proof -
  obtain m where w: "w = CHR ''['' # m @ [CHR '']'']" using assms(1) by (auto simp: opaque_def)
  from assms(2) obtain v where "w = a @ v \<and> v @ t = u @ b \<or> w @ v = a \<and> t = v @ u @ b"
    unfolding append_eq_append_conv2 [of w t a] by blast
  then consider a' where "a = w @ a'" "t = a' @ u @ b" | "w = a @ v" "v \<noteq> []" "v @ t = u @ b"
    by (cases "v = []") auto
  then show thesis
  proof cases
    case 1
    then show ?thesis by (rule that)
  next
    case 2
    then have "last v = CHR '']''" using w by (metis last_appendR last_snoc append_Cons)
    with 2(2) have "CHR '']'' \<in> set v" by (metis last_in_set)
    from 2(3) consider x where "v = u @ x" | x where "u = v @ x"
      by (auto simp: append_eq_append_conv2)
    then show ?thesis
    proof cases
      case 1
      with 2(1) opaque_word(3) [OF assms(1,3)] show ?thesis by auto
    next
      case 2
      with \<open>CHR '']'' \<in> set v\<close> opaque_word(2) [OF assms(1,3)] show ?thesis by simp
    qed
  qed
qed

text \<open>The main induction: both the replaced pattern and any absent one stay absent.\<close>

lemma sub_from_no_hits:
  "guarded r \<Longrightarrow> opaque w r2 \<Longrightarrow> r2 = r \<or> \<not> hits r2 p s \<Longrightarrow> ctx_ok p p' (first_opt s) \<Longrightarrow>
    \<not> hits r2 p' (sub_from r w p s)"
proof (induction r w p s arbitrary: p' rule: sub_from.induct)
  case (1 r w p)
  then show ?case by (auto simp: hits_def dest: opaque_word(4))
next
  case (2 r w p c s)
  note g = \<open>guarded r\<close> and op = \<open>opaque w r2\<close>
  have g2: "guarded r2" using op by (simp add: opaque_def)
  obtain m where w: "w = CHR ''['' # m @ [CHR '']'']" using op by (auto simp: opaque_def)
  show ?case
  proof (cases "rx_match r (p, c # s)")
    case Nil
    have IH: "\<not> hits r2 (Some c) (sub_from r w (Some c) s)"
      using "2.IH"(1) [OF Nil g op, of "Some c"] "2.prems"(3) by (auto simp: hits_Cons)
    show ?thesis
    proof
      assume "hits r2 p' (sub_from r w p (c # s))"
      with Nil IH have "rx_match r2 (p', c # sub_from r w (Some c) s) \<noteq> []"
        by (simp add: hits_Cons)
      then obtain u b where ub: "sub_from r w p (c # s) = u @ b" and m: "in_ctx r2 p' u (first_opt b)"
        using Nil by (auto simp: rx_match_nonempty_iff)
      note no = opaque_word [OF op m]
      from sub_prefix_back [OF ub no(1) g w] obtain b0 where b0: "c # s = u @ b0"
        and q: "word_opt (first_opt b) = word_opt (first_opt b0) \<or>
          \<not> word_opt (first_opt b) \<and> boundary (last_opt p u) (first_opt b0)" by blast
      have "first_opt u = Some c" using b0 no(4) by (cases u) auto
      with guardedD(2) [OF g2 m] "2.prems"(4) have "word_opt p' = word_opt p"
        by (auto simp: ctx_ok_def boundary_def)
      moreover have "word_opt (first_opt b) = word_opt (first_opt b0)"
        using q guardedD(3) [OF g2 m, of p] by (auto simp: boundary_def)
      ultimately have "in_ctx r2 p u (first_opt b0)"
        using in_ctx_cong [OF m] by blast
      with b0 have "rx_match r2 (p, c # s) \<noteq> []" by (auto simp: rx_match_nonempty_iff)
      with Nil "2.prems"(3) show False by (auto simp: hits_Cons)
    qed
  next
    case (Cons d ds)
    obtain v p1 s1 where v: "c # s = v @ s1" "p1 = last_opt p v" "in_ctx r p v (first_opt s1)" "v \<noteq> []"
      and out: "sub_from r w p (c # s) = w @ sub_from r w p1 s1"
      and len: "length s1 < length (c # s)" and d: "d = (p1, s1)"
      using sub_step [OF g Cons, of w thesis] by blast
    have "r2 = r \<or> \<not> hits r2 p1 s1"
      using "2.prems"(3) v(1,2) hits_appendD [of r2 p v s1] by auto
    moreover have "ctx_ok p1 (Some (CHR '']'')) (first_opt s1)"
      using guardedD(3) [OF g v(3), of p] v(2) by (simp add: ctx_ok_def word_opt_def)
    ultimately have IH: "\<not> hits r2 (Some (CHR '']'')) (sub_from r w p1 s1)"
      using "2.IH"(2) [OF Cons d [symmetric] len g op] by blast
    show ?thesis
    proof
      assume "hits r2 p' (sub_from r w p (c # s))"
      then obtain a u b where eq: "w @ sub_from r w p1 s1 = a @ u @ b"
        and m: "in_ctx r2 (last_opt p' a) u (first_opt b)"
        unfolding hits_def out by blast
      obtain a' where a': "a = w @ a'" "sub_from r w p1 s1 = a' @ u @ b"
        using opaque_split [OF op eq m] by blast
      have "last_opt p' a = last_opt (Some (CHR '']'')) a'"
        using a'(1) w by (simp add: last_opt_def)
      with m a'(2) have "hits r2 (Some (CHR '']'')) (sub_from r w p1 s1)" by (auto simp: hits_def)
      with IH show False ..
    qed
  qed
qed

theorem sub_removes:
  assumes "opaque w r" shows "\<not> rx_search r (rx_sub r w s)"
  using sub_from_no_hits [of r w r None s None] assms
  by (simp add: rx_search_def rx_sub_def search_from_iff opaque_def)

theorem sub_keeps_clean:
  assumes "guarded r" "opaque w r2" "\<not> rx_search r2 s" shows "\<not> rx_search r2 (rx_sub r w s)"
  using sub_from_no_hits [of r w r2 None s None] assms
  by (simp add: rx_search_def rx_sub_def search_from_iff)

lemma sub_from_no_match: "\<not> hits r p s \<Longrightarrow> sub_from r w p s = s"
  by (induction s arbitrary: p) (auto simp: hits_Cons)

theorem sub_clean_id: "\<not> rx_search r s \<Longrightarrow> rx_sub r w s = s"
  by (simp add: rx_search_def rx_sub_def search_from_iff sub_from_no_match)

end
