(* ===== verification/Interfaces.thy ===== *)
theory Interfaces
  imports Prelude
begin

text \<open>
  The contracts that several components share, each with what follows from it.

  \<^item> \<open>keyed_state\<close>: a component that keeps one slot per key (per tenant, per model, per
    request id) and whose operation on one key neither reads nor writes another slot. Its
    consequence is non-interference over whole interleaved runs.
  \<^item> \<open>ttl_store\<close>: a store whose reads forget what is older than a time to live. Its
    consequence is that every value read was written under that key, recently enough, and not
    overwritten since. \<open>ttl_store_exact\<close> adds that a fresh value is never lost.
  \<^item> \<open>simulation\<close>: a transition system that implements another one through an abstraction, with an
    invariant of its own. Its consequence is that every reachable state is an image of a reachable
    abstract one, so abstract invariants carry over.
\<close>

section \<open>One slot per key\<close>

text \<open>Running a list of keyed operations, collecting each one's answer.\<close>

fun run_keyed :: "('k \<Rightarrow> 'i \<Rightarrow> 's \<Rightarrow> 'o \<times> 's) \<Rightarrow> ('k \<times> 'i) list \<Rightarrow> 's \<Rightarrow> ('k \<times> 'o) list \<times> 's" where
  "run_keyed f [] s = ([], s)"
| "run_keyed f ((k, i) # ops) s =
     (let (out, s') = f k i s; (outs, s'') = run_keyed f ops s' in ((k, out) # outs, s''))"

definition only :: "'k \<Rightarrow> ('k \<times> 'a) list \<Rightarrow> ('k \<times> 'a) list" where
  "only k xs = filter (\<lambda>x. fst x = k) xs"

lemma only_simps [simp]:
  "only k [] = []"
  "only k ((k', a) # xs) = (if k' = k then (k', a) # only k xs else only k xs)"
  by (auto simp: only_def)

lemma run_keyed_snoc: "snd (run_keyed f (ops @ [(k, i)]) s) = snd (f k i (snd (run_keyed f ops s)))"
proof (induction ops arbitrary: s)
  case (Cons op ops)
  then show ?case by (cases op) (simp add: split_beta Let_def)
qed (simp add: split_beta Let_def)

locale keyed_state =
  fixes step :: "'k \<Rightarrow> 'i \<Rightarrow> 's \<Rightarrow> 'o \<times> 's"
    and view :: "'s \<Rightarrow> 'k \<Rightarrow> 'v"
  assumes step_other: "k \<noteq> k' \<Longrightarrow> view (snd (step k i s)) k' = view s k'"
    and step_out: "view s k = view t k \<Longrightarrow> fst (step k i s) = fst (step k i t)"
    and step_view: "view s k = view t k \<Longrightarrow> view (snd (step k i s)) k = view (snd (step k i t)) k"
begin

lemma noninterference_gen:
  "view s k = view t k \<Longrightarrow>
     only k (fst (run_keyed step ops s)) = fst (run_keyed step (only k ops) t) \<and>
     view (snd (run_keyed step ops s)) k = view (snd (run_keyed step (only k ops) t)) k"
proof (induction ops arbitrary: s t)
  case Nil
  then show ?case by simp
next
  case (Cons op ops)
  obtain k' i where op: "op = (k', i)" by (cases op)
  show ?case
  proof (cases "k' = k")
    case True
    have "view (snd (step k i s)) k = view (snd (step k i t)) k"
      using Cons.prems by (rule step_view)
    from Cons.IH [OF this] step_out [OF Cons.prems, of i] show ?thesis
      by (simp add: op True split_beta Let_def)
  next
    case False
    then have "view (snd (step k' i s)) k = view t k"
      using Cons.prems by (simp add: step_other)
    from Cons.IH [OF this] False show ?thesis
      by (simp add: op split_beta Let_def)
  qed
qed

lemma noninterference:
  "only k (fst (run_keyed step ops s)) = fst (run_keyed step (only k ops) s)"
  using noninterference_gen [of s k s ops] by simp

lemma run_other: "k \<notin> fst ` set ops \<Longrightarrow> view (snd (run_keyed step ops s)) k = view s k"
proof (induction ops arbitrary: s)
  case Nil
  then show ?case by simp
next
  case (Cons op ops)
  obtain k' i where op: "op = (k', i)" by (cases op)
  with Cons.prems have "k' \<noteq> k" "k \<notin> fst ` set ops" by auto
  with op Cons.IH [of "snd (step k' i s)"] step_other [of k' k i s] show ?case
    by (simp add: split_beta Let_def)
qed

end

section \<open>Stores with a time to live\<close>

datatype ('k, 'a) ttl_op = Put 'k 'a py_float | Get 'k py_float

fun run_ttl ::
  "('s \<Rightarrow> 'k \<Rightarrow> 'a \<Rightarrow> py_float \<Rightarrow> 's) \<Rightarrow> ('s \<Rightarrow> 'k \<Rightarrow> py_float \<Rightarrow> 'v option \<times> 's) \<Rightarrow>
   ('k, 'a) ttl_op list \<Rightarrow> 's \<Rightarrow> 's" where
  "run_ttl put get [] s = s"
| "run_ttl put get (Put k a t # ops) s = run_ttl put get ops (put s k a t)"
| "run_ttl put get (Get k t # ops) s = run_ttl put get ops (snd (get s k t))"

text \<open>
  The last write under the key, younger than the time to live, whose stored image is the value
  (\<open>img\<close>: what the store keeps of what it is given).
\<close>

definition recent_put ::
  "py_float \<Rightarrow> ('a \<Rightarrow> 'v) \<Rightarrow> ('k, 'a) ttl_op list \<Rightarrow> 'k \<Rightarrow> 'v \<Rightarrow> py_float \<Rightarrow> bool" where
  "recent_put ttl img ops k v now \<longleftrightarrow>
     (\<exists>ops1 a t ops2. ops = ops1 @ Put k a t # ops2 \<and> img a = v \<and> now - t < ttl \<and>
        (\<forall>a' t'. Put k a' t' \<notin> set ops2))"

locale ttl_store =
  fixes put :: "'s \<Rightarrow> 'k \<Rightarrow> 'a \<Rightarrow> py_float \<Rightarrow> 's"
    and get :: "'s \<Rightarrow> 'k \<Rightarrow> py_float \<Rightarrow> 'v option \<times> 's"
    and img :: "'a \<Rightarrow> 'v"
    and ttl :: py_float
    and empty :: 's
    and inv :: "'s \<Rightarrow> bool"
  assumes inv_empty: "inv empty"
    and inv_put: "inv s \<Longrightarrow> inv (put s k a t)"
    and inv_get: "inv s \<Longrightarrow> inv (snd (get s k t))"
    and get_empty: "fst (get empty k now) = None"
    and get_put: "inv s \<Longrightarrow> fst (get (put s k a t) k now) = Some v \<Longrightarrow> v = img a \<and> now - t < ttl"
    and get_put_other: "inv s \<Longrightarrow> k \<noteq> k' \<Longrightarrow> fst (get (put s k a t) k' now) = Some v \<Longrightarrow> fst (get s k' now) = Some v"
    and get_get: "inv s \<Longrightarrow> fst (get (snd (get s k t)) k' now) = Some v \<Longrightarrow> fst (get s k' now) = Some v"
begin

lemma inv_run: "inv s \<Longrightarrow> inv (run_ttl put get ops s)"
proof (induction ops arbitrary: s)
  case (Cons op ops)
  then show ?case by (cases op) (auto intro: inv_put inv_get)
qed simp

lemma get_run:
  "inv s \<Longrightarrow> fst (get (run_ttl put get ops s) k now) = Some v \<Longrightarrow>
     recent_put ttl img ops k v now \<or> ((\<forall>a t. Put k a t \<notin> set ops) \<and> fst (get s k now) = Some v)"
proof (induction ops arbitrary: s)
  case Nil
  then show ?case by simp
next
  case (Cons op ops)
  have later: "recent_put ttl img ops k v now \<Longrightarrow> recent_put ttl img (op # ops) k v now"
    unfolding recent_put_def by (metis append_Cons)
  show ?case
  proof (cases op)
    case (Put k' a t)
    with Cons.IH [OF inv_put [OF Cons.prems(1)], of k' a t] Cons.prems
    consider "recent_put ttl img ops k v now"
      | "\<forall>a t. Put k a t \<notin> set ops" "fst (get (put s k' a t) k now) = Some v" by auto
    then show ?thesis
    proof cases
      case 1
      with later show ?thesis by blast
    next
      case 2
      show ?thesis
      proof (cases "k' = k")
        case True
        with get_put [OF Cons.prems(1), of k a t now v] 2 have "v = img a" "now - t < ttl" by auto
        with 2 True Put have "recent_put ttl img (op # ops) k v now"
          unfolding recent_put_def by (metis append_Nil)
        then show ?thesis by blast
      next
        case False
        with 2 Put get_put_other [OF Cons.prems(1), of k' k a t now v] show ?thesis by auto
      qed
    qed
  next
    case (Get k' t)
    with Cons.IH [OF inv_get [OF Cons.prems(1)], of k' t] Cons.prems later get_get [OF Cons.prems(1), of k' t k now v]
    show ?thesis by auto
  qed
qed

lemma get_recent:
  "fst (get (run_ttl put get ops empty) k now) = Some v \<Longrightarrow> recent_put ttl img ops k v now"
  using get_run [OF inv_empty, of ops k now v] by (simp add: get_empty)

lemma get_expired:
  assumes "\<And>a t. Put k a t \<in> set ops \<Longrightarrow> ttl \<le> now - t"
  shows "fst (get (run_ttl put get ops empty) k now) = None"
proof (cases "fst (get (run_ttl put get ops empty) k now)")
  case (Some v)
  from get_recent [OF this] obtain ops1 a t ops2
    where "ops = ops1 @ Put k a t # ops2" and fresh: "now - t < ttl"
    unfolding recent_put_def by blast
  then have "Put k a t \<in> set ops" by simp
  with assms fresh show ?thesis by fastforce
qed

end

locale ttl_store_exact = ttl_store +
  assumes get_put_fresh: "inv s \<Longrightarrow> now - t < ttl \<Longrightarrow> fst (get (put s k a t) k now) = Some (img a)"
begin

lemma get_put_iff: "inv s \<Longrightarrow> fst (get (put s k a t) k now) = Some v \<longleftrightarrow> v = img a \<and> now - t < ttl"
  using get_put get_put_fresh by blast

end

section \<open>Simulation\<close>

text \<open>The states a relation reaches from an initial set.\<close>

inductive reaches :: "('s \<Rightarrow> bool) \<Rightarrow> ('s \<Rightarrow> 's \<Rightarrow> bool) \<Rightarrow> 's \<Rightarrow> bool" for init trans where
  reaches_init: "init s \<Longrightarrow> reaches init trans s"
| reaches_step: "reaches init trans s \<Longrightarrow> trans s s' \<Longrightarrow> reaches init trans s'"

text \<open>A concrete step is an abstract step, or one the abstraction does not see.\<close>

locale simulation =
  fixes cinit :: "'c \<Rightarrow> bool" and cstep :: "'c \<Rightarrow> 'c \<Rightarrow> bool"
    and ainit :: "'a \<Rightarrow> bool" and astep :: "'a \<Rightarrow> 'a \<Rightarrow> bool"
    and abs :: "'c \<Rightarrow> 'a" and inv :: "'c \<Rightarrow> bool"
  assumes init_sim: "cinit c \<Longrightarrow> ainit (abs c)"
    and init_inv: "cinit c \<Longrightarrow> inv c"
    and step_inv: "inv c \<Longrightarrow> cstep c c' \<Longrightarrow> inv c'"
    and step_sim: "inv c \<Longrightarrow> cstep c c' \<Longrightarrow> abs c' = abs c \<or> astep (abs c) (abs c')"
begin

lemma reaches_sim: "reaches cinit cstep c \<Longrightarrow> reaches ainit astep (abs c) \<and> inv c"
proof (induction rule: reaches.induct)
  case (reaches_init s)
  then show ?case by (auto intro: reaches.reaches_init init_sim init_inv)
next
  case (reaches_step s s')
  with step_sim step_inv show ?case by (metis reaches.reaches_step)
qed

text \<open>What the abstract system never leaves, the concrete one never leaves either.\<close>

lemma invariant_transfer:
  assumes "\<And>a. ainit a \<Longrightarrow> I a" "\<And>a a'. I a \<Longrightarrow> astep a a' \<Longrightarrow> I a'" and "reaches cinit cstep c"
  shows "I (abs c)"
proof -
  have "reaches ainit astep a \<Longrightarrow> I a" for a by (induction rule: reaches.induct) (auto intro: assms(1, 2))
  with reaches_sim [OF assms(3)] show ?thesis by blast
qed

end

end
