(* ===== verification/Policy_Store.thy ===== *)
theory Policy_Store
  imports Interfaces
begin

text \<open>
  \<open>policy/models.py\<close> and \<open>policy/store.py\<close>: the tenant policy record, its loading from the
  parsed YAML file, and the in-memory store with the admin state change. The store's dict is a
  map from tenant id to policy; \<open>Inl tid\<close> is \<open>UnknownTenantError(tid)\<close>.
\<close>

section \<open>models.py\<close>

datatype tenant_state = ACTIVE | THROTTLED | READ_ONLY | SUSPENDED | EMERGENCY_BLOCK

fun state_value :: "tenant_state \<Rightarrow> string" where
  "state_value ACTIVE = ''ACTIVE''"
| "state_value THROTTLED = ''THROTTLED''"
| "state_value READ_ONLY = ''READ_ONLY''"
| "state_value SUSPENDED = ''SUSPENDED''"
| "state_value EMERGENCY_BLOCK = ''EMERGENCY_BLOCK''"

definition tenant_states :: "tenant_state list" where
  "tenant_states = [ACTIVE, THROTTLED, READ_ONLY, SUSPENDED, EMERGENCY_BLOCK]"

text \<open>\<open>TenantState(raw)\<close>: the member with that value, else ValueError (None).\<close>

fun parse_state :: "json \<Rightarrow> tenant_state option" where
  "parse_state (JStr s) = List.find (\<lambda>st. state_value st = s) tenant_states"
| "parse_state _ = None"

definition BLOCKING_STATES :: "tenant_state set" where
  "BLOCKING_STATES = {SUSPENDED, EMERGENCY_BLOCK}"

record tenant_policy =
  tenant_id :: string
  state :: tenant_state
  models :: "string list"
  rpm_limit :: int
  guardrail_policy :: string
  route_set :: "string option"
  slo_p95_latency_ms :: "py_float option"
  policy_epoch :: int
  allow_guardrail_bypass_on_error :: bool
  debug_capture_enabled :: bool

definition unknown_tenant_message :: "string \<Rightarrow> string" where
  "unknown_tenant_message tid = ''no policy configured for tenant_id='' @ repr_str tid"

section \<open>store.py\<close>

type_synonym policy_store = "string \<rightharpoonup> tenant_policy"

definition store_get :: "policy_store \<Rightarrow> string \<Rightarrow> string + tenant_policy" where
  "store_get policies tid = (case policies tid of None \<Rightarrow> Inl tid | Some p \<Rightarrow> Inr p)"

definition store_set_state ::
  "policy_store \<Rightarrow> string \<Rightarrow> tenant_state \<Rightarrow> string + (tenant_policy \<times> policy_store)" where
  "store_set_state policies tid st =
     (case store_get policies tid of
        Inl e \<Rightarrow> Inl e
      | Inr current \<Rightarrow>
          (let updated = current\<lparr>state := st, policy_epoch := policy_epoch current + 1\<rparr>
           in Inr (updated, policies(tid \<mapsto> updated))))"

fun as_opt_str :: "json \<Rightarrow> py_exn + string option" where
  "as_opt_str JNull = Inr None"
| "as_opt_str (JStr s) = Inr (Some s)"
| "as_opt_str _ = Inl IllTyped"

fun as_opt_number :: "json \<Rightarrow> py_exn + py_float option" where
  "as_opt_number JNull = Inr None"
| "as_opt_number (JInt i) = Inr (Some (of_int i))"
| "as_opt_number (JFloat x) = Inr (Some x)"
| "as_opt_number _ = Inl IllTyped"

definition load_policy :: "string \<times> json \<Rightarrow> py_exn + tenant_policy" where
  "load_policy item = (case item of (tid, cfg) \<Rightarrow>
     bind_r (as_dict (or_empty cfg)) (\<lambda>cfg.
     bind_r (as_dict (or_empty (dict_get cfg ''slo''))) (\<lambda>slo_cfg.
     bind_r (case parse_state (dict_get_default cfg ''state'' (JStr ''ACTIVE'')) of
               None \<Rightarrow> Inl ValueError | Some st \<Rightarrow> Inr st) (\<lambda>st.
     bind_r (as_str_list (dict_get_default cfg ''models'' (JArr []))) (\<lambda>ms.
     bind_r (as_int (dict_get_default cfg ''rpm_limit'' (JInt 60))) (\<lambda>rpm.
     bind_r (as_str (dict_get_default cfg ''guardrail_policy'' (JStr ''standard-v1''))) (\<lambda>gp.
     bind_r (as_opt_str (dict_get cfg ''route_set'')) (\<lambda>rs.
     bind_r (as_opt_number (dict_get slo_cfg ''p95_latency_ms'')) (\<lambda>p95.
     bind_r (as_int (dict_get_default cfg ''policy_epoch'' (JInt 1))) (\<lambda>epoch.
     Inr \<lparr>tenant_id = tid, state = st, models = ms, rpm_limit = rpm, guardrail_policy = gp,
          route_set = rs, slo_p95_latency_ms = p95, policy_epoch = epoch,
          allow_guardrail_bypass_on_error =
            truthy (dict_get_default cfg ''allow_guardrail_bypass_on_error'' (JBool False)),
          debug_capture_enabled =
            truthy (dict_get_default cfg ''debug_capture_enabled'' (JBool False))\<rparr>))))))))))"

text \<open>The parsed file is the argument: opening it and \<open>yaml.safe_load\<close> are not modelled.\<close>

definition load_policies :: "json \<Rightarrow> py_exn + policy_store" where
  "load_policies raw =
     bind_r (as_dict (or_empty raw)) (\<lambda>raw.
     bind_r (as_dict (or_empty (dict_get raw ''tenants''))) (\<lambda>tenants.
     bind_r (map_r load_policy tenants) (\<lambda>ps.
     Inr (fold (\<lambda>p m. m(tenant_id p \<mapsto> p)) ps Map.empty))))"

text \<open>\<open>FilePolicyStore\<close>: the store that is built in production, over the one its file was loaded into.\<close>

record file_policy_store =
  backing :: policy_store

definition file_store_init :: "json \<Rightarrow> py_exn + file_policy_store" where
  "file_store_init raw = bind_r (load_policies raw) (\<lambda>policies. Inr \<lparr>backing = policies\<rparr>)"

definition file_store_get :: "file_policy_store \<Rightarrow> string \<Rightarrow> string + tenant_policy" where
  "file_store_get s tid = store_get (backing s) tid"

definition file_store_set_state ::
  "file_policy_store \<Rightarrow> string \<Rightarrow> tenant_state \<Rightarrow> string + (tenant_policy \<times> file_policy_store)" where
  "file_store_set_state s tid st =
     (case store_set_state (backing s) tid st of
        Inl e \<Rightarrow> Inl e
      | Inr (updated, policies) \<Rightarrow> Inr (updated, s\<lparr>backing := policies\<rparr>))"

section \<open>The store's contract\<close>

text \<open>
  What the snapshot cache and the admin endpoint rely on (\<open>MutablePolicyStore\<close>): a state change
  is read back, bumps the tenant's epoch, changes nothing else of its policy and no other tenant.
\<close>

primrec run_changes ::
  "('s \<Rightarrow> string \<Rightarrow> tenant_state \<Rightarrow> string + (tenant_policy \<times> 's)) \<Rightarrow>
   (string \<times> tenant_state) list \<Rightarrow> 's \<Rightarrow> 's" where
  "run_changes set_state [] s = s"
| "run_changes set_state (c # cs) s =
     run_changes set_state cs (case set_state s (fst c) (snd c) of Inl _ \<Rightarrow> s | Inr (_, s') \<Rightarrow> s')"

locale mutable_policy_store =
  fixes get :: "'s \<Rightarrow> string \<Rightarrow> string + tenant_policy"
    and set_state :: "'s \<Rightarrow> string \<Rightarrow> tenant_state \<Rightarrow> string + (tenant_policy \<times> 's)"
  assumes set_state_Inr: "set_state s tid st = Inr (p, s') \<Longrightarrow>
      \<exists>old. get s tid = Inr old \<and> p = old\<lparr>state := st, policy_epoch := policy_epoch old + 1\<rparr> \<and>
        get s' tid = Inr p"
    and set_state_other: "set_state s tid st = Inr (p, s') \<Longrightarrow> tid' \<noteq> tid \<Longrightarrow> get s' tid' = get s tid'"
    and set_state_Inl: "set_state s tid st = Inl e \<longleftrightarrow> get s tid = Inl e"
begin

lemma change_get:
  assumes "get s tid = Inr p"
  shows "\<exists>p'. get (case set_state s t st of Inl _ \<Rightarrow> s | Inr (_, s') \<Rightarrow> s') tid = Inr p' \<and>
    policy_epoch p' = policy_epoch p + (if t = tid then 1 else 0) \<and> tenant_policy.tenant_id p' = tenant_policy.tenant_id p"
proof (cases "set_state s t st")
  case (Inl e)
  with set_state_Inl have "get s t = Inl e" by blast
  with assms Inl show ?thesis by auto
next
  case (Inr q)
  obtain p' s' where q: "q = (p', s')" by (cases q)
  show ?thesis
  proof (cases "t = tid")
    case True
    with set_state_Inr [of s t st p' s'] Inr q assms show ?thesis by auto
  next
    case False
    with set_state_other [of s t st p' s' tid] Inr q assms show ?thesis by auto
  qed
qed

lemma epoch_counts_changes:
  "get s tid = Inr p \<Longrightarrow> \<exists>p'. get (run_changes set_state cs s) tid = Inr p' \<and>
     policy_epoch p' = policy_epoch p + int (length (filter (\<lambda>c. fst c = tid) cs))"
proof (induction cs arbitrary: s p)
  case Nil
  then show ?case by simp
next
  case (Cons c cs)
  from change_get [OF Cons.prems, of "fst c" "snd c"] obtain p1 where
    p1: "get (case set_state s (fst c) (snd c) of Inl _ \<Rightarrow> s | Inr (_, s') \<Rightarrow> s') tid = Inr p1"
      "policy_epoch p1 = policy_epoch p + (if fst c = tid then 1 else 0)" by blast
  from Cons.IH [OF p1(1)] p1(2) show ?case by auto
qed

end

interpretation store: mutable_policy_store store_get store_set_state
  by unfold_locales (auto simp: store_set_state_def store_get_def Let_def split: option.splits)

interpretation file_store: mutable_policy_store file_store_get file_store_set_state
  by unfold_locales
    (auto simp: file_store_set_state_def file_store_get_def store.set_state_Inl store.set_state_other
      dest: store.set_state_Inr split: sum.splits)

section \<open>Properties\<close>

lemma store_get_simps [simp]:
  "policies tid = None \<Longrightarrow> store_get policies tid = Inl tid"
  "policies tid = Some p \<Longrightarrow> store_get policies tid = Inr p"
  by (simp_all add: store_get_def)

lemma parse_state_value [simp]: "parse_state (JStr (state_value st)) = Some st"
  by (cases st) (simp_all add: tenant_states_def)

text \<open>
  the admin body's state string and the enum round-trip, and nothing else parses.
\<close>

theorem parse_state_iff: "parse_state v = Some st \<longleftrightarrow> v = JStr (state_value st)"
proof
  assume "parse_state v = Some st"
  then show "v = JStr (state_value st)" by (cases v) (auto simp: find_Some_iff)
next
  assume "v = JStr (state_value st)"
  then show "parse_state v = Some st" using parse_state_value by blast
qed

text \<open>
  a state change of a known tenant stores the old policy with the new state and the next
  epoch, leaves every other tenant alone, and is what the next read returns; an unknown tenant is
  reported and nothing is stored.
\<close>

theorem store_set_state_spec:
  "store_set_state policies tid st =
     (case policies tid of
        None \<Rightarrow> Inl tid
      | Some p \<Rightarrow>
          (let p' = p\<lparr>state := st, policy_epoch := policy_epoch p + 1\<rparr>
           in Inr (p', \<lambda>t. if t = tid then Some p' else policies t)))"
  by (simp add: store_set_state_def store_get_def Let_def fun_upd_def split: option.split)

text \<open>
  a tenant's epoch counts its state changes: after any sequence of admin requests it has
  grown by the number of those that named the tenant, so it never repeats and never runs back.
\<close>

theorem epoch_counts_state_changes:
  "policies tid = Some p \<Longrightarrow>
     \<exists>p'. run_changes store_set_state cs policies tid = Some p' \<and>
       policy_epoch p' = policy_epoch p + int (length (filter (\<lambda>c. fst c = tid) cs))"
  using store.epoch_counts_changes [of policies tid p cs]
  by (auto simp: store_get_def split: option.splits)

definition sample_policy :: tenant_policy where
  "sample_policy = \<lparr>tenant_id = ''acme'', state = ACTIVE, models = [], rpm_limit = 60,
     guardrail_policy = ''standard-v1'', route_set = None, slo_p95_latency_ms = None, policy_epoch = 1,
     allow_guardrail_bypass_on_error = False, debug_capture_enabled = False\<rparr>"

theorem epoch_counts_state_changes_witness:
  "\<exists>p'. run_changes store_set_state
      [(''acme'', SUSPENDED), (''other'', ACTIVE), (''acme'', ACTIVE)] [''acme'' \<mapsto> sample_policy] ''acme'' = Some p' \<and>
     policy_epoch p' = 1 + int (length (filter (\<lambda>c. fst c = ''acme'')
       [(''acme'', SUSPENDED), (''other'', ACTIVE), (''acme'', ACTIVE)]))"
  using epoch_counts_state_changes [of "[''acme'' \<mapsto> sample_policy]" "''acme''" sample_policy
      "[(''acme'', SUSPENDED), (''other'', ACTIVE), (''acme'', ACTIVE)]"]
  by (simp add: sample_policy_def)

lemma load_policy_id: "load_policy (tid, cfg) = Inr p \<Longrightarrow> tenant_id p = tid"
  by (auto simp: load_policy_def bind_r_Inr_iff)

lemma fold_policies:
  "fold (\<lambda>p m. m(tenant_id p \<mapsto> p)) ps m = m ++ map_of (rev (map (\<lambda>p. (tenant_id p, p)) ps))"
  by (induction ps arbitrary: m) (simp_all add: map_of_append)

lemma loaded_policies:
  "list_all2 (\<lambda>e p. load_policy e = Inr p) es ps \<Longrightarrow>
     map fst es = map tenant_id ps \<and>
     (map_of (map (\<lambda>p. (tenant_id p, p)) ps) tid = Some p \<longleftrightarrow>
        (\<exists>cfg. map_of es tid = Some cfg \<and> load_policy (tid, cfg) = Inr p))"
proof (induction rule: list_all2_induct)
  case Nil
  then show ?case by simp
next
  case (Cons e es q ps)
  then show ?case by (cases e) (auto dest: load_policy_id)
qed

text \<open>
  loading keeps the file's keys apart: the store maps every tenant of a well-formed file to
  the policy its own entry describes, under its own id, and knows no other tenant.
\<close>

theorem load_policies_spec:
  assumes "load_policies (JObj raw) = Inr policies"
    and "dict_get raw ''tenants'' = JObj entries" and "distinct (map fst entries)"
  shows "policies tid = Some p \<longleftrightarrow>
     (\<exists>cfg. map_of entries tid = Some cfg \<and> load_policy (tid, cfg) = Inr p)"
proof -
  have raw: "as_dict (or_empty (JObj raw)) = Inr raw" by (simp add: or_empty_def)
  have entries: "as_dict (or_empty (dict_get raw ''tenants'')) = Inr entries"
    using assms(2) by (simp add: or_empty_def)
  obtain ps where ps: "map_r load_policy entries = Inr ps"
    "policies = map_of (rev (map (\<lambda>p. (tenant_id p, p)) ps))"
    using assms(1) unfolding load_policies_def raw bind_r_simps entries
    by (auto simp: bind_r_Inr_iff fold_policies)
  from ps(1) have all: "list_all2 (\<lambda>e p. load_policy e = Inr p) entries ps"
    by (simp add: map_r_Inr_iff)
  from loaded_policies [OF all] assms(3) have "distinct (map fst (map (\<lambda>p. (tenant_id p, p)) ps))"
    by (simp add: comp_def)
  then have "policies = map_of (map (\<lambda>p. (tenant_id p, p)) ps)"
    unfolding ps(2) by (rule map_of_rev_distinct)
  with loaded_policies [OF all] show ?thesis by simp
qed

lemmas load_defs = load_policies_def load_policy_def or_empty_def dict_get_def dict_get_default_def
  tenant_states_def

definition sample_file :: json where
  "sample_file = JObj [(''tenants'', JObj
     [(''finance'', JObj [(''state'', JStr ''THROTTLED''), (''rpm_limit'', JInt 300)]), (''sandbox'', JNull)])]"

theorem load_policies_spec_witness:
  "\<exists>policies. load_policies sample_file = Inr policies \<and>
     policies ''finance'' = Some
       \<lparr>tenant_id = ''finance'', state = THROTTLED, models = [], rpm_limit = 300,
        guardrail_policy = ''standard-v1'', route_set = None, slo_p95_latency_ms = None, policy_epoch = 1,
        allow_guardrail_bypass_on_error = False, debug_capture_enabled = False\<rparr> \<and>
     policies ''nobody'' = None"
proof -
  define entries where "entries = [(''finance'', JObj [(''state'', JStr ''THROTTLED''), (''rpm_limit'', JInt 300)]), (''sandbox'', JNull)]"
  have ok: "is_ok (load_policies (JObj [(''tenants'', JObj entries)]))"
    by (simp add: entries_def load_defs)
  then obtain policies where p: "load_policies (JObj [(''tenants'', JObj entries)]) = Inr policies"
    by (cases "load_policies (JObj [(''tenants'', JObj entries)])") auto
  have e: "dict_get [(''tenants'', JObj entries)] ''tenants'' = JObj entries" by (simp add: dict_get_def)
  have d: "distinct (map fst entries)" by (simp add: entries_def)
  note spec = load_policies_spec [OF p e d]
  have "load_policy (''finance'', JObj [(''state'', JStr ''THROTTLED''), (''rpm_limit'', JInt 300)]) = Inr
       \<lparr>tenant_id = ''finance'', state = THROTTLED, models = [], rpm_limit = 300,
        guardrail_policy = ''standard-v1'', route_set = None, slo_p95_latency_ms = None, policy_epoch = 1,
        allow_guardrail_bypass_on_error = False, debug_capture_enabled = False\<rparr>"
    by (simp add: load_defs)
  moreover have "policies ''nobody'' = None"
    using spec [of "''nobody''"] by (cases "policies ''nobody''") (auto simp: entries_def)
  ultimately show ?thesis
    using p spec [of "''finance''"] by (auto simp: sample_file_def entries_def)
qed

end
