(* ===== verification/Policy_Cache.thy ===== *)
theory Policy_Cache
  imports Policy_Store
begin

text \<open>
  \<open>policy/cache.py\<close>: the snapshot cache in front of the policy store. \<open>get\<close> is split where the
  code releases its lock: the lookup (with the clock reading of the freshness test), the refetch,
  and the store of the new snapshot (with the clock reading of its stamp). The policy store is
  whatever answers the refetch, so it is an argument.
\<close>

record snapshot =
  snap_policy :: tenant_policy
  cached_at :: py_float

type_synonym snapshots = "string \<rightharpoonup> snapshot"

definition pc_lookup :: "py_float \<Rightarrow> snapshots \<Rightarrow> string \<Rightarrow> py_float \<Rightarrow> tenant_policy option" where
  "pc_lookup ttl_s snapshots tid now =
     (case snapshots tid of
        None \<Rightarrow> None
      | Some snapshot \<Rightarrow> if now - cached_at snapshot < ttl_s then Some (snap_policy snapshot) else None)"

definition pc_store :: "snapshots \<Rightarrow> string \<Rightarrow> tenant_policy \<Rightarrow> py_float \<Rightarrow> snapshots" where
  "pc_store snapshots tid policy now = snapshots(tid \<mapsto> \<lparr>snap_policy = policy, cached_at = now\<rparr>)"

text \<open>
  \<open>get\<close>: \<open>fetch\<close> is \<open>store.get\<close>, \<open>t_check\<close> the clock at the freshness test, \<open>t_stamp\<close> the clock at the
  stamp. An \<open>UnknownTenantError\<close> of the store passes through and nothing is cached.
\<close>

definition pc_get ::
  "py_float \<Rightarrow> (string \<Rightarrow> string + tenant_policy) \<Rightarrow> snapshots \<Rightarrow> string \<Rightarrow> py_float \<Rightarrow> py_float \<Rightarrow>
   (string + tenant_policy) \<times> snapshots" where
  "pc_get ttl_s fetch snapshots tid t_check t_stamp =
     (case pc_lookup ttl_s snapshots tid t_check of
        Some policy \<Rightarrow> (Inr policy, snapshots)
      | None \<Rightarrow>
          (case fetch tid of
             Inl e \<Rightarrow> (Inl e, snapshots)
           | Inr policy \<Rightarrow> (Inr policy, pc_store snapshots tid policy t_stamp)))"

definition pc_invalidate :: "snapshots \<Rightarrow> string \<Rightarrow> snapshots" where
  "pc_invalidate snapshots tid = snapshots(tid := None)"

lemmas pc_defs = pc_lookup_def pc_store_def pc_get_def pc_invalidate_def

lemma pc_get_other [frame]: "t \<noteq> tid \<Longrightarrow> snd (pc_get ttl fetch snaps tid tc ts) t = snaps t"
  by (simp add: pc_defs split: option.split sum.split)

lemma pc_invalidate_other [frame]: "t \<noteq> tid \<Longrightarrow> pc_invalidate snaps tid t = snaps t"
  by (simp add: pc_defs)

section \<open>Snapshots as a store with a time to live\<close>

definition pc_read :: "py_float \<Rightarrow> snapshots \<Rightarrow> string \<Rightarrow> py_float \<Rightarrow> tenant_policy option \<times> snapshots" where
  "pc_read ttl_s snapshots tid now = (pc_lookup ttl_s snapshots tid now, snapshots)"

interpretation snaps: ttl_store_exact pc_store "pc_read ttl_s" id ttl_s Map.empty "\<lambda>_. True" for ttl_s
  by unfold_locales (auto simp: pc_defs pc_read_def split: option.splits if_splits)

section \<open>Bounded staleness\<close>

text \<open>
  A history of the cache against a store whose contents may change at any time (\<open>cfg t\<close> is what
  the store answers at time \<open>t\<close>), so a change need not be pushed: reads, each with the times of its
  freshness test, of its refetch and of its stamp, and invalidations.
\<close>

datatype cache_op =
    CacheGet string py_float py_float py_float
  | CacheInvalidate string

fun cache_step ::
  "py_float \<Rightarrow> (py_float \<Rightarrow> string \<Rightarrow> string + tenant_policy) \<Rightarrow> cache_op \<Rightarrow> snapshots \<Rightarrow>
   (string + tenant_policy) option \<times> snapshots" where
  "cache_step ttl_s cfg (CacheGet tid t_check t_fetch t_stamp) snapshots =
     (let (r, s) = pc_get ttl_s (cfg t_fetch) snapshots tid t_check t_stamp in (Some r, s))"
| "cache_step ttl_s cfg (CacheInvalidate tid) snapshots = (None, pc_invalidate snapshots tid)"

primrec cache_run ::
  "py_float \<Rightarrow> (py_float \<Rightarrow> string \<Rightarrow> string + tenant_policy) \<Rightarrow> cache_op list \<Rightarrow> snapshots \<Rightarrow> snapshots" where
  "cache_run ttl_s cfg [] snapshots = snapshots"
| "cache_run ttl_s cfg (op # ops) snapshots = cache_run ttl_s cfg ops (snd (cache_step ttl_s cfg op snapshots))"

text \<open>The steps of one read are in order and a refetch takes at most \<open>lag\<close>.\<close>

fun timely :: "py_float \<Rightarrow> cache_op \<Rightarrow> bool" where
  "timely lag (CacheGet tid t_check t_fetch t_stamp) \<longleftrightarrow>
     t_check \<le> t_fetch \<and> t_fetch \<le> t_stamp \<and> t_stamp \<le> t_fetch + lag"
| "timely lag (CacheInvalidate tid) \<longleftrightarrow> True"

text \<open>Every snapshot was the store's answer at most \<open>lag\<close> before its stamp.\<close>

definition snaps_inv :: "py_float \<Rightarrow> (py_float \<Rightarrow> string \<Rightarrow> string + tenant_policy) \<Rightarrow> snapshots \<Rightarrow> bool" where
  "snaps_inv lag cfg snapshots \<longleftrightarrow>
     (\<forall>tid s. snapshots tid = Some s \<longrightarrow>
        (\<exists>t. cfg t tid = Inr (snap_policy s) \<and> t \<le> cached_at s \<and> cached_at s \<le> t + lag))"

lemma snaps_inv_empty [inv_intros]: "snaps_inv lag cfg Map.empty"
  by (simp add: snaps_inv_def)

lemma cache_step_inv [inv_intros]:
  "snaps_inv lag cfg snapshots \<Longrightarrow> timely lag op \<Longrightarrow> snaps_inv lag cfg (snd (cache_step ttl_s cfg op snapshots))"
  by (cases op) (auto simp: snaps_inv_def pc_defs split: option.splits sum.splits)

lemma cache_run_inv [inv_intros]:
  "snaps_inv lag cfg snapshots \<Longrightarrow> list_all (timely lag) ops \<Longrightarrow> snaps_inv lag cfg (cache_run ttl_s cfg ops snapshots)"
  by (induction ops arbitrary: snapshots) (auto intro: cache_step_inv)

lemma pc_get_fresh:
  assumes "snaps_inv lag cfg snapshots" "fst (pc_get ttl_s (cfg t_fetch) snapshots tid t_check t_stamp) = Inr p"
    "t_check \<le> t_fetch" "0 \<le> lag" "0 \<le> ttl_s"
  shows "\<exists>t. cfg t tid = Inr p \<and> (t = t_fetch \<or> t_check - t < ttl_s + lag)"
proof (cases "pc_lookup ttl_s snapshots tid t_check")
  case None
  with assms(2) have "cfg t_fetch tid = Inr p" by (auto simp: pc_get_def split: sum.splits)
  then show ?thesis by blast
next
  case (Some q)
  then obtain s where s: "snapshots tid = Some s" "t_check - cached_at s < ttl_s" "q = snap_policy s"
    by (auto simp: pc_lookup_def split: option.splits if_splits)
  with assms(1) obtain t where t: "cfg t tid = Inr q" "cached_at s \<le> t + lag"
    unfolding snaps_inv_def by blast
  from Some assms(2) have "q = p" by (simp add: pc_get_def)
  moreover from t(2) s(2) have "t_check - t < ttl_s + lag" by linarith
  ultimately show ?thesis using t(1) by blast
qed

text \<open>
  C26: bounded staleness, with every push lost if need be. After any history of reads and
  invalidations, a policy that \<open>get\<close> returns was the store's answer at some moment less than
  \<open>ttl_s\<close> plus the longest refetch before the read, or is the store's answer now.
\<close>

theorem bounded_staleness:
  assumes "list_all (timely lag) ops" and "0 \<le> lag" and "0 \<le> ttl_s" and "t_check \<le> t_fetch"
    and "fst (pc_get ttl_s (cfg t_fetch) (cache_run ttl_s cfg ops Map.empty) tid t_check t_stamp) = Inr p"
  shows "\<exists>t. cfg t tid = Inr p \<and> (t = t_fetch \<or> t_check - t < ttl_s + lag)"
proof -
  have "snaps_inv lag cfg (cache_run ttl_s cfg ops Map.empty)"
    using assms(1) by (intro cache_run_inv snaps_inv_empty)
  from pc_get_fresh [OF this assms(5,4,2,3)] show ?thesis .
qed

theorem bounded_staleness_witness:
  "\<exists>t. (if t < 20 then Inr sample_policy else Inr (sample_policy\<lparr>state := SUSPENDED\<rparr>)) =
       (Inr sample_policy :: string + tenant_policy) \<and> (t = (25 :: rat) \<or> 25 - t < 30 + 1)"
proof -
  define cfg :: "py_float \<Rightarrow> string \<Rightarrow> string + tenant_policy"
    where "cfg = (\<lambda>t tid. if t < 20 then Inr sample_policy else Inr (sample_policy\<lparr>state := SUSPENDED\<rparr>))"
  have "\<exists>t. cfg t ''acme'' = Inr sample_policy \<and> (t = 25 \<or> 25 - t < 30 + 1)"
    by (rule bounded_staleness [where ops = "[CacheGet ''acme'' 10 10 11]" and t_stamp = 25])
      (simp_all add: pc_defs cfg_def)
  then show ?thesis by (simp add: cfg_def)
qed

text \<open>
  push invalidation. The first read of a tenant after its invalidation answers from the
  store, whatever was cached and however young it was; other tenants keep their snapshots.
\<close>

theorem invalidate_forces_refetch:
  "fst (pc_get ttl_s fetch (pc_invalidate snapshots tid) tid t_check t_stamp) = fetch tid \<and>
   pc_lookup ttl_s (pc_invalidate snapshots tid) tid t_check = None \<and>
   (t \<noteq> tid \<longrightarrow> pc_lookup ttl_s (pc_invalidate snapshots tid) t t_check = pc_lookup ttl_s snapshots t t_check)"
  by (simp add: pc_defs split: sum.split)

theorem invalidate_forces_refetch_witness:
  "pc_lookup 30 (pc_invalidate [''a'' \<mapsto> \<lparr>snap_policy = sample_policy, cached_at = 5\<rparr>] ''b'') ''a'' 6 =
     Some sample_policy"
  using invalidate_forces_refetch [of 30 "\<lambda>_. Inl []" "[''a'' \<mapsto> \<lparr>snap_policy = sample_policy, cached_at = 5\<rparr>]"
      "''b''" 6 6 "''a''"]
  by (simp add: pc_lookup_def)

end
