(* ===== verification/Rate_Limiter.thy ===== *)
theory Rate_Limiter
  imports Interfaces
begin

text \<open>
  \<open>policy/rate_limiter.py\<close>: one token bucket per tenant. The dict of buckets is a map; \<open>allow\<close>
  takes the clock reading it makes as an argument and returns its answer with the new buckets.
\<close>

record bucket =
  tokens :: py_float
  last_refill :: py_float

type_synonym limiter = "string \<rightharpoonup> bucket"

definition capacity :: "int \<Rightarrow> py_float" where
  "capacity rpm_limit = of_int (max rpm_limit 0)"

definition refill :: "py_float \<Rightarrow> py_float \<Rightarrow> bucket \<Rightarrow> bucket" where
  "refill cap now b =
     (let refill_rate_per_s = cap / 60; elapsed = max 0 (now - last_refill b)
      in b\<lparr>tokens := min cap (tokens b + elapsed * refill_rate_per_s), last_refill := now\<rparr>)"

definition rl_allow :: "limiter \<Rightarrow> string \<Rightarrow> int \<Rightarrow> py_float \<Rightarrow> bool \<times> limiter" where
  "rl_allow buckets tid rpm_limit now =
     (let cap = capacity rpm_limit;
          b = (case buckets tid of None \<Rightarrow> \<lparr>tokens = cap, last_refill = now\<rparr> | Some b \<Rightarrow> b);
          b' = refill cap now b
      in if 1 \<le> tokens b' then (True, buckets(tid \<mapsto> b'\<lparr>tokens := tokens b' - 1\<rparr>))
         else (False, buckets(tid \<mapsto> b')))"

text \<open>The same call with the tenant first, as an operation on the tenant's slot.\<close>

definition rl_step :: "string \<Rightarrow> int \<times> py_float \<Rightarrow> limiter \<Rightarrow> bool \<times> limiter" where
  "rl_step tid op buckets = rl_allow buckets tid (fst op) (snd op)"

lemmas rl_defs = rl_step_def rl_allow_def refill_def capacity_def Let_def

section \<open>Isolation\<close>

interpretation rl: keyed_state rl_step "\<lambda>s k. s k"
  by unfold_locales (auto simp: rl_defs split: option.splits)

lemma rl_allow_other [frame]: "t \<noteq> tid \<Longrightarrow> snd (rl_allow buckets tid rpm now) t = buckets t"
  by (simp add: rl_defs)

text \<open>
  over any interleaving of calls by any tenants with any limits, the answers one tenant gets
  are the answers it would get if it were the only tenant.
\<close>

theorem rate_limit_isolation:
  "only tid (fst (run_keyed rl_step ops buckets)) = fst (run_keyed rl_step (only tid ops) buckets)"
  by (rule rl.noninterference)

section \<open>The bucket invariant\<close>

definition limiter_inv :: "limiter \<Rightarrow> bool" where
  "limiter_inv buckets \<longleftrightarrow> (\<forall>tid b. buckets tid = Some b \<longrightarrow> 0 \<le> tokens b)"

lemma capacity_nonneg [simp]: "0 \<le> capacity rpm"
  by (simp add: capacity_def)

lemma refill_bounds:
  assumes "0 \<le> tokens b" "0 \<le> cap"
  shows "0 \<le> tokens (refill cap now b)" "tokens (refill cap now b) \<le> cap"
  using assms by (auto simp: refill_def Let_def)

lemma limiter_inv_empty [inv_intros]: "limiter_inv Map.empty"
  by (simp add: limiter_inv_def)

lemma rl_allow_inv [inv_intros]:
  assumes "limiter_inv buckets" shows "limiter_inv (snd (rl_allow buckets tid rpm now))"
proof -
  define b where "b = (case buckets tid of None \<Rightarrow> \<lparr>tokens = capacity rpm, last_refill = now\<rparr> | Some b \<Rightarrow> b)"
  have "0 \<le> tokens b" using assms by (auto simp: b_def limiter_inv_def split: option.split)
  then have "0 \<le> tokens (refill (capacity rpm) now b)" by (simp add: refill_bounds)
  with assms show ?thesis
    by (auto simp: rl_allow_def Let_def limiter_inv_def b_def [symmetric])
qed

text \<open>
  a call leaves the tenant's bucket between empty and the capacity of its limit, stamped with
  the time of the call, and one token poorer exactly when it was allowed.
\<close>

theorem rl_allow_bucket_bounds:
  "limiter_inv buckets \<Longrightarrow>
     \<exists>b. snd (rl_allow buckets tid rpm now) tid = Some b \<and> 0 \<le> tokens b \<and>
       tokens b + (if fst (rl_allow buckets tid rpm now) then 1 else 0) \<le> capacity rpm \<and>
       last_refill b = now"
proof -
  assume inv: "limiter_inv buckets"
  define b where "b = (case buckets tid of None \<Rightarrow> \<lparr>tokens = capacity rpm, last_refill = now\<rparr> | Some b \<Rightarrow> b)"
  have "0 \<le> tokens b" using inv by (auto simp: b_def limiter_inv_def split: option.split)
  note bounds = refill_bounds [OF this capacity_nonneg, of rpm now]
  show ?thesis
    using bounds by (auto simp: rl_allow_def Let_def b_def [symmetric]) (simp_all add: refill_def Let_def)
qed

theorem rl_allow_bucket_bounds_witness:
  "\<exists>b. snd (rl_allow [''acme'' \<mapsto> \<lparr>tokens = 3, last_refill = 0\<rparr>] ''acme'' 5 12) ''acme'' = Some b \<and>
     0 \<le> tokens b \<and>
     tokens b + (if fst (rl_allow [''acme'' \<mapsto> \<lparr>tokens = 3, last_refill = 0\<rparr>] ''acme'' 5 12) then 1 else 0)
       \<le> capacity 5 \<and> last_refill b = 12"
  by (rule rl_allow_bucket_bounds) (simp add: limiter_inv_def)

section \<open>The admission bound\<close>

text \<open>The number of calls of a run that were allowed.\<close>

definition allowed :: "(string \<times> bool) list \<Rightarrow> nat" where
  "allowed outs = length (filter snd outs)"

lemma allowed_simps [simp]:
  "allowed [] = 0" "allowed ((k, b) # outs) = (if b then 1 else 0) + allowed outs"
  by (simp_all add: allowed_def)

text \<open>The calls come with one limit and a clock that does not run backwards.\<close>

fun paced :: "int \<Rightarrow> py_float \<Rightarrow> py_float \<Rightarrow> (string \<times> int \<times> py_float) list \<Rightarrow> bool" where
  "paced rpm t t1 [] \<longleftrightarrow> t \<le> t1"
| "paced rpm t t1 ((k, l, now) # ops) \<longleftrightarrow> l = rpm \<and> t \<le> now \<and> paced rpm now t1 ops"

lemma paced_le: "paced rpm t t1 ops \<Longrightarrow> t \<le> t1"
  by (induction ops arbitrary: t) (auto intro: order_trans)

text \<open>
  The potential argument: allowed calls plus the tokens left never exceed the tokens at the start
  plus what the elapsed time refills.
\<close>

lemma rl_step_spends:
  assumes "s tid = Some b" "0 \<le> tokens b" "last_refill b = t" "t \<le> now"
  shows "\<exists>b'. snd (rl_step tid (rpm, now) s) tid = Some b' \<and> 0 \<le> tokens b' \<and> last_refill b' = now \<and>
    tokens b' + (if fst (rl_step tid (rpm, now) s) then 1 else 0) \<le> tokens b + (now - t) * (capacity rpm / 60)"
  using assms by (auto simp: rl_defs max_def)

lemma allowed_spent:
  assumes "s tid = Some b" "0 \<le> tokens b" "last_refill b = t" "paced rpm t t1 ops" "list_all (\<lambda>op. fst op = tid) ops"
  shows "of_nat (allowed (fst (run_keyed rl_step ops s))) \<le> tokens b + (t1 - t) * (capacity rpm / 60)"
  using assms
proof (induction ops arbitrary: s b t)
  case Nil
  then show ?case by simp
next
  case (Cons op ops)
  obtain now where op: "op = (tid, rpm, now)" and t: "t \<le> now" and p: "paced rpm now t1 ops"
    using Cons.prems(4,5) by (cases op) auto
  obtain b' where b': "snd (rl_step tid (rpm, now) s) tid = Some b'" "0 \<le> tokens b'" "last_refill b' = now"
    and le: "tokens b' + (if fst (rl_step tid (rpm, now) s) then 1 else 0) \<le> tokens b + (now - t) * (capacity rpm / 60)"
    using rl_step_spends [where s = s and tid = tid and rpm = rpm, OF Cons.prems(1-3) t] by blast
  have "of_nat (allowed (fst (run_keyed rl_step ops (snd (rl_step tid (rpm, now) s)))))
      \<le> tokens b' + (t1 - now) * (capacity rpm / 60)"
    using Cons.IH [where s = "snd (rl_step tid (rpm, now) s)", OF b' p] Cons.prems(5) by simp
  moreover have "(now - t) * (capacity rpm / 60) + (t1 - now) * (capacity rpm / 60) = (t1 - t) * (capacity rpm / 60)"
    by (simp only: distrib_right [symmetric]) simp
  ultimately show ?case using le
    by (auto simp: op split_beta Let_def split: if_splits)
qed

lemma first_call_as_if_full:
  assumes "s tid = None"
  shows "rl_step tid (rpm, now) s = rl_step tid (rpm, now) (s(tid \<mapsto> \<lparr>tokens = capacity rpm, last_refill = now\<rparr>))"
  using assms by (simp add: rl_defs)

text \<open>
  a tenant that calls with a constant limit is admitted at most its limit plus the refill of
  the elapsed time, however the other tenants' calls are interleaved with its own.
\<close>

theorem admission_bound:
  assumes "buckets tid = None" and "paced rpm t0 t1 (only tid ops)"
  shows "of_nat (allowed (only tid (fst (run_keyed rl_step ops buckets))))
           \<le> capacity rpm + (t1 - t0) * capacity rpm / 60"
proof -
  define mine where "mine = only tid ops"
  have mine: "list_all (\<lambda>op. fst op = tid) mine" by (simp add: mine_def only_def list_all_iff)
  have nn: "0 \<le> (t1 - t0) * capacity rpm" using assms(2) by (simp add: paced_le)
  show ?thesis
  proof (cases mine)
    case Nil
    with nn show ?thesis by (simp add: rl.noninterference mine_def [symmetric])
  next
    case (Cons op ops')
    then obtain now where op: "op = (tid, rpm, now)" "t0 \<le> now" "paced rpm now t1 mine"
      using assms(2) mine by (cases op) (auto simp: mine_def [symmetric])
    define s where "s = buckets(tid \<mapsto> \<lparr>tokens = capacity rpm, last_refill = now\<rparr>)"
    have "run_keyed rl_step mine buckets = run_keyed rl_step mine s"
      unfolding Cons op(1) s_def by (simp only: run_keyed.simps first_call_as_if_full [of buckets tid rpm now, OF assms(1)])
    moreover have "of_nat (allowed (fst (run_keyed rl_step mine s))) \<le> capacity rpm + (t1 - now) * (capacity rpm / 60)"
      using allowed_spent [of s tid "\<lparr>tokens = capacity rpm, last_refill = now\<rparr>" now rpm t1 mine] op mine
      by (simp add: s_def)
    moreover have "(t1 - now) * (capacity rpm / 60) \<le> (t1 - t0) * (capacity rpm / 60)"
      using op(2) by (intro mult_right_mono) auto
    ultimately show ?thesis by (simp add: rl.noninterference mine_def)
  qed
qed

theorem admission_bound_witness:
  "of_nat (allowed (only ''a'' (fst (run_keyed rl_step
      [(''a'', (2, 0)), (''b'', (9, 0)), (''a'', (2, 1)), (''a'', (2, 2))] Map.empty))))
     \<le> capacity 2 + (30 - 0) * capacity 2 / 60"
  by (rule admission_bound) simp_all

text \<open>
  the limiter does not starve: a tenant with a positive limit that waited long enough for one
  token is allowed, whatever its bucket held.
\<close>

theorem allowed_after_waiting:
  "limiter_inv buckets \<Longrightarrow> 1 \<le> rpm \<Longrightarrow> buckets tid = Some b \<Longrightarrow> last_refill b + 60 / of_int rpm \<le> now \<Longrightarrow>
     fst (rl_allow buckets tid rpm now)"
proof -
  assume inv: "limiter_inv buckets" and rpm: "1 \<le> rpm" and b: "buckets tid = Some b"
    and wait: "last_refill b + 60 / of_int rpm \<le> now"
  have cap: "capacity rpm = of_int rpm" "(1 :: rat) \<le> of_int rpm" using rpm by (simp_all add: capacity_def)
  have "60 / of_int rpm \<le> now - last_refill b" using wait by linarith
  moreover have "0 < 60 / (of_int rpm :: rat)" using cap(2) by simp
  ultimately have pos: "0 < now - last_refill b" by linarith
  have "60 / of_int rpm * (of_int rpm / 60) \<le> (now - last_refill b) * (of_int rpm / 60 :: rat)"
    using \<open>60 / of_int rpm \<le> now - last_refill b\<close> cap(2) by (intro mult_right_mono) auto
  then have "1 \<le> (now - last_refill b) * (of_int rpm / 60 :: rat)" using cap(2) by simp
  moreover have "0 \<le> tokens b" using inv b by (simp add: limiter_inv_def)
  ultimately show ?thesis
    using b cap pos by (auto simp: rl_allow_def refill_def Let_def max_def)
qed

theorem allowed_after_waiting_witness:
  "fst (rl_allow [''a'' \<mapsto> \<lparr>tokens = 0, last_refill = 10\<rparr>] ''a'' 60 11)"
  by (rule allowed_after_waiting [where b = "\<lparr>tokens = 0, last_refill = 10\<rparr>"]) (simp_all add: limiter_inv_def)

section \<open>The noisy neighbour\<close>

lemma within_limit_allowed:
  assumes "s tid = Some b" "of_nat (length ops) \<le> tokens b" "tokens b \<le> capacity rpm"
    and "list_all (\<lambda>op. fst op = tid \<and> fst (snd op) = rpm) ops"
  shows "list_all snd (fst (run_keyed rl_step ops s))"
  using assms
proof (induction ops arbitrary: s b)
  case (Cons op ops)
  obtain now where op: "op = (tid, rpm, now)" using Cons.prems(4) by (cases op) auto
  define b' where "b' = refill (capacity rpm) now b"
  have grown: "tokens b \<le> tokens b'" "tokens b' \<le> capacity rpm"
    using Cons.prems(3) by (auto simp: b'_def refill_def Let_def)
  then have one: "1 \<le> tokens b'" using Cons.prems(2) by simp
  then have step: "rl_step tid (rpm, now) s = (True, s(tid \<mapsto> b'\<lparr>tokens := tokens b' - 1\<rparr>))"
    using Cons.prems(1) by (simp add: rl_step_def rl_allow_def Let_def b'_def)
  have "list_all snd (fst (run_keyed rl_step ops (s(tid \<mapsto> b'\<lparr>tokens := tokens b' - 1\<rparr>))))"
    by (rule Cons.IH [of _ "b'\<lparr>tokens := tokens b' - 1\<rparr>"]) (use Cons.prems(2, 4) grown in auto)
  with step show ?case by (simp add: op split_beta Let_def)
qed simp

text \<open>
  C30: the noisy neighbour. A tenant that makes at most as many calls as its limit, from a first one on, has
  all of them allowed, whatever the clock shows and however many calls of other tenants are interleaved:
  another tenant's burst never costs it a request.
\<close>

theorem quiet_tenant_unaffected:
  assumes "buckets tid = None" and "list_all (\<lambda>op. fst (snd op) = rpm) (only tid ops)"
    and "int (length (only tid ops)) \<le> rpm"
  shows "list_all snd (only tid (fst (run_keyed rl_step ops buckets)))"
proof (cases "only tid ops")
  case Nil
  then show ?thesis by (simp add: rl.noninterference)
next
  case (Cons op ops')
  define mine where "mine = only tid ops"
  have tid: "list_all (\<lambda>op. fst op = tid) mine" by (simp add: mine_def only_def list_all_iff)
  with assms(2) have all: "list_all (\<lambda>op. fst op = tid \<and> fst (snd op) = rpm) mine"
    unfolding mine_def list_all_iff by blast
  with Cons obtain now where op: "op = (tid, rpm, now)" by (cases op) (auto simp: mine_def)
  define s where "s = buckets(tid \<mapsto> \<lparr>tokens = capacity rpm, last_refill = now\<rparr>)"
  have "run_keyed rl_step mine buckets = run_keyed rl_step mine s"
    unfolding mine_def Cons op s_def
    by (simp only: run_keyed.simps first_call_as_if_full [of buckets tid rpm now, OF assms(1)])
  moreover have "list_all snd (fst (run_keyed rl_step mine s))"
  proof (rule within_limit_allowed [OF _ _ _ all])
    show "s tid = Some \<lparr>tokens = capacity rpm, last_refill = now\<rparr>" by (simp add: s_def)
    have "of_nat (length mine) = (of_int (int (length mine)) :: py_float)" by simp
    also have "\<dots> \<le> of_int rpm" using assms(3) by (simp only: mine_def of_int_le_iff)
    finally show "of_nat (length mine) \<le> tokens \<lparr>tokens = capacity rpm, last_refill = now\<rparr>" by (simp add: capacity_def)
  qed simp
  ultimately show ?thesis by (simp add: rl.noninterference mine_def)
qed

theorem quiet_tenant_unaffected_witness:
  "list_all snd (only ''b'' (fst (run_keyed rl_step
     [(''a'', (1, 0)), (''b'', (2, 5)), (''a'', (1, 0)), (''a'', (1, 1)), (''b'', (2, 3))] Map.empty)))"
  by (rule quiet_tenant_unaffected [where rpm = 2]) simp_all

end
