(* ===== verification/Pipeline.thy ===== *)
theory Pipeline
  imports Jwt_Verifier Guardrails Policy_Cache Rate_Limiter
begin

text \<open>
  \<open>pipeline.py\<close>: the stages of a chat request before the model. \<open>PipelineError\<close> is the exception the
  handlers turn into an error response; any other exception a stage lets through is \<open>Crash\<close>, named by
  its class (the interpreter's text for it is not modelled). The
  token verifier, the policy store and the guardrail client are what the stages rely on: the verifier
  is a function of its own state, the others are arguments.
\<close>

datatype stage_error =
    PipelineError (pe_status: int) (pe_code: string) (pe_message: string)
  | Crash string

fun exn_name :: "py_exn \<Rightarrow> string" where
  "exn_name AttributeError = ''AttributeError''"
| "exn_name KeyError = ''KeyError''"
| "exn_name TypeError = ''TypeError''"
| "exn_name ValueError = ''ValueError''"
| "exn_name IllTyped = ''IllTyped''"

section \<open>Authentication and authorization\<close>

definition authenticate_iam :: "iam_resolver \<Rightarrow> string \<Rightarrow> string option \<Rightarrow> stage_error + identity" where
  "authenticate_iam resolver principal_arn account_id =
     (case iam_resolve resolver principal_arn of
        Inl e \<Rightarrow> Inl (PipelineError 403 (ae_code e) (ae_message e))
      | Inr grant \<Rightarrow>
          Inr \<lparr>id_sub = JStr principal_arn, id_tenant_id = JStr (grant_tenant_id grant),
               id_application_id = JStr (grant_application_id grant), id_roles = grant_roles grant,
               id_auth_type = ''aws_iam'', id_account_id = account_id\<rparr>)"

definition BEARER :: string where "BEARER = ''Bearer ''"

definition missing_bearer :: stage_error where
  "missing_bearer = PipelineError 401 ''UNAUTHENTICATED'' ''missing bearer token''"

definition authenticate ::
  "('v \<Rightarrow> string \<Rightarrow> (verify_error + (string \<times> json) list) \<times> 'v) \<Rightarrow> 'v \<Rightarrow> iam_resolver option \<Rightarrow>
   string option \<Rightarrow> string option \<Rightarrow> string option \<Rightarrow> (stage_error + identity) \<times> 'v" where
  "authenticate verify v iam_resolver authorization_header iam_principal_arn iam_account_id =
     (case iam_principal_arn of
        Some (c # arn) \<Rightarrow>
          (case iam_resolver of
             None \<Rightarrow> (Inl (PipelineError 500 ''IAM_AUTH_NOT_CONFIGURED'' ''aws_iam auth is not configured''), v)
           | Some r \<Rightarrow> (authenticate_iam r (c # arn) iam_account_id, v))
      | _ \<Rightarrow>
          (case authorization_header of
             None \<Rightarrow> (Inl missing_bearer, v)
           | Some h \<Rightarrow>
               if \<not> prefix BEARER h then (Inl missing_bearer, v)
               else
                 (let token = strip (drop (length BEARER) h) in
                  if token = [] then (Inl missing_bearer, v)
                  else
                    (case verify v token of
                       (Inl (Auth e), v) \<Rightarrow> (Inl (PipelineError 401 (ae_code e) (ae_message e)), v)
                     | (Inl (Escapes e), v) \<Rightarrow> (Inl (Crash (exn_name e)), v)
                     | (Inr claims, v) \<Rightarrow>
                         (case identity_from_claims claims of
                            Inl e \<Rightarrow> (Inl (PipelineError 401 (ae_code e) (ae_message e)), v)
                          | Inr i \<Rightarrow> (Inr i, v))))))"

lemma authenticate_state:
  "snd (authenticate verify v r h arn acc) = v \<or> (\<exists>t. snd (authenticate verify v r h arn acc) = snd (verify v t))"
proof (cases "\<exists>tok. h = Some tok")
  case True
  then obtain tok where h: "h = Some tok" by blast
  obtain res v' where v: "verify v (strip (drop (length BEARER) tok)) = (res, v')" by fastforce
  with h have "snd (authenticate verify v r h arn acc) = v \<or> snd (authenticate verify v r h arn acc) = v'"
    by (simp add: authenticate_def Let_def split: option.split list.split sum.split verify_error.split)
  moreover from v have "snd (verify v (strip (drop (length BEARER) tok))) = v'" by simp
  ultimately show ?thesis by metis
qed (auto simp: authenticate_def split: option.split list.split)

definition authorize :: "identity \<Rightarrow> string \<Rightarrow> stage_error + unit" where
  "authorize i role =
     (case require_role i role of
        Inl e \<Rightarrow> Inl (PipelineError 403 (az_code e) (az_message e))
      | Inr _ \<Rightarrow> Inr ())"

section \<open>Policy, kill switch and quota\<close>

text \<open>
  A tenant claim can be any JSON value. The snapshot cache looks it up in a dict, which hashes it before
  it compares it with any key; a value that is hashable and not a string equals no key of the cache nor
  of the store.
\<close>

fun claim_repr :: "(py_float \<Rightarrow> string) \<Rightarrow> json \<Rightarrow> string" where
  "claim_repr fr (JBool b) = (if b then ''True'' else ''False'')"
| "claim_repr fr (JInt i) = int_dec i"
| "claim_repr fr (JFloat x) = fr x"
| "claim_repr fr (JStr s) = repr_str s"
| "claim_repr fr _ = ''None''"

definition not_provisioned :: "string \<Rightarrow> stage_error" where
  "not_provisioned tid_repr =
     PipelineError 403 ''TENANT_NOT_PROVISIONED'' (''no policy configured for tenant_id='' @ tid_repr)"

definition resolve_policy ::
  "(py_float \<Rightarrow> string) \<Rightarrow> py_float \<Rightarrow> (string \<Rightarrow> string + tenant_policy) \<Rightarrow> snapshots \<Rightarrow> identity \<Rightarrow>
   py_float \<Rightarrow> py_float \<Rightarrow> (stage_error + tenant_policy) \<times> snapshots" where
  "resolve_policy fr ttl_s fetch snaps i t_check t_stamp =
     (case hash_key (id_tenant_id i) of
        Inl e \<Rightarrow> (Inl (Crash (exn_name e)), snaps)
      | Inr (JStr tid) \<Rightarrow>
          (case pc_get ttl_s fetch snaps tid t_check t_stamp of
             (Inl unknown, snaps) \<Rightarrow> (Inl (not_provisioned (repr_str unknown)), snaps)
           | (Inr policy, snaps) \<Rightarrow> (Inr policy, snaps))
      | Inr v \<Rightarrow> (Inl (not_provisioned (claim_repr fr v)), snaps))"

definition enforce_kill_switch :: "tenant_policy \<Rightarrow> stage_error + unit" where
  "enforce_kill_switch policy =
     (if state policy \<in> BLOCKING_STATES
      then Inl (PipelineError 403 ''TENANT_BLOCKED''
        (''tenant '' @ quoted (tenant_id policy) @ '' is '' @ state_value (state policy)))
      else Inr ())"

definition THROTTLE_FACTOR :: int where "THROTTLE_FACTOR = 5"

definition effective_limit :: "tenant_policy \<Rightarrow> int" where
  "effective_limit policy =
     (if state policy = THROTTLED then max 1 (rpm_limit policy div THROTTLE_FACTOR) else rpm_limit policy)"

definition enforce_rate_limit :: "tenant_policy \<Rightarrow> limiter \<Rightarrow> py_float \<Rightarrow> (stage_error + unit) \<times> limiter" where
  "enforce_rate_limit policy limiter now =
     (let (ok, limiter) = rl_allow limiter (tenant_id policy) (effective_limit policy) now in
      if \<not> ok
      then (Inl (PipelineError 429 ''QUOTA_EXCEEDED''
        (''tenant '' @ quoted (tenant_id policy) @ '' exceeded its rate limit'')), limiter)
      else (Inr (), limiter))"

section \<open>Model allowlist\<close>

definition enforce_model_allowlist :: "tenant_policy \<Rightarrow> string option \<Rightarrow> string \<Rightarrow> stage_error + string" where
  "enforce_model_allowlist policy requested_model default_model =
     (case requested_model of
        Some m \<Rightarrow>
          if models policy \<noteq> [] \<and> \<not> List.member (models policy) m
          then Inl (PipelineError 403 ''MODEL_NOT_ALLOWED''
            (''model '' @ quoted m @ '' is not in tenant '' @ quoted (tenant_id policy) @ '' allowlist''))
          else Inr m
      | None \<Rightarrow> if models policy \<noteq> [] then Inr (hd (models policy)) else Inr default_model)"

section \<open>Guardrails\<close>

definition guardrail_stage ::
  "tenant_policy \<Rightarrow> string + guardrail_decision \<Rightarrow> stage_error + guardrail_decision" where
  "guardrail_stage policy check =
     (case run_guardrail_check check (guardrail_policy policy) (allow_guardrail_bypass_on_error policy) of
        Inl e \<Rightarrow> Inl (PipelineError 503 ''AI_SAFETY_SERVICE_UNAVAILABLE'' e)
      | Inr d \<Rightarrow> Inr d)"

text \<open>\<open>decision.reason or "..."\<close>.\<close>

definition reason_or :: "string \<Rightarrow> guardrail_decision \<Rightarrow> string" where
  "reason_or dflt d = (case reason d of None \<Rightarrow> dflt | Some r \<Rightarrow> if r = [] then dflt else r)"

definition check_input_guardrail ::
  "(string \<Rightarrow> string \<Rightarrow> string + guardrail_decision) \<Rightarrow> string \<Rightarrow> tenant_policy \<Rightarrow> stage_error + guardrail_decision" where
  "check_input_guardrail check_input text policy =
     bind_r (guardrail_stage policy (check_input text (guardrail_policy policy))) (\<lambda>d.
     if action d = BLOCK
     then Inl (PipelineError 400 ''INPUT_BLOCKED'' (reason_or ''input blocked by guardrail'' d))
     else Inr d)"

definition check_output_guardrail ::
  "(string \<Rightarrow> string \<Rightarrow> string + guardrail_decision) \<Rightarrow> string \<Rightarrow> tenant_policy \<Rightarrow> stage_error + guardrail_decision" where
  "check_output_guardrail check_output text policy =
     bind_r (guardrail_stage policy (check_output text (guardrail_policy policy))) (\<lambda>d.
     if action d = BLOCK
     then Inl (PipelineError 502 ''OUTPUT_BLOCKED'' (reason_or ''output blocked by guardrail'' d))
     else Inr d)"

section \<open>Properties\<close>

text \<open>What lets a text through a guardrail stage.\<close>

definition text_passed :: "tenant_policy \<Rightarrow> string + guardrail_decision \<Rightarrow> bool" where
  "text_passed policy check \<longleftrightarrow>
     (case check of
        Inr d \<Rightarrow> action d = ALLOW
      | Inl _ \<Rightarrow> classify_safety (guardrail_policy policy) = LOW_RISK \<and> allow_guardrail_bypass_on_error policy)"

lemma guardrail_action_not_block: "a \<noteq> BLOCK \<longleftrightarrow> a = ALLOW"
  by (cases a) auto

lemma check_input_ok:
  "is_ok (check_input_guardrail check text policy) \<longleftrightarrow> text_passed policy (check text (guardrail_policy policy))"
  by (auto simp: check_input_guardrail_def guardrail_stage_def run_guardrail_check_def text_passed_def Let_def
      bind_r_def guardrail_action_not_block split: sum.split)

lemma check_output_ok:
  "is_ok (check_output_guardrail check text policy) \<longleftrightarrow> text_passed policy (check text (guardrail_policy policy))"
  by (auto simp: check_output_guardrail_def guardrail_stage_def run_guardrail_check_def text_passed_def Let_def
      bind_r_def guardrail_action_not_block split: sum.split)

text \<open>
  C36: where a tenant comes from. An authenticated caller acts for the tenant of its IAM grant when the
  platform sent a principal, and otherwise for the tenant claim of the verified bearer token; no header
  of the request is a source.
\<close>

theorem authenticate_tenant_source:
  assumes "fst (authenticate verify v resolver auth_header arn_header account) = Inr i"
  shows "(\<exists>arn r grant. arn_header = Some arn \<and> arn \<noteq> [] \<and> resolver = Some r \<and> iam_resolve r arn = Inr grant \<and>
            id_tenant_id i = JStr (grant_tenant_id grant) \<and> id_roles i = grant_roles grant) \<or>
         (\<exists>h claims. arn_header \<in> {None, Some []} \<and> auth_header = Some h \<and> prefix BEARER h \<and>
            fst (verify v (strip (drop (length BEARER) h))) = Inr claims \<and>
            identity_from_claims claims = Inr i \<and> id_tenant_id i = dict_get claims ''tenant_id'')"
proof (cases "\<exists>c arn. arn_header = Some (c # arn)")
  case True
  with assms show ?thesis
    by (auto simp: authenticate_def authenticate_iam_def split: option.splits sum.splits)
next
  case False
  then have p: "arn_header \<in> {None, Some []}" by (metis insert_iff list.exhaust option.exhaust)
  with assms obtain h claims where "auth_header = Some h" "prefix BEARER h"
    "fst (verify v (strip (drop (length BEARER) h))) = Inr claims" "identity_from_claims claims = Inr i"
    by (auto simp: authenticate_def Let_def split: option.splits if_splits sum.splits prod.splits verify_error.splits)
  moreover from this(4) have "id_tenant_id i = dict_get claims ''tenant_id''"
    by (auto simp: identity_from_claims_def Let_def split: if_splits option.splits)
  ultimately show ?thesis using p by blast
qed

definition sample_claims :: "(string \<times> json) list" where
  "sample_claims = [(''sub'', JStr ''alice''), (''tenant_id'', JStr ''acme''), (''application_id'', JStr ''app''),
     (''roles'', JArr [JStr ''developer''])]"

definition sample_identity :: identity where
  "sample_identity = \<lparr>id_sub = JStr ''alice'', id_tenant_id = JStr ''acme'', id_application_id = JStr ''app'',
     id_roles = [''developer''], id_auth_type = ''jwt'', id_account_id = None\<rparr>"

lemma sample_identity_claims: "identity_from_claims sample_claims = Inr sample_identity"
  by (simp add: identity_from_claims_def missing_claims_def sample_claims_def sample_identity_def roles_claim_def
      dict_get_def Let_def)

lemma authenticate_tenant_source_witness:
  "\<exists>h claims. Some ''Bearer t'' = Some h \<and> prefix BEARER h \<and>
     fst (Inr sample_claims :: verify_error + _, ()) = Inr claims \<and> identity_from_claims claims = Inr sample_identity"
  using authenticate_tenant_source [of "\<lambda>v t. (Inr sample_claims, v)" "()" None "Some ''Bearer t''" None None sample_identity]
  by (simp add: authenticate_def BEARER_def strip_def is_space_def sample_identity_claims)

text \<open>
  the kill switch. A policy passes the emergency gate exactly when its state is neither SUSPENDED
  nor EMERGENCY\_BLOCK; READ\_ONLY and THROTTLED tenants pass.
\<close>

theorem kill_switch_iff:
  "enforce_kill_switch policy = Inr () \<longleftrightarrow> state policy \<in> {ACTIVE, THROTTLED, READ_ONLY}"
  by (cases "state policy") (auto simp: enforce_kill_switch_def BLOCKING_STATES_def)

text \<open>
  throttling. A THROTTLED tenant's limit is a fifth of its own, rounded down, but never below one
  request per minute: a tenant whose configured limit is zero or negative, which admits nothing while
  ACTIVE, is admitted one request per minute once it is THROTTLED.
\<close>

theorem throttled_limit:
  "effective_limit policy =
     (if state policy \<noteq> THROTTLED then rpm_limit policy
      else if rpm_limit policy < 10 then 1 else rpm_limit policy div 5) \<and>
   fst (enforce_rate_limit (policy\<lparr>state := ACTIVE, rpm_limit := 0\<rparr>) Map.empty now) \<noteq> Inr () \<and>
   fst (enforce_rate_limit (policy\<lparr>state := THROTTLED, rpm_limit := 0\<rparr>) Map.empty now) = Inr ()"
proof (intro conjI)
  show "effective_limit policy = (if state policy \<noteq> THROTTLED then rpm_limit policy
      else if rpm_limit policy < 10 then 1 else rpm_limit policy div 5)"
    by (simp add: effective_limit_def THROTTLE_FACTOR_def max_def) linarith
qed (simp_all add: enforce_rate_limit_def effective_limit_def THROTTLE_FACTOR_def rl_allow_def capacity_def refill_def Let_def)

text \<open>
  the allowlist. The model of a request is the one it asked for, when the tenant's allowlist is empty
  or holds it; without a request it is the first of the allowlist, or the gateway's default.
\<close>

theorem model_allowlist_iff:
  "enforce_model_allowlist policy requested dflt = Inr m \<longleftrightarrow>
     (case requested of
        Some r \<Rightarrow> m = r \<and> (models policy = [] \<or> List.member (models policy) r)
      | None \<Rightarrow> m = (case models policy of [] \<Rightarrow> dflt | first # _ \<Rightarrow> first))"
  by (auto simp: enforce_model_allowlist_def split: option.split list.split)

end
