(* ===== verification/Bedrock_Client.thy ===== *)
theory Bedrock_Client
  imports Prelude
begin

text \<open>
  \<open>inference/bedrock_client.py\<close>: the wrapper around the Bedrock SDK. The SDK is a parameter: what its
  n-th \<open>converse\<close> call answers, and what the n-th \<open>converse_stream\<close> call answers, for a model,
  the messages and the inference configuration. Its answers have the documented shape; a member
  that may be absent is an option. An SDK exception carries its text and, when it has a
  \<open>response\<close> dict, that dict's error code.
\<close>

section \<open>Data\<close>

record bedrock_message =
  bm_role :: string
  bm_text :: string

record converse_result =
  res_text :: string
  res_input_tokens :: int
  res_output_tokens :: int
  res_stop_reason :: "string option"
  res_latency_ms :: py_float
  res_retry_count :: int

record stream_chunk =
  text_delta :: string
  is_final :: bool
  chunk_stop_reason :: "string option"
  chunk_input_tokens :: "int option"
  chunk_output_tokens :: "int option"

definition text_chunk :: "string \<Rightarrow> stream_chunk" where
  "text_chunk t = \<lparr>text_delta = t, is_final = False, chunk_stop_reason = None,
     chunk_input_tokens = None, chunk_output_tokens = None\<rparr>"

datatype invocation_error =
  BedrockInvocationError (inv_message: string) (inv_code: string) (inv_retryable: bool)

section \<open>The SDK\<close>

record sdk_error =
  se_text :: string
  se_response :: "string option option"

record sdk_usage =
  inputTokens :: "int option"
  outputTokens :: "int option"

text \<open>\<open>response["output"]\<close> and its \<open>["message"]\<close> may be missing; the content is a list of blocks.\<close>

record sdk_response =
  response_output :: "string option list option option"
  response_usage :: "sdk_usage option"
  stopReason :: "string option"

datatype sdk_event =
    ContentBlockDelta "string option option"
  | MessageStop "string option"
  | Metadata "sdk_usage option"
  | OtherEvent

record inference_config =
  maxTokens :: int
  temperature :: py_float

text \<open>A stream: its events, and the exception that ends it early, if any.\<close>

record sdk =
  sdk_converse :: "nat \<Rightarrow> string \<Rightarrow> bedrock_message list \<Rightarrow> inference_config \<Rightarrow> sdk_error + sdk_response"
  sdk_stream :: "nat \<Rightarrow> string \<Rightarrow> bedrock_message list \<Rightarrow> inference_config \<Rightarrow>
     sdk_error + sdk_event list \<times> sdk_error option"

record client_config =
  max_retries :: int
  base_backoff_s :: py_float

section \<open>Error codes\<close>

definition RETRYABLE_ERROR_CODES :: "string set" where
  "RETRYABLE_ERROR_CODES =
     {''ThrottlingException'', ''ServiceUnavailableException'', ''ModelTimeoutException'', ''InternalServerException''}"

definition extract_error_code :: "sdk_error \<Rightarrow> string option" where
  "extract_error_code exc = (case se_response exc of None \<Rightarrow> None | Some c \<Rightarrow> c)"

definition is_retryable :: "sdk_error \<Rightarrow> bool" where
  "is_retryable exc \<longleftrightarrow>
     (case extract_error_code exc of None \<Rightarrow> False | Some c \<Rightarrow> c \<in> RETRYABLE_ERROR_CODES)"

text \<open>\<open>error_code or "UPSTREAM_ERROR"\<close>.\<close>

definition public_code :: "sdk_error \<Rightarrow> string" where
  "public_code exc =
     (case extract_error_code exc of None \<Rightarrow> ''UPSTREAM_ERROR'' | Some c \<Rightarrow> if c = [] then ''UPSTREAM_ERROR'' else c)"

section \<open>converse\<close>

definition usage_count :: "(sdk_usage \<Rightarrow> int option) \<Rightarrow> sdk_usage option \<Rightarrow> int" where
  "usage_count field u =
     (case u of None \<Rightarrow> 0 | Some u \<Rightarrow> (case field u of None \<Rightarrow> 0 | Some n \<Rightarrow> n))"

text \<open>A missing member raises KeyError, which has no \<open>response\<close> attribute.\<close>

definition read_response :: "sdk_response \<Rightarrow> py_float \<Rightarrow> int \<Rightarrow> sdk_error + converse_result" where
  "read_response response latency attempt =
     (case response_output response of
        None \<Rightarrow> Inl \<lparr>se_text = quoted ''output'', se_response = None\<rparr>
      | Some None \<Rightarrow> Inl \<lparr>se_text = quoted ''message'', se_response = None\<rparr>
      | Some (Some blocks) \<Rightarrow>
          Inr \<lparr>res_text = concat (map (\<lambda>b. case b of None \<Rightarrow> [] | Some t \<Rightarrow> t) blocks),
               res_input_tokens = usage_count inputTokens (response_usage response),
               res_output_tokens = usage_count outputTokens (response_usage response),
               res_stop_reason = stopReason response,
               res_latency_ms = latency, res_retry_count = attempt\<rparr>)"

definition failure_message :: "int \<Rightarrow> sdk_error \<Rightarrow> string" where
  "failure_message attempt exc =
     ''Bedrock invocation failed after '' @ int_dec attempt @ '' attempt(s): '' @ se_text exc"

definition final_error :: "int \<Rightarrow> sdk_error \<Rightarrow> invocation_error" where
  "final_error attempt exc =
     BedrockInvocationError (failure_message attempt exc) (public_code exc) (is_retryable exc)"

text \<open>The body of the \<open>try\<close>: one SDK call and the reading of its answer.\<close>

definition attempt_result ::
  "(nat \<Rightarrow> sdk_error + sdk_response) \<Rightarrow> (nat \<Rightarrow> py_float) \<Rightarrow> py_float \<Rightarrow> int \<Rightarrow> nat \<Rightarrow> sdk_error + converse_result" where
  "attempt_result call clk start attempt n =
     (case call n of
        Inl exc \<Rightarrow> Inl exc
      | Inr response \<Rightarrow> read_response response (py_round ((clk n - start) * 1000) 2) attempt)"

text \<open>
  The loop: \<open>attempt\<close> counts the failures so far, \<open>n\<close> the SDK calls made before. \<open>clk\<close> is the clock
  after each call, \<open>start\<close> its reading before the loop, \<open>uniform\<close> the random factor of each
  sleep. The result: the outcome, the number of SDK calls made so far, and the sleeps in order.
\<close>

function converse_loop ::
  "client_config \<Rightarrow> (nat \<Rightarrow> sdk_error + sdk_response) \<Rightarrow> (nat \<Rightarrow> py_float) \<Rightarrow> (nat \<Rightarrow> py_float) \<Rightarrow> py_float \<Rightarrow>
   int \<Rightarrow> nat \<Rightarrow> (invocation_error + converse_result) \<times> nat \<times> py_float list" where
  "converse_loop cfg call clk uniform start attempt n =
     (case attempt_result call clk start attempt n of
        Inr result \<Rightarrow> (Inr result, n + 1, [])
      | Inl exc \<Rightarrow>
          (if \<not> is_retryable exc \<or> max_retries cfg < attempt + 1
           then (Inl (final_error (attempt + 1) exc), n + 1, [])
           else
             (let sleep_s = uniform n * (base_backoff_s cfg * 2 ^ nat attempt);
                  (out, n', sleeps) = converse_loop cfg call clk uniform start (attempt + 1) (n + 1)
              in (out, n', sleep_s # sleeps))))"
  by pat_completeness auto
termination
  by (relation "measure (\<lambda>(cfg, call, clk, uniform, start, attempt, n). nat (max_retries cfg - attempt))") auto

declare converse_loop.simps [simp del]

definition converse ::
  "client_config \<Rightarrow> sdk \<Rightarrow> (nat \<Rightarrow> py_float) \<Rightarrow> (nat \<Rightarrow> py_float) \<Rightarrow> py_float \<Rightarrow> nat \<Rightarrow>
   string \<Rightarrow> bedrock_message list \<Rightarrow> int \<Rightarrow> py_float \<Rightarrow> (invocation_error + converse_result) \<times> nat \<times> py_float list" where
  "converse cfg lib clk uniform start n model_id messages max_tokens temp =
     converse_loop cfg (\<lambda>n. sdk_converse lib n model_id messages \<lparr>maxTokens = max_tokens, temperature = temp\<rparr>)
       clk uniform start 0 n"

section \<open>converse\_stream\<close>

text \<open>
  The generator: the chunks it yields, and the error it raises after them, if any. The first failure
  mode is the call itself, the second an exception between two events.
\<close>

record stream_state =
  ss_stop_reason :: "string option"
  ss_input_tokens :: "int option"
  ss_output_tokens :: "int option"

fun stream_events :: "sdk_event list \<Rightarrow> stream_state \<Rightarrow> stream_chunk list \<times> stream_state" where
  "stream_events [] st = ([], st)"
| "stream_events (ContentBlockDelta delta # es) st =
     (let (chunks, st') = stream_events es st in
      case delta of
        Some (Some t) \<Rightarrow> (if t = [] then chunks else text_chunk t # chunks, st')
      | _ \<Rightarrow> (chunks, st'))"
| "stream_events (MessageStop r # es) st = stream_events es (st\<lparr>ss_stop_reason := r\<rparr>)"
| "stream_events (Metadata u # es) st =
     stream_events es
       (st\<lparr>ss_input_tokens := (case u of None \<Rightarrow> None | Some u \<Rightarrow> inputTokens u),
           ss_output_tokens := (case u of None \<Rightarrow> None | Some u \<Rightarrow> outputTokens u)\<rparr>)"
| "stream_events (OtherEvent # es) st = stream_events es st"

definition converse_stream ::
  "sdk \<Rightarrow> nat \<Rightarrow> string \<Rightarrow> bedrock_message list \<Rightarrow> int \<Rightarrow> py_float \<Rightarrow> stream_chunk list \<times> invocation_error option" where
  "converse_stream lib n model_id messages max_tokens temp =
     (case sdk_stream lib n model_id messages \<lparr>maxTokens = max_tokens, temperature = temp\<rparr> of
        Inl exc \<Rightarrow>
          ([], Some (BedrockInvocationError (''Bedrock stream invocation failed: '' @ se_text exc) (public_code exc) False))
      | Inr (events, ended) \<Rightarrow>
          (let (chunks, st) = stream_events events
                 \<lparr>ss_stop_reason = None, ss_input_tokens = None, ss_output_tokens = None\<rparr> in
           case ended of
             Some exc \<Rightarrow>
               (chunks, Some (BedrockInvocationError (''Bedrock stream failed mid-stream: '' @ se_text exc)
                                (public_code exc) False))
           | None \<Rightarrow>
               (chunks @ [\<lparr>text_delta = [], is_final = True, chunk_stop_reason = ss_stop_reason st,
                           chunk_input_tokens = ss_input_tokens st, chunk_output_tokens = ss_output_tokens st\<rparr>], None)))"

section \<open>Properties\<close>

lemma converse_loop_spec:
  assumes "0 \<le> a" and "converse_loop cfg call clk u start a n = (out, n', sleeps)"
  shows "n < n' \<and> n' \<le> n + 1 + nat (max_retries cfg - a) \<and> length sleeps = n' - n - 1 \<and>
     (\<forall>k. n \<le> k \<and> k + 1 < n' \<longrightarrow>
        (\<exists>exc. attempt_result call clk start (a + int (k - n)) k = Inl exc \<and> is_retryable exc)) \<and>
     (case out of
        Inr r \<Rightarrow> attempt_result call clk start (a + int (n' - n - 1)) (n' - 1) = Inr r
      | Inl e \<Rightarrow> \<exists>exc. attempt_result call clk start (a + int (n' - n - 1)) (n' - 1) = Inl exc \<and>
          e = final_error (a + int (n' - n)) exc \<and>
          (\<not> is_retryable exc \<or> n' = n + 1 + nat (max_retries cfg - a)))"
  using assms
proof (induction cfg call clk u start a n arbitrary: out n' sleeps rule: converse_loop.induct)
  case (1 cfg call clk u start a n)
  show ?case
  proof (cases "attempt_result call clk start a n")
    case (Inr r)
    with "1.prems" show ?thesis by (subst (asm) converse_loop.simps) auto
  next
    case (Inl exc)
    show ?thesis
    proof (cases "\<not> is_retryable exc \<or> max_retries cfg < a + 1")
      case True
      with "1.prems" Inl show ?thesis by (subst (asm) converse_loop.simps) auto
    next
      case False
      obtain out1 n1 sl1 where rec: "converse_loop cfg call clk u start (a + 1) (n + 1) = (out1, n1, sl1)"
        by (cases "converse_loop cfg call clk u start (a + 1) (n + 1)")
      with "1.prems" Inl False have eqs: "out = out1" "n' = n1" "sleeps = (u n * (base_backoff_s cfg * 2 ^ nat a)) # sl1"
        by (subst (asm) converse_loop.simps; simp)+
      from "1.IH" [OF Inl False refl, of out1 n1 sl1] rec "1.prems"(1)
      have len: "n + 1 < n1" "n1 \<le> n + 1 + 1 + nat (max_retries cfg - (a + 1))" "length sl1 = n1 - (n + 1) - 1"
        and fails: "\<And>k. n + 1 \<le> k \<Longrightarrow> k + 1 < n1 \<Longrightarrow>
          \<exists>exc. attempt_result call clk start (a + 1 + int (k - (n + 1))) k = Inl exc \<and> is_retryable exc"
        and last: "case out1 of
            Inr r \<Rightarrow> attempt_result call clk start (a + 1 + int (n1 - (n + 1) - 1)) (n1 - 1) = Inr r
          | Inl e \<Rightarrow> \<exists>exc. attempt_result call clk start (a + 1 + int (n1 - (n + 1) - 1)) (n1 - 1) = Inl exc \<and>
              e = final_error (a + 1 + int (n1 - (n + 1))) exc \<and>
              (\<not> is_retryable exc \<or> n1 = n + 1 + 1 + nat (max_retries cfg - (a + 1)))"
        by simp_all
      have "\<exists>exc. attempt_result call clk start (a + int (k - n)) k = Inl exc \<and> is_retryable exc"
        if "n \<le> k" "k + 1 < n1" for k
      proof (cases "k = n")
        case True
        with Inl False show ?thesis by simp
      next
        case neq: False
        with that have "a + 1 + int (k - (n + 1)) = a + int (k - n)" by simp
        with fails [of k] that neq show ?thesis by simp
      qed
      moreover have idx: "a + 1 + int (n1 - (n + 1) - 1) = a + int (n1 - n - 1)" "a + 1 + int (n1 - (n + 1)) = a + int (n1 - n)"
        "n + 1 + 1 + nat (max_retries cfg - (a + 1)) = n + 1 + nat (max_retries cfg - a)"
        "length sl1 + 1 = n1 - n - 1"
        using len False by (simp_all, linarith+)
      ultimately show ?thesis using len last [unfolded idx] unfolding eqs by simp
    qed
  qed
qed

definition model_call :: "sdk \<Rightarrow> string \<Rightarrow> bedrock_message list \<Rightarrow> int \<Rightarrow> py_float \<Rightarrow> nat \<Rightarrow> sdk_error + sdk_response" where
  "model_call lib model_id messages max_tokens temp n =
     sdk_converse lib n model_id messages \<lparr>maxTokens = max_tokens, temperature = temp\<rparr>"

text \<open>
  C23: the retry loop. A call makes at least one and at most \<open>max_retries + 1\<close> SDK calls, one more than
  it sleeps; every SDK call but the last failed with a retryable code; the result is the last call's
  answer, and the error is the last call's, raised because its code is not retryable or the retries are
  used up. So the loop always returns, never retries a permanent error and never hides a success.
\<close>

theorem converse_spec:
  "case converse cfg lib clk u start n model_id ms mt temp of (out, n', sleeps) \<Rightarrow>
     n < n' \<and> n' \<le> n + 1 + nat (max_retries cfg) \<and> length sleeps = n' - n - 1 \<and>
     list_all (\<lambda>k. case attempt_result (model_call lib model_id ms mt temp) clk start (int (k - n)) k of
                 Inl exc \<Rightarrow> is_retryable exc | Inr _ \<Rightarrow> False) [n..<n' - 1] \<and>
     (case out of
        Inr r \<Rightarrow> attempt_result (model_call lib model_id ms mt temp) clk start (int (n' - n - 1)) (n' - 1) = Inr r
      | Inl e \<Rightarrow> \<exists>exc. attempt_result (model_call lib model_id ms mt temp) clk start (int (n' - n - 1)) (n' - 1) = Inl exc \<and>
          e = final_error (int (n' - n)) exc \<and>
          (\<not> is_retryable exc \<or> n' = n + 1 + nat (max_retries cfg)))"
proof -
  obtain out n' sleeps where c: "converse cfg lib clk u start n model_id ms mt temp = (out, n', sleeps)"
    by (cases "converse cfg lib clk u start n model_id ms mt temp")
  then have "converse_loop cfg (model_call lib model_id ms mt temp) clk u start 0 n = (out, n', sleeps)"
    by (simp add: converse_def model_call_def [abs_def])
  note spec = converse_loop_spec [OF _ this, simplified]
  have "list_all (\<lambda>k. case attempt_result (model_call lib model_id ms mt temp) clk start (int (k - n)) k of
      Inl exc \<Rightarrow> is_retryable exc | Inr _ \<Rightarrow> False) [n..<n' - 1]"
    unfolding list_all_iff
  proof
    fix k assume "k \<in> set [n..<n' - 1]"
    then have "n \<le> k" "Suc k < n'" by auto
    with spec obtain exc where
      "attempt_result (model_call lib model_id ms mt temp) clk start (int (k - n)) k = Inl exc" "is_retryable exc"
      by (auto simp: of_nat_diff)
    then show "case attempt_result (model_call lib model_id ms mt temp) clk start (int (k - n)) k of
        Inl exc \<Rightarrow> is_retryable exc | Inr _ \<Rightarrow> False" by simp
  qed
  with spec show ?thesis unfolding c by (simp add: of_nat_diff split: sum.splits)
qed

lemma sleeps_bounded:
  assumes "0 \<le> base_backoff_s cfg" "\<And>k. 0 \<le> u k \<and> u k \<le> 1" "0 \<le> a"
    and "converse_loop cfg call clk u start a n = (out, n', sleeps)"
  shows "list_all (\<lambda>x. 0 \<le> x) sleeps \<and>
     sum_list sleeps \<le> base_backoff_s cfg * (2 ^ (nat a + length sleeps) - 2 ^ nat a)"
  using assms(3, 4)
proof (induction cfg\<equiv>cfg call clk u\<equiv>u start a n arbitrary: out n' sleeps rule: converse_loop.induct)
  case (1 call clk start a n)
  show ?case
  proof (cases "\<exists>exc. attempt_result call clk start a n = Inl exc \<and> is_retryable exc \<and> a + 1 \<le> max_retries cfg")
    case False
    with "1.prems" have "sleeps = []"
      by (subst (asm) converse_loop.simps) (auto split: sum.splits if_splits)
    then show ?thesis by simp
  next
    case True
    then obtain exc where exc: "attempt_result call clk start a n = Inl exc" "is_retryable exc" "a + 1 \<le> max_retries cfg"
      by blast
    obtain out1 n1 sl1 where rec: "converse_loop cfg call clk u start (a + 1) (n + 1) = (out1, n1, sl1)"
      by (cases "converse_loop cfg call clk u start (a + 1) (n + 1)")
    with "1.prems"(2) exc have eq: "sleeps = (u n * (base_backoff_s cfg * 2 ^ nat a)) # sl1"
      by (subst (asm) converse_loop.simps) simp
    from "1.hyps" [OF exc(1) _ refl _ rec] exc "1.prems"(1)
    have ih: "list_all (\<lambda>x. 0 \<le> x) sl1"
      "sum_list sl1 \<le> base_backoff_s cfg * (2 ^ (nat (a + 1) + length sl1) - 2 ^ nat (a + 1))" by auto
    have "0 \<le> base_backoff_s cfg * 2 ^ nat a" using assms(1) by simp
    then have "0 \<le> u n * (base_backoff_s cfg * 2 ^ nat a)"
      "u n * (base_backoff_s cfg * 2 ^ nat a) \<le> base_backoff_s cfg * 2 ^ nat a"
      using assms(2) [of n] by (auto intro: mult_left_le_one_le)
    moreover have "nat (a + 1) = Suc (nat a)" using "1.prems"(1) by simp
    ultimately show ?thesis using ih by (simp add: eq algebra_simps)
  qed
qed

text \<open>
  the backoff is bounded: with jitter factors in 0 to 1 the call sleeps no negative time and, in
  total, at most \<open>base * (2 ^ max_retries - 1)\<close> seconds.
\<close>

theorem backoff_bounded:
  assumes "0 \<le> base_backoff_s cfg" and "\<And>k. 0 \<le> u k \<and> u k \<le> 1"
    and "converse cfg lib clk u start n model_id ms mt temp = (out, n', sleeps)"
  shows "list_all (\<lambda>x. 0 \<le> x) sleeps \<and> sum_list sleeps \<le> base_backoff_s cfg * (2 ^ nat (max_retries cfg) - 1)"
proof -
  have c: "converse_loop cfg (model_call lib model_id ms mt temp) clk u start 0 n = (out, n', sleeps)"
    using assms(3) by (simp add: converse_def model_call_def [abs_def])
  from converse_loop_spec [OF _ c] have "length sleeps \<le> nat (max_retries cfg)" by simp linarith
  then have "(2 :: rat) ^ length sleeps \<le> 2 ^ nat (max_retries cfg)" by (simp add: power_increasing)
  then have "base_backoff_s cfg * (2 ^ length sleeps - 1) \<le> base_backoff_s cfg * (2 ^ nat (max_retries cfg) - 1)"
    using assms(1) by (intro mult_left_mono) simp_all
  with sleeps_bounded [OF assms(1, 2) _ c] show ?thesis by simp
qed

definition throttled_sdk :: sdk where
  "throttled_sdk = \<lparr>sdk_converse = \<lambda>_ _ _ _. Inl \<lparr>se_text = ''slow down'', se_response = Some (Some ''ThrottlingException'')\<rparr>,
     sdk_stream = \<lambda>_ _ _ _. Inl \<lparr>se_text = ''slow down'', se_response = Some (Some ''ThrottlingException'')\<rparr>\<rparr>"

lemma throttled_run:
  "converse \<lparr>max_retries = 2, base_backoff_s = 1 / 4\<rparr> throttled_sdk (\<lambda>_. 0) (\<lambda>_. 1) 0 5 ''m'' [] 1 0 =
    (Inl (final_error 3 \<lparr>se_text = ''slow down'', se_response = Some (Some ''ThrottlingException'')\<rparr>), 8, [1 / 4, 1 / 2])"
  by (simp add: converse_def converse_loop.simps attempt_result_def throttled_sdk_def is_retryable_def
      extract_error_code_def RETRYABLE_ERROR_CODES_def)

lemma converse_spec_witness:
  "list_all (\<lambda>k. case attempt_result (model_call throttled_sdk ''m'' [] 1 0) (\<lambda>_. 0) 0 (int (k - 5)) k of
       Inl exc \<Rightarrow> is_retryable exc | Inr _ \<Rightarrow> False) [5..<7] \<and>
   (\<exists>exc. attempt_result (model_call throttled_sdk ''m'' [] 1 0) (\<lambda>_. 0) 0 2 7 = Inl exc)"
  using converse_spec [where cfg = "\<lparr>max_retries = 2, base_backoff_s = 1 / 4\<rparr>" and lib = throttled_sdk and clk = "\<lambda>_. 0"
      and u = "\<lambda>_. 1" and start = 0 and n = 5 and model_id = "''m''" and ms = "[]" and mt = 1 and temp = 0]
  unfolding throttled_run by auto

lemma backoff_bounded_witness:
  "list_all (\<lambda>x. 0 \<le> x) [1 / 4, 1 / 2 :: py_float] \<and> sum_list [1 / 4, 1 / 2 :: py_float] \<le> 1 / 4 * (2 ^ 2 - 1)"
  using backoff_bounded [OF _ _ throttled_run] by simp

section \<open>Streams\<close>

definition delta_text :: "sdk_event \<Rightarrow> string" where
  "delta_text e = (case e of ContentBlockDelta (Some (Some t)) \<Rightarrow> t | _ \<Rightarrow> [])"

definition is_text_chunk :: "stream_chunk \<Rightarrow> bool" where
  "is_text_chunk c \<longleftrightarrow> \<not> is_final c \<and> text_delta c \<noteq> []"

lemma stream_events_chunks:
  "list_all is_text_chunk (fst (stream_events es st)) \<and>
   concat (map text_delta (fst (stream_events es st))) = concat (map delta_text es)"
  by (induction es st rule: stream_events.induct)
    (auto simp: split_beta Let_def is_text_chunk_def text_chunk_def delta_text_def split: option.split)

text \<open>
  the stream protocol. The generator yields only non-empty text chunks that spell out the deltas of
  the events it saw; after a complete stream one final chunk follows, and nothing after it; after a
  failure no final chunk is yielded and the error raised is not retryable.
\<close>

theorem converse_stream_protocol:
  "case converse_stream lib n model_id ms mt temp of (chunks, err) \<Rightarrow>
     (case sdk_stream lib n model_id ms \<lparr>maxTokens = mt, temperature = temp\<rparr> of
        Inl exc \<Rightarrow> chunks = [] \<and> err \<noteq> None
      | Inr (events, ended) \<Rightarrow>
          concat (map text_delta chunks) = concat (map delta_text events) \<and> (err = None \<longleftrightarrow> ended = None)) \<and>
     (case err of
        None \<Rightarrow> (\<exists>texts final. chunks = texts @ [final] \<and> list_all is_text_chunk texts \<and> is_final final)
      | Some e \<Rightarrow> list_all is_text_chunk chunks \<and> \<not> inv_retryable e)"
proof (cases "sdk_stream lib n model_id ms \<lparr>maxTokens = mt, temperature = temp\<rparr>")
  case (Inl exc)
  then show ?thesis by (simp add: converse_stream_def)
next
  case (Inr r)
  obtain events ended where r: "r = (events, ended)" by (cases r)
  obtain chunks st where c: "stream_events events
      \<lparr>ss_stop_reason = None, ss_input_tokens = None, ss_output_tokens = None\<rparr> = (chunks, st)"
    by (cases "stream_events events \<lparr>ss_stop_reason = None, ss_input_tokens = None, ss_output_tokens = None\<rparr>")
  from stream_events_chunks [of events "\<lparr>ss_stop_reason = None, ss_input_tokens = None, ss_output_tokens = None\<rparr>"] c
  have "list_all is_text_chunk chunks" "concat (map text_delta chunks) = concat (map delta_text events)" by simp_all
  with Inr r c show ?thesis by (cases ended) (auto simp: converse_stream_def)
qed

end
