(* ===== verification/Circuit_Breaker.thy ===== *)
theory Circuit_Breaker
  imports Interfaces
begin

text \<open>
  \<open>routing/circuit_breaker.py\<close>: the per-model breaker. The dict of breakers is a map; \<open>cb_slot\<close> is
  \<open>_get\<close>, which creates a closed breaker on first use. Operations that read the clock take the
  reading as an argument.
\<close>

datatype breaker_state = CLOSED | OPEN | HALF_OPEN

record model_breaker =
  br_state :: breaker_state
  consecutive_failures :: int
  opened_at :: py_float

record breaker_config =
  failure_threshold :: int
  reset_timeout_s :: py_float

type_synonym breakers = "string \<rightharpoonup> model_breaker"

definition new_breaker :: model_breaker where
  "new_breaker = \<lparr>br_state = CLOSED, consecutive_failures = 0, opened_at = 0\<rparr>"

definition cb_slot :: "breakers \<Rightarrow> string \<Rightarrow> model_breaker" where
  "cb_slot breakers model_id = (case breakers model_id of None \<Rightarrow> new_breaker | Some b \<Rightarrow> b)"

definition cb_allow :: "breaker_config \<Rightarrow> breakers \<Rightarrow> string \<Rightarrow> py_float \<Rightarrow> bool \<times> breakers" where
  "cb_allow cfg breakers model_id now =
     (let b = cb_slot breakers model_id; kept = breakers(model_id \<mapsto> b) in
      if br_state b = OPEN then
        (if reset_timeout_s cfg \<le> now - opened_at b
         then (True, breakers(model_id \<mapsto> b\<lparr>br_state := HALF_OPEN\<rparr>))
         else (False, kept))
      else (True, kept))"

definition cb_record_success :: "breakers \<Rightarrow> string \<Rightarrow> breakers" where
  "cb_record_success breakers model_id =
     breakers(model_id \<mapsto> (cb_slot breakers model_id)\<lparr>br_state := CLOSED, consecutive_failures := 0\<rparr>)"

definition cb_record_failure :: "breaker_config \<Rightarrow> breakers \<Rightarrow> string \<Rightarrow> py_float \<Rightarrow> breakers" where
  "cb_record_failure cfg breakers model_id now =
     (let b = cb_slot breakers model_id;
          b = b\<lparr>consecutive_failures := consecutive_failures b + 1\<rparr>
      in if br_state b = HALF_OPEN \<or> failure_threshold cfg \<le> consecutive_failures b
         then breakers(model_id \<mapsto> b\<lparr>br_state := OPEN, opened_at := now\<rparr>)
         else breakers(model_id \<mapsto> b))"

definition cb_state_of :: "breakers \<Rightarrow> string \<Rightarrow> breaker_state \<times> breakers" where
  "cb_state_of breakers model_id =
     (let b = cb_slot breakers model_id in (br_state b, breakers(model_id \<mapsto> b)))"

lemmas cb_defs = cb_slot_def cb_allow_def cb_record_success_def cb_record_failure_def cb_state_of_def
  new_breaker_def Let_def

lemma cb_other [frame]:
  "m \<noteq> m' \<Longrightarrow> cb_slot (snd (cb_allow cfg s m now)) m' = cb_slot s m'"
  "m \<noteq> m' \<Longrightarrow> cb_slot (cb_record_success s m) m' = cb_slot s m'"
  "m \<noteq> m' \<Longrightarrow> cb_slot (cb_record_failure cfg s m now) m' = cb_slot s m'"
  by (simp_all add: cb_defs)

section \<open>The operations as steps of a state machine\<close>

datatype cb_op = Allow py_float | Success | Failure py_float | StateOf

datatype cb_out = Answer bool | Unit | State breaker_state

fun cb_step :: "breaker_config \<Rightarrow> string \<Rightarrow> cb_op \<Rightarrow> breakers \<Rightarrow> cb_out \<times> breakers" where
  "cb_step cfg m (Allow now) s = (let (b, s') = cb_allow cfg s m now in (Answer b, s'))"
| "cb_step cfg m Success s = (Unit, cb_record_success s m)"
| "cb_step cfg m (Failure now) s = (Unit, cb_record_failure cfg s m now)"
| "cb_step cfg m StateOf s = (let (st, s') = cb_state_of s m in (State st, s'))"

interpretation cb: keyed_state "cb_step cfg" cb_slot for cfg
proof (unfold_locales, goal_cases)
  case (1 k k' i s)
  then show ?case by (cases i) (simp_all add: cb_defs)
next
  case (2 s k t i)
  then show ?case by (cases i) (simp_all add: cb_defs)
next
  case (3 s k t i)
  then show ?case by (cases i) (simp_all add: cb_defs)
qed

text \<open>
  one model's failures never open another model's breaker: over any interleaving, a model is
  answered as if only its own operations had happened.
\<close>

theorem breaker_isolation:
  "only m (fst (run_keyed (cb_step cfg) ops s)) = fst (run_keyed (cb_step cfg) (only m ops) s)"
  by (rule cb.noninterference)

text \<open>The transitions of one model's breaker, each with its guard and its label.\<close>

inductive breaker_trans ::
  "breaker_config \<Rightarrow> model_breaker \<Rightarrow> cb_op \<Rightarrow> cb_out \<Rightarrow> model_breaker \<Rightarrow> bool" for cfg where
  pass: "br_state b \<noteq> OPEN \<Longrightarrow> breaker_trans cfg b (Allow now) (Answer True) b"
| reject: "br_state b = OPEN \<Longrightarrow> now - opened_at b < reset_timeout_s cfg \<Longrightarrow>
     breaker_trans cfg b (Allow now) (Answer False) b"
| trial: "br_state b = OPEN \<Longrightarrow> reset_timeout_s cfg \<le> now - opened_at b \<Longrightarrow>
     breaker_trans cfg b (Allow now) (Answer True) (b\<lparr>br_state := HALF_OPEN\<rparr>)"
| close: "breaker_trans cfg b Success Unit (b\<lparr>br_state := CLOSED, consecutive_failures := 0\<rparr>)"
| count: "br_state b \<noteq> HALF_OPEN \<Longrightarrow> consecutive_failures b + 1 < failure_threshold cfg \<Longrightarrow>
     breaker_trans cfg b (Failure now) Unit (b\<lparr>consecutive_failures := consecutive_failures b + 1\<rparr>)"
| trip: "br_state b = HALF_OPEN \<or> failure_threshold cfg \<le> consecutive_failures b + 1 \<Longrightarrow>
     breaker_trans cfg b (Failure now) Unit
       (b\<lparr>consecutive_failures := consecutive_failures b + 1, br_state := OPEN, opened_at := now\<rparr>)"
| look: "breaker_trans cfg b StateOf (State (br_state b)) b"

inductive_cases trans_AllowE: "breaker_trans cfg b (Allow now) out b'"
inductive_cases trans_FailureE: "breaker_trans cfg b (Failure now) out b'"
inductive_simps trans_Success_iff: "breaker_trans cfg b Success out b'"
inductive_simps trans_StateOf_iff: "breaker_trans cfg b StateOf out b'"

lemma breaker_trans_iff:
  "breaker_trans cfg (cb_slot s m) op out b' \<longleftrightarrow>
     out = fst (cb_step cfg m op s) \<and> b' = cb_slot (snd (cb_step cfg m op s)) m"
proof (cases op)
  case (Allow now)
  show ?thesis
    unfolding Allow by (cases "br_state (cb_slot s m)")
      (auto simp: cb_allow_def cb_slot_def Let_def elim!: trans_AllowE intro: breaker_trans.intros)
next
  case Success
  show ?thesis unfolding Success trans_Success_iff by (auto simp: cb_record_success_def cb_slot_def)
next
  case (Failure now)
  show ?thesis
    unfolding Failure
    by (auto simp: cb_record_failure_def cb_slot_def Let_def elim!: trans_FailureE intro: breaker_trans.intros)
next
  case StateOf
  show ?thesis unfolding StateOf trans_StateOf_iff by (auto simp: cb_state_of_def cb_slot_def Let_def)
qed

section \<open>What the answers say of the history\<close>

text \<open>
  The contract without the machine: whether a caller is let through is a matter of what happened to the
  model before. Only what follows its last success counts; there, it is its failures, the last of them,
  and the readings at which callers have asked since.
\<close>

fun is_failure :: "cb_op \<Rightarrow> bool" where
  "is_failure (Failure t) = True"
| "is_failure _ = False"

fun ask_times :: "cb_op list \<Rightarrow> py_float list" where
  "ask_times [] = []"
| "ask_times (Allow t # ops) = t # ask_times ops"
| "ask_times (_ # ops) = ask_times ops"

definition history_of :: "string \<Rightarrow> (string \<times> cb_op) list \<Rightarrow> cb_op list" where
  "history_of m ops = map snd (only m ops)"

text \<open>The operations since the last success, the latest first, and the part after the last failure.\<close>

definition since_success :: "cb_op list \<Rightarrow> cb_op list" where
  "since_success h = takeWhile (\<lambda>op. op \<noteq> Success) (rev h)"

definition failures_in :: "cb_op list \<Rightarrow> nat" where
  "failures_in h = length (filter is_failure (since_success h))"

definition last_failure :: "cb_op list \<Rightarrow> py_float option" where
  "last_failure h = (case dropWhile (\<lambda>op. \<not> is_failure op) (since_success h) of Failure t # _ \<Rightarrow> Some t | _ \<Rightarrow> None)"

definition asked_since :: "cb_op list \<Rightarrow> py_float list" where
  "asked_since h = ask_times (takeWhile (\<lambda>op. \<not> is_failure op) (since_success h))"

text \<open>
  A caller is turned away when the failures have reached the threshold and neither it nor any caller
  since the last failure came a reset timeout after that failure.
\<close>

definition lets_through :: "breaker_config \<Rightarrow> cb_op list \<Rightarrow> py_float \<Rightarrow> bool" where
  "lets_through cfg h now =
     (case last_failure h of
        None \<Rightarrow> True
      | Some t \<Rightarrow>
          int (failures_in h) < failure_threshold cfg \<or> list_ex (\<lambda>u. reset_timeout_s cfg \<le> u - t) (now # asked_since h))"

lemma cb_slot_upd: "cb_slot (s(m \<mapsto> b)) m = b"
  by (simp add: cb_slot_def)

lemmas history_defs = since_success_def failures_in_def last_failure_def asked_since_def

lemma history_snoc [simp]:
  "since_success (h @ [Success]) = []"
  "op \<noteq> Success \<Longrightarrow> since_success (h @ [op]) = op # since_success h"
  by (simp_all add: since_success_def)

definition breaker_at :: "breaker_config \<Rightarrow> cb_op list \<Rightarrow> model_breaker \<Rightarrow> bool" where
  "breaker_at cfg h b \<longleftrightarrow> consecutive_failures b = int (failures_in h) \<and>
     (case last_failure h of
        None \<Rightarrow> br_state b = CLOSED
      | Some t \<Rightarrow>
          if int (failures_in h) < failure_threshold cfg then br_state b = CLOSED
          else opened_at b = t \<and>
            br_state b = (if list_ex (\<lambda>u. reset_timeout_s cfg \<le> u - t) (asked_since h) then HALF_OPEN else OPEN))"

lemma breaker_at_step:
  assumes "breaker_at cfg h (cb_slot s m)"
  shows "breaker_at cfg (h @ [op]) (cb_slot (snd (cb_step cfg m op s)) m)"
proof (cases op)
  case (Allow now)
  then have "last_failure (h @ [op]) = last_failure h" "failures_in (h @ [op]) = failures_in h"
    "asked_since (h @ [op]) = now # asked_since h" by (simp_all add: history_defs(2-))
  with assms Allow show ?thesis
    by (auto simp: breaker_at_def cb_allow_def Let_def cb_slot_upd split: option.splits if_splits)
next
  case Success
  then show ?thesis by (simp add: breaker_at_def history_defs(2-) cb_record_success_def cb_slot_upd)
next
  case (Failure now)
  then have "last_failure (h @ [op]) = Some now" "failures_in (h @ [op]) = Suc (failures_in h)" "asked_since (h @ [op]) = []"
    by (simp_all add: history_defs(2-))
  with assms Failure show ?thesis
    by (auto simp: breaker_at_def cb_record_failure_def Let_def cb_slot_upd split: option.splits if_splits)
next
  case StateOf
  then have "last_failure (h @ [op]) = last_failure h" "failures_in (h @ [op]) = failures_in h"
    "asked_since (h @ [op]) = asked_since h" by (simp_all add: history_defs(2-))
  with assms StateOf show ?thesis 
    by (auto simp: breaker_at_def cb_state_of_def Let_def cb_slot_upd split: option.splits if_splits)
qed

lemma breaker_at_run: "breaker_at cfg (history_of m ops) (cb_slot (snd (run_keyed (cb_step cfg) ops Map.empty)) m)"
proof (induction ops rule: rev_induct)
  case Nil
  show ?case by (simp add: breaker_at_def history_of_def history_defs cb_slot_def new_breaker_def)
next
  case (snoc x ops)
  obtain m' op where x: "x = (m', op)" by (cases x)
  have h: "history_of m (ops @ [x]) = history_of m ops @ (if m' = m then [op] else [])"
    by (simp add: history_of_def only_def x)
  show ?case
  proof (cases "m' = m")
    case True
    with breaker_at_step [OF snoc.IH, of op] h x show ?thesis by (simp add: run_keyed_snoc)
  next
    case False
    with snoc.IH h x cb.step_other show ?thesis by (simp add: run_keyed_snoc)
  qed
qed

text \<open>
  C27: the breaker's contract, over any interleaving of operations on any models. A caller is let
  through exactly when its model has not reached the failure threshold since its last success, or it or
  an earlier caller since the last failure came at least a reset timeout after that failure; and the
  state an observer reads is the one these facts determine.
\<close>

theorem breaker_answers_history:
  "let s = snd (run_keyed (cb_step cfg) ops Map.empty); h = history_of m ops in
     fst (cb_allow cfg s m now) = lets_through cfg h now \<and>
     fst (cb_state_of s m) =
       (case last_failure h of
          None \<Rightarrow> CLOSED
        | Some t \<Rightarrow>
            if int (failures_in h) < failure_threshold cfg then CLOSED
            else if list_ex (\<lambda>u. reset_timeout_s cfg \<le> u - t) (asked_since h) then HALF_OPEN else OPEN)"
  using breaker_at_run [of cfg m ops]
  by (auto simp: breaker_at_def lets_through_def cb_allow_def cb_state_of_def Let_def split: option.splits if_splits)

section \<open>Reachable breakers\<close>

inductive cb_reachable :: "breaker_config \<Rightarrow> breakers \<Rightarrow> bool" for cfg where
  init: "cb_reachable cfg Map.empty"
| step: "cb_reachable cfg s \<Longrightarrow> cb_reachable cfg (snd (cb_step cfg m op s))"

definition cb_inv :: "breaker_config \<Rightarrow> model_breaker \<Rightarrow> bool" where
  "cb_inv cfg b \<longleftrightarrow> 0 \<le> consecutive_failures b \<and>
     (br_state b = CLOSED \<longrightarrow> consecutive_failures b < failure_threshold cfg) \<and>
     (br_state b \<noteq> CLOSED \<longrightarrow> 0 < consecutive_failures b)"

text \<open>The breakers of all models simulate one copy of the machine per model.\<close>

interpretation machine: simulation "\<lambda>s. s = Map.empty" "\<lambda>s s'. \<exists>m op. s' = snd (cb_step cfg m op s)"
  "\<lambda>a. a = (\<lambda>_. new_breaker)" "\<lambda>a a'. \<exists>m op out b'. breaker_trans cfg (a m) op out b' \<and> a' = a(m := b')"
  cb_slot "\<lambda>_. True" for cfg
proof unfold_locales
  show "cb_slot c = (\<lambda>_. new_breaker)" if "c = Map.empty" for c using that by (simp add: cb_slot_def fun_eq_iff)
next
  fix s s' assume "\<exists>m op. s' = snd (cb_step cfg m op s)"
  then obtain m op where s': "s' = snd (cb_step cfg m op s)" by blast
  have "cb_slot s' = (cb_slot s)(m := cb_slot s' m)"
    using cb.step_other [of m _ cfg op s] by (auto simp: s' fun_eq_iff)
  moreover have "breaker_trans cfg (cb_slot s m) op (fst (cb_step cfg m op s)) (cb_slot s' m)"
    unfolding breaker_trans_iff s' by simp
  ultimately show "cb_slot s' = cb_slot s \<or>
      (\<exists>m op out b'. breaker_trans cfg (cb_slot s m) op out b' \<and> cb_slot s' = (cb_slot s)(m := b'))" by blast
qed simp_all

lemma breaker_trans_inv [inv_intros]:
  "breaker_trans cfg b op out b' \<Longrightarrow> 0 < failure_threshold cfg \<Longrightarrow> cb_inv cfg b \<Longrightarrow> cb_inv cfg b'"
  by (induction rule: breaker_trans.induct) (auto simp: cb_inv_def)

text \<open>
  in every reachable state a closed breaker has seen fewer consecutive failures than the
  threshold, and one that is open or half open has seen at least one.
\<close>

theorem breaker_invariant:
  "cb_reachable cfg s \<Longrightarrow> 0 < failure_threshold cfg \<Longrightarrow> cb_inv cfg (cb_slot s m)"
proof -
  assume r: "cb_reachable cfg s" and pos: "0 < failure_threshold cfg"
  have "reaches (\<lambda>s. s = Map.empty) (\<lambda>s s'. \<exists>m op. s' = snd (cb_step cfg m op s)) s"
    using r by (induction rule: cb_reachable.induct) (blast intro: reaches.intros)+
  then have "\<forall>m. cb_inv cfg (cb_slot s m)"
  proof (rule machine.invariant_transfer [where I = "\<lambda>a. \<forall>m. cb_inv cfg (a m)", rotated 2])
    show "\<forall>m. cb_inv cfg (a m)" if "a = (\<lambda>_. new_breaker)" for a
      using that pos by (simp add: cb_inv_def new_breaker_def)
    show "\<forall>m. cb_inv cfg (a' m)" if "\<forall>m. cb_inv cfg (a m)"
      "\<exists>m op out b'. breaker_trans cfg (a m) op out b' \<and> a' = a(m := b')" for a a'
      using that breaker_trans_inv [OF _ pos] by (auto simp: fun_upd_def)
  qed
  then show "cb_inv cfg (cb_slot s m)" by blast
qed

theorem breaker_invariant_witness:
  "cb_inv \<lparr>failure_threshold = 2, reset_timeout_s = 30\<rparr>
     (cb_slot (snd (cb_step \<lparr>failure_threshold = 2, reset_timeout_s = 30\<rparr> ''m'' (Failure 3) Map.empty)) ''m'')"
  by (rule breaker_invariant, rule cb_reachable.step, rule cb_reachable.init) simp

section \<open>No retry storm\<close>

text \<open>
  A burst against a model whose every call fails: each attempt asks the breaker, calls only when
  allowed, and reports the failure. The number of calls that reach the model.
\<close>

fun failing_burst :: "breaker_config \<Rightarrow> string \<Rightarrow> py_float list \<Rightarrow> breakers \<Rightarrow> nat \<times> breakers" where
  "failing_burst cfg m [] s = (0, s)"
| "failing_burst cfg m (t # ts) s =
     (case cb_allow cfg s m t of
        (True, s') \<Rightarrow>
          (case failing_burst cfg m ts (cb_record_failure cfg s' m t) of (n, s'') \<Rightarrow> (Suc n, s''))
      | (False, s') \<Rightarrow> failing_burst cfg m ts s')"

lemma burst_open:
  "br_state (cb_slot s m) = OPEN \<Longrightarrow> t0 \<le> opened_at (cb_slot s m) \<Longrightarrow>
     \<forall>t \<in> set ts. t < t0 + reset_timeout_s cfg \<Longrightarrow> fst (failing_burst cfg m ts s) = 0"
proof (induction ts arbitrary: s)
  case Nil
  then show ?case by simp
next
  case (Cons t ts)
  then have "t - opened_at (cb_slot s m) < reset_timeout_s cfg" by simp
  define s1 where "s1 = s(m \<mapsto> cb_slot s m)"
  have "cb_slot s1 m = cb_slot s m" by (simp add: s1_def cb_slot_def)
  with Cons.IH [of s1] Cons.prems have "fst (failing_burst cfg m ts s1) = 0" by simp
  moreover have "cb_allow cfg s m t = (False, s1)"
    using Cons.prems \<open>t - opened_at (cb_slot s m) < reset_timeout_s cfg\<close>
    by (simp add: cb_allow_def Let_def s1_def)
  ultimately show ?case by simp
qed

lemma burst_closed:
  "br_state (cb_slot s m) = CLOSED \<Longrightarrow> consecutive_failures (cb_slot s m) < failure_threshold cfg \<Longrightarrow>
     \<forall>t \<in> set ts. t0 \<le> t \<and> t < t0 + reset_timeout_s cfg \<Longrightarrow>
     fst (failing_burst cfg m ts s) =
       min (length ts) (nat (failure_threshold cfg - consecutive_failures (cb_slot s m)))"
proof (induction ts arbitrary: s)
  case Nil
  then show ?case by simp
next
  case (Cons t ts)
  define b where "b = cb_slot s m"
  define s1 where "s1 = s(m \<mapsto> b)"
  have s1: "cb_allow cfg s m t = (True, s1)" "cb_slot s1 m = b"
    using Cons.prems(1) by (simp_all add: cb_allow_def Let_def b_def s1_def cb_slot_def)
  define s2 where "s2 = cb_record_failure cfg s1 m t"
  show ?case
  proof (cases "failure_threshold cfg \<le> consecutive_failures b + 1")
    case True
    then have "cb_slot s2 m = b\<lparr>consecutive_failures := consecutive_failures b + 1, br_state := OPEN, opened_at := t\<rparr>"
      by (simp add: s2_def cb_record_failure_def s1(2) Let_def) (simp add: cb_slot_def)
    with Cons.prems(3) have "fst (failing_burst cfg m ts s2) = 0"
      using burst_open [of s2 m t0 ts cfg] by simp
    moreover have "failure_threshold cfg = consecutive_failures b + 1"
      using True Cons.prems(2) by (simp add: b_def)
    ultimately show ?thesis by (simp add: s1 s2_def [symmetric] b_def [symmetric] split_beta)
  next
    case False
    then have s2: "cb_slot s2 m = b\<lparr>consecutive_failures := consecutive_failures b + 1\<rparr>"
      using Cons.prems(1) by (simp add: s2_def cb_record_failure_def s1(2) Let_def b_def [symmetric]) (simp add: cb_slot_def)
    have "fst (failing_burst cfg m ts s2) =
        min (length ts) (nat (failure_threshold cfg - (consecutive_failures b + 1)))"
      using Cons.IH [of s2] Cons.prems False by (simp add: s2 b_def [symmetric])
    moreover have "nat (failure_threshold cfg - consecutive_failures b) =
        Suc (nat (failure_threshold cfg - (consecutive_failures b + 1)))"
      using Cons.prems(2) by (simp add: b_def [symmetric])
    ultimately show ?thesis by (simp add: s1 s2_def [symmetric] b_def [symmetric] split_beta)
  qed
qed

text \<open>
  no retry storm. However long a burst against a failing model is, inside one reset window
  exactly the first \<open>failure_threshold\<close> attempts reach the model; the rest are rejected at the
  breaker.
\<close>

theorem no_retry_storm:
  assumes "cb_slot s m = new_breaker" and "0 < failure_threshold cfg"
    and "\<forall>t \<in> set ts. t0 \<le> t \<and> t < t0 + reset_timeout_s cfg"
  shows "fst (failing_burst cfg m ts s) = min (length ts) (nat (failure_threshold cfg))"
  using burst_closed [of s m cfg ts t0] assms by (simp add: new_breaker_def)

theorem no_retry_storm_witness:
  "fst (failing_burst \<lparr>failure_threshold = 2, reset_timeout_s = 30\<rparr> ''m'' [0, 1, 2, 3, 29] Map.empty) = min 5 2"
  using no_retry_storm [of Map.empty "''m''" "\<lparr>failure_threshold = 2, reset_timeout_s = 30\<rparr>" "[0, 1, 2, 3, 29]" 0]
  by (simp add: cb_slot_def)

lemma half_open_run:
  "br_state (cb_slot s m) = HALF_OPEN \<Longrightarrow>
     fst (run_keyed (cb_step cfg) (map (\<lambda>t. (m, Allow t)) ts) s) = map (\<lambda>t. (m, Answer True)) ts"
proof (induction ts arbitrary: s)
  case Nil
  then show ?case by simp
next
  case (Cons t ts)
  then have "cb_allow cfg s m t = (True, s(m \<mapsto> cb_slot s m))"
    by (simp add: cb_allow_def Let_def)
  moreover have "br_state (cb_slot (s(m \<mapsto> cb_slot s m)) m) = HALF_OPEN"
    using Cons.prems by (simp add: cb_slot_def)
  ultimately show ?case using Cons.IH by (simp add: split_beta Let_def)
qed

text \<open>
  C39: a half-open breaker rejects nobody. Once the trial was let through and has not reported
  yet, every further caller is let through as well, however many there are.
\<close>

theorem half_open_admits_everyone:
  assumes "br_state (cb_slot s m) = OPEN" and "reset_timeout_s cfg \<le> t - opened_at (cb_slot s m)"
  shows "fst (run_keyed (cb_step cfg) (map (\<lambda>t. (m, Allow t)) (t # ts)) s) =
           map (\<lambda>t. (m, Answer True)) (t # ts)"
proof -
  have a: "cb_allow cfg s m t = (True, s(m \<mapsto> (cb_slot s m)\<lparr>br_state := HALF_OPEN\<rparr>))"
    using assms by (simp add: cb_allow_def Let_def)
  have "br_state (cb_slot (s(m \<mapsto> (cb_slot s m)\<lparr>br_state := HALF_OPEN\<rparr>)) m) = HALF_OPEN"
    by (simp add: cb_slot_def)
  from half_open_run [OF this, of cfg ts] a show ?thesis by (simp add: split_beta Let_def)
qed

theorem half_open_admits_everyone_witness:
  "fst (run_keyed (cb_step \<lparr>failure_threshold = 5, reset_timeout_s = 30\<rparr>) [(''m'', Allow 40), (''m'', Allow 41), (''m'', Allow 42)]
      [''m'' \<mapsto> \<lparr>br_state = OPEN, consecutive_failures = 5, opened_at = 7\<rparr>]) =
     [(''m'', Answer True), (''m'', Answer True), (''m'', Answer True)]"
  using half_open_admits_everyone [of "[''m'' \<mapsto> \<lparr>br_state = OPEN, consecutive_failures = 5, opened_at = 7\<rparr>]" "''m''"
      "\<lparr>failure_threshold = 5, reset_timeout_s = 30\<rparr>" 40 "[41, 42]"]
  by (simp add: cb_slot_def)

end
