(* ===== verification/Router.thy ===== *)
theory Router
  imports Bedrock_Client Circuit_Breaker
begin

text \<open>
  \<open>routing/router.py\<close>: the certified router. The model client is the one thing it calls: an argument
  that takes a model id and the state \<open>'w\<close> of the world (messages and parameters are closed over)
  and answers a result or an error. A \<open>BedrockInvocationError\<close> is \<open>Invocation\<close>; any other exception is
  \<open>Unexpected\<close>. The clock is read off the world too.
\<close>

datatype client_error = Invocation invocation_error | Unexpected string

record route_set_entry =
  rset_name :: string
  primary :: string
  fallbacks :: "string list"

type_synonym route_sets = "string \<rightharpoonup> route_set_entry"

datatype route_error =
    Failed invocation_error
  | AllRoutesUnavailable "string option"
  | Propagated string

record routed_result =
  rt_result :: converse_result
  rt_model_id :: string
  rt_fallback :: bool

definition all_routes_message :: "string option \<Rightarrow> string" where
  "all_routes_message route_set_name =
     ''all candidate models are circuit-open for route_set='' @ repr_opt_str route_set_name"

section \<open>Loading\<close>

definition load_route_set :: "string \<times> json \<Rightarrow> py_exn + route_set_entry" where
  "load_route_set = (\<lambda>(name, cfg).
     bind_r (subscript (or_empty cfg) ''primary'') (\<lambda>p. bind_r (as_str p) (\<lambda>primary.
     bind_r (as_dict (or_empty cfg)) (\<lambda>d.
     bind_r (as_str_list (dict_get_default d ''fallbacks'' (JArr []))) (\<lambda>fallbacks.
     Inr \<lparr>rset_name = name, primary = primary, fallbacks = fallbacks\<rparr>)))))"

definition load_route_sets :: "json \<Rightarrow> py_exn + route_sets" where
  "load_route_sets document =
     bind_r (as_dict (or_empty document)) (\<lambda>raw.
     bind_r (as_dict (or_empty (dict_get raw ''route_sets''))) (\<lambda>items.
     bind_r (map_r load_route_set items) (\<lambda>entries.
     Inr (map_of (rev (map (\<lambda>e. (rset_name e, e)) entries))))))"

section \<open>Routing\<close>

definition fallbacks_for :: "route_sets \<Rightarrow> string option \<Rightarrow> string list" where
  "fallbacks_for sets route_set_name =
     (case route_set_name of
        None \<Rightarrow> []
      | Some name \<Rightarrow> (case sets name of None \<Rightarrow> [] | Some rs \<Rightarrow> fallbacks rs))"

definition candidates :: "route_sets \<Rightarrow> string \<Rightarrow> string option \<Rightarrow> string list" where
  "candidates sets primary_model_id route_set_name =
     primary_model_id # filter (\<lambda>m. m \<noteq> primary_model_id) (fallbacks_for sets route_set_name)"

fun try_candidates ::
  "breaker_config \<Rightarrow> (string \<Rightarrow> 'w \<Rightarrow> (client_error + converse_result) \<times> 'w) \<Rightarrow> ('w \<Rightarrow> py_float \<times> 'w) \<Rightarrow>
   string option \<Rightarrow> nat \<Rightarrow> string list \<Rightarrow> invocation_error option \<Rightarrow> breakers \<Rightarrow> 'w \<Rightarrow>
   (route_error + routed_result) \<times> breakers \<times> 'w" where
  "try_candidates cfg client clock route_set_name index [] last_error br w =
     (case last_error of
        Some e \<Rightarrow> (Inl (Failed e), br, w)
      | None \<Rightarrow> (Inl (AllRoutesUnavailable route_set_name), br, w))"
| "try_candidates cfg client clock route_set_name index (m # ms) last_error br w =
     (let (now, w) = clock w; (ok, br) = cb_allow cfg br m now in
      if \<not> ok then try_candidates cfg client clock route_set_name (index + 1) ms last_error br w
      else
        (let (answer, w) = client m w in
         case answer of
           Inl (Invocation e) \<Rightarrow>
             (let (now, w) = clock w in
              try_candidates cfg client clock route_set_name (index + 1) ms (Some e)
                (cb_record_failure cfg br m now) w)
         | Inl (Unexpected t) \<Rightarrow> (Inl (Propagated t), br, w)
         | Inr result \<Rightarrow>
             (Inr \<lparr>rt_result = result, rt_model_id = m, rt_fallback = (0 < index)\<rparr>,
              cb_record_success br m, w)))"

definition router_converse ::
  "breaker_config \<Rightarrow> route_sets \<Rightarrow> (string \<Rightarrow> 'w \<Rightarrow> (client_error + converse_result) \<times> 'w) \<Rightarrow>
   ('w \<Rightarrow> py_float \<times> 'w) \<Rightarrow> string \<Rightarrow> string option \<Rightarrow> breakers \<Rightarrow> 'w \<Rightarrow>
   (route_error + routed_result) \<times> breakers \<times> 'w" where
  "router_converse cfg sets client clock primary_model_id route_set_name br w =
     try_candidates cfg client clock route_set_name 0 (candidates sets primary_model_id route_set_name) None br w"

text \<open>What every candidate's call and every clock reading keep, routing keeps.\<close>

lemma try_candidates_keeps:
  assumes client: "\<And>m w. m \<in> set ms \<Longrightarrow> P w \<Longrightarrow> P (snd (client m w))"
    and clock: "\<And>w. P w \<Longrightarrow> P (snd (clock w))"
    and start: "P w"
  shows "P (snd (snd (try_candidates cfg client clock n i ms le br w)))"
  using client start
proof (induction ms arbitrary: i le br w)
  case Nil
  then show ?case by (simp split: option.split)
next
  case (Cons m ms)
  obtain now w1 where clk: "clock w = (now, w1)" by (cases "clock w")
  with clock [OF Cons.prems(2)] have w1: "P w1" by simp
  obtain answer w2 where cl: "client m w1 = (answer, w2)" by (cases "client m w1")
  with Cons.prems(1) [of m w1] w1 have w2: "P w2" by simp
  obtain now' w3 where clk': "clock w2 = (now', w3)" by (cases "clock w2")
  with clock [OF w2] have w3: "P w3" by simp
  have IH: "P v \<Longrightarrow> P (snd (snd (try_candidates cfg client clock n j ms e br' v)))" for j e br' v
    using Cons.IH Cons.prems(1) by simp
  show ?case
    using clk cl clk' w1 w2 w3 IH
    by (auto simp: Let_def split: prod.split sum.split client_error.split)
qed

lemma router_converse_keeps:
  assumes "\<And>m w. m \<in> set (candidates sets p n) \<Longrightarrow> P w \<Longrightarrow> P (snd (client m w))"
    and "\<And>w. P w \<Longrightarrow> P (snd (clock w))" and "P w"
  shows "P (snd (snd (router_converse cfg sets client clock p n br w)))"
  unfolding router_converse_def using assms by (rule try_candidates_keeps)

section \<open>What the router relies on in its client\<close>

text \<open>
  The calls made so far are a function of the world, a call adds its model and a clock reading adds
  nothing.
\<close>

locale model_client =
  fixes client :: "string \<Rightarrow> 'w \<Rightarrow> (client_error + converse_result) \<times> 'w"
    and clock :: "'w \<Rightarrow> py_float \<times> 'w"
    and calls :: "'w \<Rightarrow> string list"
  assumes calls_client: "calls (snd (client m w)) = calls w @ [m]"
    and calls_clock: "calls (snd (clock w)) = calls w"
begin

definition served :: "nat \<Rightarrow> string list \<Rightarrow> string list \<Rightarrow> routed_result \<Rightarrow> breakers \<Rightarrow> bool" where
  "served i ms cs r br' \<longleftrightarrow>
     (\<exists>pre post tried. ms = pre @ rt_model_id r # post \<and> cs = tried @ [rt_model_id r] \<and> subseq tried pre \<and>
        (rt_fallback r \<longleftrightarrow> 0 < i + length pre)) \<and>
     br_state (cb_slot br' (rt_model_id r)) = CLOSED \<and> consecutive_failures (cb_slot br' (rt_model_id r)) = 0"

definition route_ok :: "nat \<Rightarrow> string list \<Rightarrow> invocation_error option \<Rightarrow> string list \<Rightarrow>
    (route_error + routed_result) \<Rightarrow> breakers \<Rightarrow> bool" where
  "route_ok i ms last_error cs out br' \<longleftrightarrow>
     subseq cs ms \<and>
     (case out of
        Inr r \<Rightarrow> served i ms cs r br'
      | Inl (AllRoutesUnavailable n) \<Rightarrow> cs = [] \<and> last_error = None
      | Inl (Failed e) \<Rightarrow> last_error \<noteq> None \<or> cs \<noteq> []
      | Inl (Propagated t) \<Rightarrow> cs \<noteq> [])"

lemma served_skip: "served (Suc i) ms cs r br \<Longrightarrow> served i (m # ms) cs r br"
proof -
  assume s: "served (Suc i) ms cs r br"
  then obtain pre post tried where "ms = pre @ rt_model_id r # post" "cs = tried @ [rt_model_id r]"
    "subseq tried pre" "rt_fallback r \<longleftrightarrow> 0 < Suc i + length pre" unfolding served_def by blast
  then have "m # ms = (m # pre) @ rt_model_id r # post \<and> cs = tried @ [rt_model_id r] \<and>
      subseq tried (m # pre) \<and> (rt_fallback r \<longleftrightarrow> 0 < i + length (m # pre))"
    by (simp add: list_emb_Cons)
  with s show ?thesis unfolding served_def by blast
qed

lemma served_failed: "served (Suc i) ms cs r br \<Longrightarrow> served i (m # ms) (m # cs) r br"
proof -
  assume s: "served (Suc i) ms cs r br"
  then obtain pre post tried where "ms = pre @ rt_model_id r # post" "cs = tried @ [rt_model_id r]"
    "subseq tried pre" "rt_fallback r \<longleftrightarrow> 0 < Suc i + length pre" unfolding served_def by blast
  then have "m # ms = (m # pre) @ rt_model_id r # post \<and> m # cs = (m # tried) @ [rt_model_id r] \<and>
      subseq (m # tried) (m # pre) \<and> (rt_fallback r \<longleftrightarrow> 0 < i + length (m # pre))" by simp
  with s show ?thesis unfolding served_def by blast
qed

lemma route_ok_skip: "route_ok (Suc i) ms le cs out br' \<Longrightarrow> route_ok i (m # ms) le cs out br'"
  unfolding route_ok_def by (cases out) (auto split: route_error.splits intro: served_skip)

lemma route_ok_failed: "route_ok (Suc i) ms (Some e) cs out br' \<Longrightarrow> route_ok i (m # ms) le (m # cs) out br'"
  unfolding route_ok_def by (cases out) (auto split: route_error.splits intro: served_failed)

lemma try_candidates_ok:
  "try_candidates cfg client clock n i ms le br w = (out, br', w') \<Longrightarrow>
     \<exists>cs. calls w' = calls w @ cs \<and> route_ok i ms le cs out br'"
proof (induction ms arbitrary: i le br w)
  case Nil
  then show ?case by (auto simp: route_ok_def split: option.splits)
next
  case (Cons m ms)
  obtain now w1 where clk: "clock w = (now, w1)" by (cases "clock w")
  with calls_clock [of w] have w1: "calls w1 = calls w" by simp
  obtain ok br1 where al: "cb_allow cfg br m now = (ok, br1)" by (cases "cb_allow cfg br m now")
  obtain answer w2 where cl: "client m w1 = (answer, w2)" by (cases "client m w1")
  with calls_client [of m w1] w1 have w2: "calls w2 = calls w @ [m]" by simp
  show ?case
  proof (cases ok)
    case False
    with Cons.prems clk al have "try_candidates cfg client clock n (Suc i) ms le br1 w1 = (out, br', w')" by simp
    from Cons.IH [OF this] w1 route_ok_skip show ?thesis by fastforce
  next
    case ok: True
    consider (res) r where "answer = Inr r" | (inv) e where "answer = Inl (Invocation e)"
      | (other) t where "answer = Inl (Unexpected t)"
      by (metis sum.exhaust client_error.exhaust)
    then show ?thesis
    proof cases
      case res
      with Cons.prems clk al cl ok
      have eqs: "out = Inr \<lparr>rt_result = r, rt_model_id = m, rt_fallback = (0 < i)\<rparr>" "br' = cb_record_success br1 m" "w' = w2"
        by simp_all
      have "route_ok i (m # ms) le [m] out br'"
        unfolding route_ok_def served_def eqs by (auto simp: cb_defs intro: exI [of _ "[]"])
      with w2 eqs show ?thesis by blast
    next
      case inv
      obtain now' w3 where clk': "clock w2 = (now', w3)" by (cases "clock w2")
      with calls_clock [of w2] w2 have w3: "calls w3 = calls w @ [m]" by simp
      from Cons.prems clk al cl ok inv clk'
      have "try_candidates cfg client clock n (Suc i) ms (Some e) (cb_record_failure cfg br1 m now') w3 = (out, br', w')"
        by simp
      from Cons.IH [OF this] obtain cs where "calls w' = calls w3 @ cs" "route_ok (Suc i) ms (Some e) cs out br'" by blast
      with w3 route_ok_failed show ?thesis by fastforce
    next
      case other
      with Cons.prems clk al cl ok have "out = Inl (Propagated t)" "w' = w2" by simp_all
      with w2 show ?thesis unfolding route_ok_def by auto
    qed
  qed
qed

lemma router_converse_ok:
  "router_converse cfg sets client clock p n br w = (out, br', w') \<Longrightarrow>
     \<exists>cs. calls w' = calls w @ cs \<and> route_ok 0 (candidates sets p n) None cs out br'"
  unfolding router_converse_def by (rule try_candidates_ok)

end

section \<open>The account of a routing\<close>

text \<open>
  What a routing did, in order: its clock readings and its calls with their answers. A client and a
  clock whose world keeps such a record are a \<open>model_client\<close>.
\<close>

datatype route_event = Reading py_float | Called string "client_error + converse_result"

fun clock_readings :: "route_event list \<Rightarrow> py_float list" where
  "clock_readings [] = []"
| "clock_readings (Reading t # l) = t # clock_readings l"
| "clock_readings (Called m a # l) = clock_readings l"

fun answers :: "route_event list \<Rightarrow> (string \<times> (client_error + converse_result)) list" where
  "answers [] = []"
| "answers (Reading t # l) = answers l"
| "answers (Called m a # l) = (m, a) # answers l"

definition called_models :: "route_event list \<Rightarrow> string list" where
  "called_models l = map fst (answers l)"

lemma answers_append [simp]: "answers (l @ l') = answers l @ answers l'"
  by (induction l rule: answers.induct) simp_all

definition failed_call :: "string \<times> (client_error + converse_result) \<Rightarrow> bool" where
  "failed_call c = (case snd c of Inl (Invocation e) \<Rightarrow> True | _ \<Rightarrow> False)"

text \<open>The outcome is the one of the last call, and every call before a last one that ends the routing failed.\<close>

definition reported ::
  "string option \<Rightarrow> invocation_error option \<Rightarrow> route_event list \<Rightarrow> (route_error + routed_result) \<Rightarrow> bool" where
  "reported n last_error l out =
     (case out of
        Inr r \<Rightarrow> answers l \<noteq> [] \<and> list_all failed_call (butlast (answers l)) \<and>
          last (answers l) = (rt_model_id r, Inr (rt_result r))
      | Inl (Propagated t) \<Rightarrow> answers l \<noteq> [] \<and> list_all failed_call (butlast (answers l)) \<and>
          snd (last (answers l)) = Inl (Unexpected t)
      | Inl (Failed e) \<Rightarrow> list_all failed_call (answers l) \<and>
          (if answers l = [] then last_error = Some e else snd (last (answers l)) = Inl (Invocation e))
      | Inl (AllRoutesUnavailable n') \<Rightarrow> n' = n \<and> answers l = [] \<and> last_error = None)"

text \<open>The candidates the routing came to: all of them, or those before the one whose call ended it.\<close>

definition considered :: "string list \<Rightarrow> route_event list \<Rightarrow> (route_error + routed_result) \<Rightarrow> string list" where
  "considered ms l out =
     (case out of
        Inl (Failed e) \<Rightarrow> ms
      | Inl (AllRoutesUnavailable n) \<Rightarrow> ms
      | _ \<Rightarrow> takeWhile (\<lambda>m. m \<noteq> fst (last (answers l))) ms)"

text \<open>
  A model that was called had a breaker that was not open, or open for the reset timeout at a reading of
  this routing. One that was come to and not called had an open breaker, and a reading inside the timeout.
\<close>

definition admitted_by :: "breaker_config \<Rightarrow> breakers \<Rightarrow> route_event list \<Rightarrow> string \<Rightarrow> bool" where
  "admitted_by cfg br l m \<longleftrightarrow> br_state (cb_slot br m) \<in> {CLOSED, HALF_OPEN} \<or>
     list_ex (\<lambda>t. reset_timeout_s cfg \<le> t - opened_at (cb_slot br m)) (clock_readings l)"

definition skipped_by :: "breaker_config \<Rightarrow> breakers \<Rightarrow> route_event list \<Rightarrow> string \<Rightarrow> bool" where
  "skipped_by cfg br l m \<longleftrightarrow> br_state (cb_slot br m) = OPEN \<and>
     list_ex (\<lambda>t. t - opened_at (cb_slot br m) < reset_timeout_s cfg) (clock_readings l)"

definition accounted ::
  "breaker_config \<Rightarrow> breakers \<Rightarrow> string option \<Rightarrow> string list \<Rightarrow> invocation_error option \<Rightarrow> route_event list \<Rightarrow>
   (route_error + routed_result) \<Rightarrow> bool" where
  "accounted cfg br n ms last_error l out \<longleftrightarrow>
     reported n last_error l out \<and> list_all (admitted_by cfg br l) (called_models l) \<and>
     list_all (\<lambda>m. m \<in> set (called_models l) \<or> skipped_by cfg br l m) (considered ms l out)"

lemmas account_defs = accounted_def reported_def considered_def called_models_def admitted_by_def skipped_by_def

lemma accounted_skip:
  assumes "accounted cfg br1 n ms le l out" "cb_allow cfg br m now = (False, br1)"
  shows "accounted cfg br n (m # ms) le (Reading now # l) out"
proof -
  from assms(2) have skip: "skipped_by cfg br (Reading now # l) m" and br1: "br1 = br(m \<mapsto> cb_slot br m)"
    by (auto simp: cb_allow_def skipped_by_def Let_def not_le split: if_splits)
  then have slot: "cb_slot br1 = cb_slot br" by (auto simp: cb_slot_def fun_eq_iff)
  have "admitted_by cfg br (Reading now # l) k" if "admitted_by cfg br1 l k" for k
    using that by (auto simp: admitted_by_def slot)
  moreover have "skipped_by cfg br (Reading now # l) k" if "skipped_by cfg br1 l k" for k
    using that by (auto simp: skipped_by_def slot)
  ultimately show ?thesis using assms(1) skip
    by (auto simp: accounted_def reported_def considered_def called_models_def list_all_iff
      split: sum.splits route_error.splits)
qed

lemma accounted_failed:
  assumes "accounted cfg (cb_record_failure cfg br1 m now') n ms (Some e) l out" "cb_allow cfg br m now = (True, br1)"
  shows "accounted cfg br n (m # ms) le (Reading now # Called m (Inl (Invocation e)) # Reading now' # l) out"
proof -
  let ?br2 = "cb_record_failure cfg br1 m now'" and ?l = "Reading now # Called m (Inl (Invocation e)) # Reading now' # l"
  have slot: "cb_slot ?br2 k = cb_slot br k" if "k \<noteq> m" for k
    using cb_other(1) [of m k cfg br now] cb_other(3) [of m k cfg br1 now'] that assms(2) by simp
  have m: "admitted_by cfg br ?l m"
    using assms(2) by (cases "br_state (cb_slot br m)") (auto simp: cb_allow_def admitted_by_def Let_def split: if_splits)
  then have adm: "admitted_by cfg br ?l k" if "admitted_by cfg ?br2 l k" for k
    using that slot [of k] by (cases "k = m") (auto simp: admitted_by_def)
  have skip: "skipped_by cfg br ?l k" if "skipped_by cfg ?br2 l k" "k \<noteq> m" for k
    using that slot [of k] by (auto simp: skipped_by_def)
  have "reported n le ?l out"
    using assms(1) by (auto simp: accounted_def reported_def failed_call_def split: sum.splits route_error.splits if_splits)
  moreover have "list_all (admitted_by cfg br ?l) (called_models ?l)"
    using assms(1) m adm by (auto simp: accounted_def called_models_def list_all_iff)
  moreover have "set (considered (m # ms) ?l out) \<subseteq> insert m (set (considered ms l out))"
    using assms(1)
    by (auto simp: accounted_def reported_def considered_def split: sum.splits route_error.splits)
  then have "list_all (\<lambda>k. k \<in> set (called_models ?l) \<or> skipped_by cfg br ?l k) (considered (m # ms) ?l out)"
    using assms(1) skip by (fastforce simp: accounted_def called_models_def list_all_iff)
  ultimately show ?thesis by (simp add: accounted_def)
qed

lemma accounted_last:
  assumes "cb_allow cfg br m now = (True, br1)"
    and "case answer of Inr r \<Rightarrow> out = Inr \<lparr>rt_result = r, rt_model_id = m, rt_fallback = b\<rparr>
       | Inl (Unexpected t) \<Rightarrow> out = Inl (Propagated t) | Inl (Invocation e) \<Rightarrow> False"
  shows "accounted cfg br n (m # ms) le [Reading now, Called m answer] out"
proof -
  have "admitted_by cfg br [Reading now, Called m answer] m"
    using assms(1) by (cases "br_state (cb_slot br m)") (auto simp: cb_allow_def admitted_by_def Let_def split: if_splits)
  with assms(2) show ?thesis
    by (auto simp: accounted_def reported_def considered_def called_models_def split: sum.splits client_error.splits)
qed

locale recording_client =
  fixes client :: "string \<Rightarrow> 'w \<Rightarrow> (client_error + converse_result) \<times> 'w"
    and clock :: "'w \<Rightarrow> py_float \<times> 'w"
    and events :: "'w \<Rightarrow> route_event list"
  assumes events_client: "client m w = (answer, w') \<Longrightarrow> events w' = events w @ [Called m answer]"
    and events_clock: "clock w = (now, w') \<Longrightarrow> events w' = events w @ [Reading now]"
begin

lemma try_candidates_accounted:
  "try_candidates cfg client clock n i ms le br w = (out, br', w') \<Longrightarrow>
     \<exists>l. events w' = events w @ l \<and> accounted cfg br n ms le l out"
proof (induction ms arbitrary: i le br w)
  case Nil
  then show ?case by (auto simp: account_defs split: option.splits)
next
  case (Cons m ms)
  obtain now w1 where clk: "clock w = (now, w1)" by (cases "clock w")
  obtain ok br1 where al: "cb_allow cfg br m now = (ok, br1)" by (cases "cb_allow cfg br m now")
  obtain answer w2 where cl: "client m w1 = (answer, w2)" by (cases "client m w1")
  obtain now' w3 where clk': "clock w2 = (now', w3)" by (cases "clock w2")
  note ev = events_clock [OF clk] events_client [OF cl] events_clock [OF clk']
  consider (skip) "\<not> ok" | (failed) e where ok "answer = Inl (Invocation e)"
    | (last) ok "\<And>e. answer \<noteq> Inl (Invocation e)" by blast
  then show ?case
  proof cases
    case skip
    with Cons.prems clk al have "try_candidates cfg client clock n (Suc i) ms le br1 w1 = (out, br', w')" by simp
    with Cons.IH obtain l where "events w' = events w1 @ l" "accounted cfg br1 n ms le l out" by blast
    with ev al skip accounted_skip show ?thesis by (intro exI [of _ "Reading now # l"]) auto
  next
    case (failed e)
    with Cons.prems clk al cl clk'
    have "try_candidates cfg client clock n (Suc i) ms (Some e) (cb_record_failure cfg br1 m now') w3 = (out, br', w')"
      by simp
    with Cons.IH obtain l where "events w' = events w3 @ l"
      "accounted cfg (cb_record_failure cfg br1 m now') n ms (Some e) l out" by blast
    note l = this
    from al failed have "cb_allow cfg br m now = (True, br1)" by simp
    from accounted_failed [OF l(2) this] l(1) ev failed show ?thesis
      by (intro exI [of _ "Reading now # Called m answer # Reading now' # l"]) simp
  next
    case last
    with Cons.prems clk al cl have "w' = w2 \<and> (case answer of
         Inr r \<Rightarrow> out = Inr \<lparr>rt_result = r, rt_model_id = m, rt_fallback = (0 < i)\<rparr>
       | Inl (Unexpected t) \<Rightarrow> out = Inl (Propagated t) | Inl (Invocation e) \<Rightarrow> False)"
      by (auto split: sum.splits client_error.splits)
    note out = this
    from al last have "cb_allow cfg br m now = (True, br1)" by simp
    from accounted_last [OF this conjunct2 [OF out]] out ev show ?thesis
      by (intro exI [of _ "[Reading now, Called m answer]"]) simp
  qed
qed

end

sublocale recording_client \<subseteq> model_client client clock "\<lambda>w. called_models (events w)"
proof unfold_locales
  show "called_models (events (snd (client m w))) = called_models (events w) @ [m]" for m w
    by (cases "client m w") (simp add: events_client called_models_def)
  show "called_models (events (snd (clock w))) = called_models (events w)" for w
    by (cases "clock w") (simp add: events_clock called_models_def)
qed

section \<open>Any client, with its record kept\<close>

definition recorded_client ::
  "(string \<Rightarrow> 'w \<Rightarrow> (client_error + converse_result) \<times> 'w) \<Rightarrow> string \<Rightarrow> 'w \<times> route_event list \<Rightarrow>
   (client_error + converse_result) \<times> 'w \<times> route_event list" where
  "recorded_client client m = (\<lambda>(w, l). let (r, w') = client m w in (r, (w', l @ [Called m r])))"

definition recorded_clock :: "('w \<Rightarrow> py_float \<times> 'w) \<Rightarrow> 'w \<times> route_event list \<Rightarrow> py_float \<times> 'w \<times> route_event list" where
  "recorded_clock clock = (\<lambda>(w, l). let (t, w') = clock w in (t, (w', l @ [Reading t])))"

interpretation recorded: recording_client "recorded_client client" "recorded_clock clock" snd for client clock
  by unfold_locales (auto simp: recorded_client_def recorded_clock_def split: prod.splits)

text \<open>
  C22: certified fallback. Whatever the client, the clock and the breakers do: the models called are, in
  order and each position at most once, candidates, the primary and then the fallbacks its route set
  lists. Each of them had a breaker that admits, each candidate passed over an open one inside its
  timeout. The outcome is the one of the last call: its result, under the model that gave it, marked a
  fallback unless that is the primary, with every earlier call failed and the model's breaker now closed;
  the error of the last call when every call failed; the exception of the last call when that is not an
  upstream error; and no route available when there was no call at all.
\<close>

theorem router_calls_certified:
  "case router_converse cfg sets (recorded_client client) (recorded_clock clock) p n br (w, []) of
     (out, br', w', l) \<Rightarrow>
       subseq (called_models l) (p # filter (\<lambda>m. m \<noteq> p) (fallbacks_for sets n)) \<and>
       list_all (admitted_by cfg br l) (called_models l) \<and>
       list_all (\<lambda>m. m \<in> set (called_models l) \<or> skipped_by cfg br l m)
         (considered (p # filter (\<lambda>m. m \<noteq> p) (fallbacks_for sets n)) l out) \<and>
       (case out of
          Inr r \<Rightarrow> answers l \<noteq> [] \<and> last (answers l) = (rt_model_id r, Inr (rt_result r)) \<and>
            list_all failed_call (butlast (answers l)) \<and> (rt_fallback r \<longleftrightarrow> rt_model_id r \<noteq> p) \<and>
            br_state (cb_slot br' (rt_model_id r)) = CLOSED \<and> consecutive_failures (cb_slot br' (rt_model_id r)) = 0
        | Inl (Failed e) \<Rightarrow> answers l \<noteq> [] \<and> list_all failed_call (answers l) \<and>
            snd (last (answers l)) = Inl (Invocation e)
        | Inl (Propagated t) \<Rightarrow> answers l \<noteq> [] \<and> list_all failed_call (butlast (answers l)) \<and>
            snd (last (answers l)) = Inl (Unexpected t)
        | Inl (AllRoutesUnavailable n') \<Rightarrow> n' = n \<and> answers l = [])"
proof -
  obtain out br' w' l where c: "router_converse cfg sets (recorded_client client) (recorded_clock clock) p n br (w, []) = (out, br', w', l)"
    by (metis prod_cases4)
  from recorded.router_converse_ok [OF c]
  have ok: "recorded.route_ok 0 (candidates sets p n) None (called_models l) out br'"
    by (auto simp: called_models_def)
  from recorded.try_candidates_accounted [OF c [unfolded router_converse_def]]
  have acc: "accounted cfg br n (candidates sets p n) None l out" by auto
  have fb: "(rt_fallback r \<longleftrightarrow> rt_model_id r \<noteq> p) \<and>
      br_state (cb_slot br' (rt_model_id r)) = CLOSED \<and> consecutive_failures (cb_slot br' (rt_model_id r)) = 0"
    if "out = Inr r" for r
  proof -
    from ok that have s: "recorded.served 0 (candidates sets p n) (called_models l) r br'" by (simp add: recorded.route_ok_def)
    then obtain pre post where pre: "candidates sets p n = pre @ rt_model_id r # post" "rt_fallback r \<longleftrightarrow> pre \<noteq> []"
      by (auto simp: recorded.served_def)
    then have "rt_fallback r \<longleftrightarrow> rt_model_id r \<noteq> p"
      using in_set_conv_decomp [of "rt_model_id r" "filter (\<lambda>m. m \<noteq> p) (fallbacks_for sets n)"]
      by (cases pre) (auto simp: candidates_def)
    with s show ?thesis by (simp add: recorded.served_def)
  qed
  have sub: "subseq (called_models l) (candidates sets p n)" using ok by (simp add: recorded.route_ok_def)
  from sub acc fb show ?thesis unfolding c accounted_def reported_def
    by (simp add: candidates_def split: sum.splits route_error.splits if_splits)
qed

section \<open>Open breakers\<close>

definition shielded :: "breaker_config \<Rightarrow> ('w \<Rightarrow> py_float \<times> 'w) \<Rightarrow> breakers \<Rightarrow> string \<Rightarrow> bool" where
  "shielded cfg clock br m \<longleftrightarrow> br_state (cb_slot br m) = OPEN \<and>
     (\<forall>w. fst (clock w) - opened_at (cb_slot br m) < reset_timeout_s cfg)"

lemma shielded_allow:
  assumes "shielded cfg clock br m" and "clock w = (now, w1)"
  shows "\<exists>br1. cb_allow cfg br m now = (False, br1) \<and> cb_slot br1 = cb_slot br"
proof -
  from assms have "now - opened_at (cb_slot br m) < reset_timeout_s cfg" unfolding shielded_def by (metis fst_conv)
  with assms(1) have "cb_allow cfg br m now = (False, br(m \<mapsto> cb_slot br m))"
    by (simp add: shielded_def cb_allow_def Let_def)
  moreover have "cb_slot (br(m \<mapsto> cb_slot br m)) = cb_slot br" by (auto simp: cb_slot_def fun_eq_iff)
  ultimately show ?thesis by blast
qed

lemma try_shielded:
  "list_all (shielded cfg (recorded_clock clock) br) ms \<Longrightarrow>
     \<exists>br' w' l'. try_candidates cfg (recorded_client client) (recorded_clock clock) n i ms None br (w, l) =
       (Inl (AllRoutesUnavailable n), br', w', l') \<and> called_models l' = called_models l \<and> cb_slot br' = cb_slot br"
proof (induction ms arbitrary: i br w l)
  case (Cons m ms)
  obtain now w1 where clk: "clock w = (now, w1)" by (cases "clock w")
  then have lclk: "recorded_clock clock (w, l) = (now, w1, l @ [Reading now])" by (simp add: recorded_clock_def)
  from Cons.prems shielded_allow [where clock = "recorded_clock clock", OF _ lclk, of cfg br m] obtain br1
    where al: "cb_allow cfg br m now = (False, br1)" and slot: "cb_slot br1 = cb_slot br" by auto
  from Cons.prems slot have "list_all (shielded cfg (recorded_clock clock) br1) ms"
    by (simp add: list_all_iff shielded_def)
  from Cons.IH [OF this, of "i + 1" w1 "l @ [Reading now]"] lclk al slot show ?case by (auto simp: called_models_def)
qed simp

text \<open>
  An open breaker shields its model. When the breaker of every candidate is open and its reset
  window has not passed, no model is called, the request fails with \<open>AllRoutesUnavailableError\<close>, and
  every breaker keeps its state.
\<close>

lemma open_models_not_called:
  assumes "list_all (shielded cfg (recorded_clock clock) br) (candidates sets p n)"
  shows "\<exists>br' w' l. router_converse cfg sets (recorded_client client) (recorded_clock clock) p n br (w, []) =
     (Inl (AllRoutesUnavailable n), br', w', l) \<and> called_models l = [] \<and> cb_slot br' = cb_slot br"
  using try_shielded [OF assms, where l = "[]"] by (simp add: router_converse_def called_models_def)

lemma open_models_not_called_witness:
  "\<exists>br' w' l. router_converse \<lparr>failure_threshold = 5, reset_timeout_s = 30\<rparr> Map.empty
       (recorded_client (\<lambda>m w. (Inl (Unexpected ''down''), w))) (recorded_clock (\<lambda>w. (9, w))) ''m'' None
       [''m'' \<mapsto> \<lparr>br_state = OPEN, consecutive_failures = 5, opened_at = 7\<rparr>] ((), []) =
     (Inl (AllRoutesUnavailable None), br', w', l) \<and> called_models l = [] \<and>
     cb_slot br' = cb_slot [''m'' \<mapsto> \<lparr>br_state = OPEN, consecutive_failures = 5, opened_at = 7\<rparr>]"
  by (rule open_models_not_called)
    (simp add: candidates_def fallbacks_for_def shielded_def recorded_clock_def cb_slot_def split: prod.split)

section \<open>The certified sets\<close>

text \<open>
  every route set comes from the file, under its own name, with the primary and the fallbacks
  its entry lists: the router can certify no other model.
\<close>

theorem route_sets_certified:
  assumes "load_route_sets document = Inr sets" and "sets name = Some rs"
  shows "\<exists>raw items cfg. document = JObj raw \<and> dict_get raw ''route_sets'' = JObj items \<and>
     (name, cfg) \<in> set items \<and> load_route_set (name, cfg) = Inr rs"
proof -
  from assms(1) obtain raw items entries where raw: "as_dict (or_empty document) = Inr raw"
    and items: "as_dict (or_empty (dict_get raw ''route_sets'')) = Inr items"
    and entries: "map_r load_route_set items = Inr entries"
    and sets: "sets = map_of (rev (map (\<lambda>e. (rset_name e, e)) entries))"
    by (auto simp: load_route_sets_def bind_r_Inr_iff)
  from assms(2) sets have "rs \<in> set entries" "rset_name rs = name" by (auto dest!: map_of_SomeD)
  moreover from entries have "list_all2 (\<lambda>x y. load_route_set x = Inr y) items entries" by (simp add: map_r_Inr_iff)
  ultimately obtain nc where nc: "nc \<in> set items" "load_route_set nc = Inr rs"
    unfolding list_all2_conv_all_nth by (metis in_set_conv_nth)
  moreover obtain nm cfg where "nc = (nm, cfg)" by (cases nc)
  moreover from nc calculation have "nm = name" using \<open>rset_name rs = name\<close>
    by (auto simp: load_route_set_def bind_r_Inr_iff)
  moreover have "items \<noteq> []" using nc by auto
  then have "dict_get raw ''route_sets'' = JObj items"
    using items by (cases "dict_get raw ''route_sets''") (auto simp: or_empty_def split: if_splits)
  moreover from this have "raw \<noteq> []" by (auto simp: dict_get_def)
  then have "document = JObj raw"
    using raw by (cases document) (auto simp: or_empty_def split: if_splits)
  ultimately show ?thesis by blast
qed

definition sample_routes :: json where
  "sample_routes = JObj [(''route_sets'', JObj [(''gold'', JObj
     [(''primary'', JStr ''a''), (''fallbacks'', JArr [JStr ''b''])])])]"

lemma route_sets_certified_witness:
  "\<exists>raw items cfg. sample_routes = JObj raw \<and> dict_get raw ''route_sets'' = JObj items \<and>
     (''gold'', cfg) \<in> set items \<and> load_route_set (''gold'', cfg) = Inr \<lparr>rset_name = ''gold'', primary = ''a'', fallbacks = [''b'']\<rparr>"
  by (rule route_sets_certified [of _ "[''gold'' \<mapsto> \<lparr>rset_name = ''gold'', primary = ''a'', fallbacks = [''b'']\<rparr>]"])
    (simp_all add: load_route_sets_def sample_routes_def or_empty_def dict_get_def load_route_set_def dict_get_default_def)

end
