(* ===== verification/Json_Text.thy ===== *)
theory Json_Text
  imports Prelude "HOL-Library.Char_ord" "HOL-Library.List_Lexorder"
begin

text \<open>
  \<open>json.dumps\<close> of the standard library, with \<open>ensure_ascii\<close> as the source always leaves it: the
  text of a value for given separators, and the sorting of members that \<open>sort_keys=True\<close> does.
  Floats are exact rationals here, so \<open>float.__repr__\<close> is a parameter; \<open>float_text\<close> states what
  Python documents of it (it reads back as the same float, and it is a number token with a point or an
  exponent). The main theorem: the text determines the value.
\<close>

section \<open>The text of a value\<close>

definition esc_char :: "char \<Rightarrow> string" where
  "esc_char c =
     (if code c = 34 \<or> code c = 92 then [CHR 0x5C, c]
      else if code c = 10 then [CHR 0x5C, CHR ''n'']
      else if code c = 13 then [CHR 0x5C, CHR ''r'']
      else if code c = 9 then [CHR 0x5C, CHR ''t'']
      else if code c = 12 then [CHR 0x5C, CHR ''f'']
      else if code c = 8 then [CHR 0x5C, CHR ''b'']
      else if code c < 32 \<or> 126 < code c then [CHR 0x5C] @ ''u00'' @ hex2 (code c)
      else [c])"

definition dquote :: char where "dquote = CHR 0x22"

definition json_str :: "string \<Rightarrow> string" where
  "json_str s = [dquote] @ concat (map esc_char s) @ [dquote]"

text \<open>\<open>isep\<close> and \<open>ksep\<close>: the item and the key separator; a key separator follows each member's key.\<close>

fun dumps :: "(py_float \<Rightarrow> string) \<Rightarrow> string \<Rightarrow> string \<Rightarrow> json \<Rightarrow> string" where
  "dumps fr isep ksep JNull = ''null''"
| "dumps fr isep ksep (JBool b) = (if b then ''true'' else ''false'')"
| "dumps fr isep ksep (JInt i) = int_dec i"
| "dumps fr isep ksep (JFloat x) = fr x"
| "dumps fr isep ksep (JStr s) = json_str s"
| "dumps fr isep ksep (JArr vs) = ''['' @ join isep (map (dumps fr isep ksep) vs) @ '']''"
| "dumps fr isep ksep (JObj kvs) =
     ''{'' @ join isep (map (\<lambda>(k, v). json_str k @ ksep @ dumps fr isep ksep v) kvs) @ ''}''"

text \<open>\<open>sort_keys=True\<close>: members in the order of their keys, at every level.\<close>

fun sort_keys :: "json \<Rightarrow> json" where
  "sort_keys (JArr vs) = JArr (map sort_keys vs)"
| "sort_keys (JObj kvs) = JObj (sort_key fst (map (\<lambda>(k, v). (k, sort_keys v)) kvs))"
| "sort_keys v = v"

abbreviation dumps_default :: "(py_float \<Rightarrow> string) \<Rightarrow> json \<Rightarrow> string" where
  "dumps_default fr \<equiv> dumps fr '', '' '': ''"

definition dumps_canonical :: "(py_float \<Rightarrow> string) \<Rightarrow> json \<Rightarrow> string" where
  "dumps_canonical fr v = dumps fr '','' '':'' (sort_keys v)"

section \<open>What is assumed of the text of floats\<close>

definition num_char :: "char \<Rightarrow> bool" where
  "num_char c \<longleftrightarrow> is_digit c \<or> c \<in> set ''-+.e''"

definition float_text :: "(py_float \<Rightarrow> string) \<Rightarrow> bool" where
  "float_text fr \<longleftrightarrow> inj fr \<and>
     (\<forall>x. list_all num_char (fr x) \<and> fr x \<noteq> [] \<and> (CHR ''.'' \<in> set (fr x) \<or> CHR ''e'' \<in> set (fr x)))"

section \<open>Strings are self-delimiting\<close>

text \<open>Reading one escape back, the inverse the proofs use.\<close>

definition unhex :: "char \<Rightarrow> nat" where
  "unhex c = (if code c < 58 then code c - 48 else code c - 87)"

fun unesc :: "string \<Rightarrow> char \<times> string" where
  "unesc (c # t # s) =
     (if code c \<noteq> 92 then (c, t # s)
      else if code t = 110 then (char_of (10 :: nat), s)
      else if code t = 114 then (char_of (13 :: nat), s)
      else if code t = 116 then (char_of (9 :: nat), s)
      else if code t = 102 then (char_of (12 :: nat), s)
      else if code t = 98 then (char_of (8 :: nat), s)
      else if code t = 117 then (char_of (16 * unhex (s ! 2) + unhex (s ! 3)), drop 4 s)
      else (t, s))"
| "unesc s = (hd s, tl s)"

lemma unhex_hex_digit [simp]: "d < 16 \<Longrightarrow> unhex (hex_digit d) = d"
  by (simp add: unhex_def hex_digit_def)

lemma code_less_256: "code c < 256"
  by simp

lemma code_div_16: "code c div 16 < 16"
  using code_less_256 [of c] by (intro less_mult_imp_div_less) simp

lemma unhex_code: "16 * unhex (hex_digit (code c div 16 mod 16)) + unhex (hex_digit (code c mod 16)) = code c"
  using code_div_16 [of c] by simp

lemma code_inject: "code c = n \<Longrightarrow> code d = n \<Longrightarrow> c = d"
  by (metis char_of_char)

lemma char_of_code: "code c = n \<Longrightarrow> char_of n = c"
  by auto

lemma unesc_plain: "code c \<noteq> 92 \<Longrightarrow> unesc (c # x) = (c, x)"
  by (cases x) auto

lemma unesc_esc_char [simp]: "unesc (esc_char c @ x) = (c, x)"
proof -
  consider "code c = 34" | "code c = 92" | "code c = 10" | "code c = 13" | "code c = 9" | "code c = 12" | "code c = 8"
    | "code c < 32 \<or> 126 < code c" "code c \<notin> {8, 9, 10, 12, 13, 34, 92}"
    | "\<not> (code c < 32 \<or> 126 < code c)" "code c \<notin> {8, 9, 10, 12, 13, 34, 92}" by auto
  then show ?thesis
  proof cases
    case 1
    then have "c = char_of (34 :: nat)" by (simp add: char_of_code)
    then show ?thesis by (simp add: esc_char_def)
  next
    case 2
    then have "c = CHR 0x5C" by (intro code_inject [of c 92]) simp_all
    then show ?thesis by (simp add: esc_char_def)
  next
    case 8
    then have "esc_char c = [CHR 0x5C] @ ''u00'' @ hex2 (code c)" by (simp add: esc_char_def)
    then show ?thesis by (simp add: hex2_def unhex_code del: unhex_hex_digit)
  next
    case 9
    then show ?thesis by (simp add: esc_char_def unesc_plain)
  qed (simp_all add: esc_char_def char_of_code)
qed

lemma esc_char_append: "esc_char c @ x = esc_char d @ y \<Longrightarrow> c = d \<and> x = y"
  by (metis unesc_esc_char Pair_inject)

lemma esc_char_first: "esc_char c \<noteq> [] \<and> hd (esc_char c) \<noteq> dquote"
  by (auto simp: esc_char_def dquote_def)

lemma escaped_append:
  "concat (map esc_char s) @ dquote # x = concat (map esc_char t) @ dquote # y \<Longrightarrow> s = t \<and> x = y"
proof (induction s arbitrary: t)
  case Nil
  then show ?case
    using esc_char_first [of "hd t"] by (cases t) (auto simp: Cons_eq_append_conv neq_Nil_conv)
next
  case (Cons c s)
  show ?case
  proof (cases t)
    case Nil
    with Cons.prems esc_char_first [of c] show ?thesis by (auto simp: append_eq_Cons_conv)
  next
    case (Cons d t')
    with Cons.prems have "esc_char c @ concat (map esc_char s) @ dquote # x = esc_char d @ concat (map esc_char t') @ dquote # y"
      by simp
    from esc_char_append [OF this] Cons.IH Cons show ?thesis by simp
  qed
qed

lemma json_str_append: "json_str s @ x = json_str t @ y \<Longrightarrow> s = t \<and> x = y"
  using escaped_append [of s x t y] by (simp add: json_str_def)

section \<open>The text determines the value\<close>

text \<open>What may follow a value: nothing, or a character that no number contains.\<close>

definition stops :: "string \<Rightarrow> bool" where
  "stops r \<longleftrightarrow> r = [] \<or> \<not> num_char (hd r)"

lemma stops_simps [simp]: "stops []" "stops (c # r) \<longleftrightarrow> \<not> num_char c"
  by (simp_all add: stops_def)

lemma join_Cons: "join sep (x # xs) = x @ concat (map (\<lambda>y. sep @ y) xs)"
  by (induction xs arbitrary: x) auto

lemma rest_inject:
  assumes elem: "\<And>x y r s. x \<in> set xs \<Longrightarrow> stops r \<Longrightarrow> stops s \<Longrightarrow> f x @ r = f y @ s \<Longrightarrow> x = y \<and> r = s"
    and chars: "\<not> num_char c" "\<not> num_char d" "c \<noteq> d"
  shows "concat (map (\<lambda>x. (c # sep) @ f x) xs) @ d # r = concat (map (\<lambda>x. (c # sep) @ f x) ys) @ d # s \<Longrightarrow>
     xs = ys \<and> r = s"
  using elem
proof (induction xs arbitrary: ys)
  case Nil
  with chars show ?case by (cases ys) auto
next
  case (Cons x xs)
  have st: "stops (concat (map (\<lambda>x. (c # sep) @ f x) zs) @ d # q)" for zs q
    using chars by (cases zs) auto
  from Cons.prems(1) chars obtain y ys' where ys: "ys = y # ys'" by (cases ys) auto
  with Cons.prems(1) have "f x @ concat (map (\<lambda>x. (c # sep) @ f x) xs) @ d # r =
      f y @ concat (map (\<lambda>x. (c # sep) @ f x) ys') @ d # s" by simp
  from Cons.prems(2) [OF _ st st this] have "x = y"
    "concat (map (\<lambda>x. (c # sep) @ f x) xs) @ d # r = concat (map (\<lambda>x. (c # sep) @ f x) ys') @ d # s" by auto
  with Cons.IH [OF this(2)] Cons.prems(2) ys show ?case by auto
qed

lemma join_inject:
  assumes elem: "\<And>x y r s. x \<in> set xs \<Longrightarrow> stops r \<Longrightarrow> stops s \<Longrightarrow> f x @ r = f y @ s \<Longrightarrow> x = y \<and> r = s"
    and first: "\<And>x. f x \<noteq> [] \<and> hd (f x) \<noteq> d"
    and chars: "\<not> num_char c" "\<not> num_char d" "c \<noteq> d"
    and eq: "join (c # sep) (map f xs) @ d # r = join (c # sep) (map f ys) @ d # s"
  shows "xs = ys \<and> r = s"
proof -
  have nd: "f x @ q \<noteq> d # q'" for x q q'
    using first [of x] by (cases "f x") auto
  show ?thesis
  proof (cases xs)
    case Nil
    with eq nd show ?thesis by (cases ys) (auto simp: join_Cons dest: sym)
  next
    case (Cons x xs')
    with eq nd obtain y ys' where ys: "ys = y # ys'" by (cases ys) (auto simp: join_Cons)
    have st: "stops (concat (map (\<lambda>x. (c # sep) @ f x) zs) @ d # q)" for zs q
      using chars by (cases zs) auto
    from eq Cons ys have "f x @ concat (map (\<lambda>x. (c # sep) @ f x) xs') @ d # r =
        f y @ concat (map (\<lambda>x. (c # sep) @ f x) ys') @ d # s"
      by (simp add: join_Cons comp_def)
    from elem [OF _ st st this] Cons have xy: "x = y" and
      tl: "concat (map (\<lambda>x. (c # sep) @ f x) xs') @ d # r = concat (map (\<lambda>x. (c # sep) @ f x) ys') @ d # s"
      by auto
    have "xs' = ys' \<and> r = s"
      using tl by (rule rest_inject [rotated 4]) (use elem Cons chars in auto)
    with xy Cons ys show ?thesis by simp
  qed
qed

fun first_char :: "json \<Rightarrow> char option" where
  "first_char JNull = Some (CHR ''n'')"
| "first_char (JBool b) = Some (if b then CHR ''t'' else CHR ''f'')"
| "first_char (JInt i) = None"
| "first_char (JFloat x) = None"
| "first_char (JStr s) = Some dquote"
| "first_char (JArr vs) = Some (CHR ''['')"
| "first_char (JObj kvs) = Some (CHR ''{'')"

lemma num_char_int_dec: "list_all num_char (int_dec i)"
  by (auto simp: list_all_iff num_char_def dest!: set_int_dec)

lemma point_notin_int_dec: "CHR ''.'' \<notin> set (int_dec i)" "CHR ''e'' \<notin> set (int_dec i)"
  using set_int_dec [of "CHR ''.''" i] set_int_dec [of "CHR ''e''" i] by (auto simp: is_digit_def)

lemma float_textD:
  assumes "float_text fr"
  shows "fr x = fr y \<Longrightarrow> x = y" "list_all num_char (fr x)" "fr x \<noteq> []" "fr x \<noteq> int_dec i"
  using assms point_notin_int_dec [of i] unfolding float_text_def by (auto dest: injD) (metis+)

lemma first_char_Some:
  "first_char v = Some c \<Longrightarrow> dumps fr isep ksep v \<noteq> [] \<and> hd (dumps fr isep ksep v) = c \<and> \<not> num_char c"
  by (cases v) (auto simp: json_str_def num_char_def is_digit_def dquote_def)

lemma first_char_None:
  assumes "float_text fr" "first_char v = None"
  shows "list_all num_char (dumps fr isep ksep v) \<and> dumps fr isep ksep v \<noteq> []"
  using assms float_textD [OF assms(1)] by (cases v) (auto simp: num_char_int_dec)

lemma dumps_first:
  assumes "float_text fr" "\<not> num_char d" "d \<notin> {CHR ''n'', CHR ''t'', CHR ''f'', dquote, CHR ''['', CHR ''{''}"
  shows "dumps fr isep ksep v \<noteq> [] \<and> hd (dumps fr isep ksep v) \<noteq> d"
proof (cases "first_char v")
  case None
  with first_char_None [OF assms(1) None, of isep ksep] assms(2) show ?thesis
    by (cases "dumps fr isep ksep v") auto
next
  case (Some c)
  moreover from Some have "c \<in> {CHR ''n'', CHR ''t'', CHR ''f'', dquote, CHR ''['', CHR ''{''}"
    by (cases v) (auto split: if_splits)
  ultimately show ?thesis using first_char_Some [of v c fr isep ksep] assms(3) by auto
qed

lemma number_append:
  assumes "list_all num_char u" "list_all num_char v" "stops r" "stops s" "u @ r = v @ s"
  shows "u = v \<and> r = s"
proof -
  have "takeWhile num_char (w @ q) = w" if "list_all num_char w" "stops q" for w q
    using that by (cases q) (auto simp: takeWhile_append list_all_iff)
  with assms have "u = v" by metis
  with assms(5) show ?thesis by simp
qed

lemma same_first_char:
  assumes "float_text fr" "stops r" "dumps fr isep ksep v @ r = dumps fr isep ksep w @ s"
  shows "first_char v = first_char w"
proof (cases "first_char v"; cases "first_char w")
  fix c assume "first_char v = None" "first_char w = Some c"
  with first_char_None [OF assms(1), of v isep ksep] first_char_Some [of w c fr isep ksep] assms(3) show ?thesis
    by (cases "dumps fr isep ksep v"; cases "dumps fr isep ksep w") auto
next
  fix c assume "first_char v = Some c" "first_char w = None"
  with first_char_None [OF assms(1), of w isep ksep] first_char_Some [of v c fr isep ksep] assms(3) show ?thesis
    by (cases "dumps fr isep ksep v"; cases "dumps fr isep ksep w") auto
next
  fix c d assume "first_char v = Some c" "first_char w = Some d"
  with first_char_Some [of w d fr isep ksep] first_char_Some [of v c fr isep ksep] assms(3) show ?thesis
    by (cases "dumps fr isep ksep v"; cases "dumps fr isep ksep w") auto
qed simp

lemma number_inject:
  assumes "float_text fr" "first_char v = None" "first_char w = None" "stops r" "stops s"
    "dumps fr isep ksep v @ r = dumps fr isep ksep w @ s"
  shows "v = w \<and> r = s"
proof -
  have "dumps fr isep ksep v = dumps fr isep ksep w \<and> r = s"
    using assms first_char_None [OF assms(1), of v isep ksep] first_char_None [OF assms(1), of w isep ksep]
    by (intro number_append) auto
  then show ?thesis
    using assms(2, 3) float_textD [OF assms(1)] by (cases v; cases w) (auto split: if_splits, metis+)
qed

lemma dumps_append:
  assumes fr: "float_text fr" and isep: "isep = CHR '','' # sep"
  shows "stops r \<Longrightarrow> stops s \<Longrightarrow> dumps fr isep ksep v @ r = dumps fr isep ksep w @ s \<Longrightarrow> v = w \<and> r = s"
proof (induction v arbitrary: w r s)
  case JNull
  with same_first_char [OF fr JNull.prems(1, 3)] show ?case by (cases w) (auto simp: dquote_def split: if_splits)
next
  case (JBool b)
  with same_first_char [OF fr JBool.prems(1, 3)] show ?case by (cases w) (auto simp: dquote_def split: if_splits)
next
  case (JInt i)
  with same_first_char [OF fr JInt.prems(1, 3)] number_inject [OF fr _ _ JInt.prems] show ?case by auto
next
  case (JFloat x)
  with same_first_char [OF fr JFloat.prems(1, 3)] number_inject [OF fr _ _ JFloat.prems] show ?case by auto
next
  case (JStr t)
  with same_first_char [OF fr JStr.prems(1, 3)] obtain u where w: "w = JStr u"
    by (cases w) (auto simp: dquote_def split: if_splits)
  with JStr.prems(3) json_str_append [of t r u s] show ?case by simp
next
  case (JArr vs)
  with same_first_char [OF fr JArr.prems(1, 3)] obtain ws where w: "w = JArr ws"
    by (cases w) (auto simp: dquote_def split: if_splits)
  have "vs = ws \<and> r = s"
  proof (rule join_inject [where f = "dumps fr isep ksep" and d = "CHR '']''" and c = "CHR '',''" and sep = sep])
    show "join (CHR '','' # sep) (map (dumps fr isep ksep) vs) @ CHR '']'' # r =
        join (CHR '','' # sep) (map (dumps fr isep ksep) ws) @ CHR '']'' # s"
      using JArr.prems(3) by (simp add: w isep)
  qed (use JArr.IH dumps_first [OF fr, of "CHR '']''"] in \<open>auto simp: num_char_def is_digit_def dquote_def\<close>)
  with w show ?case by simp
next
  case (JObj kvs)
  with same_first_char [OF fr JObj.prems(1, 3)] obtain kws where w: "w = JObj kws"
    by (cases w) (auto simp: dquote_def split: if_splits)
  let ?f = "\<lambda>(k, v). json_str k @ ksep @ dumps fr isep ksep v"
  have "kvs = kws \<and> r = s"
  proof (rule join_inject [where f = ?f and d = "CHR ''}''" and c = "CHR '',''" and sep = sep])
    show "join (CHR '','' # sep) (map ?f kvs) @ CHR ''}'' # r = join (CHR '','' # sep) (map ?f kws) @ CHR ''}'' # s"
      using JObj.prems(3) by (simp add: w isep)
    show "x = y \<and> r = s" if "x \<in> set kvs" "stops r" "stops s" "?f x @ r = ?f y @ s" for x y r s
    proof -
      obtain k v k' v' where xy: "x = (k, v)" "y = (k', v')" by (cases x, cases y)
      with that(4) json_str_append [of k "ksep @ dumps fr isep ksep v @ r" k' "ksep @ dumps fr isep ksep v' @ s"]
      have "k = k'" "dumps fr isep ksep v @ r = dumps fr isep ksep v' @ s" by auto
      with JObj.IH [of "(k, v)" v r s v'] that xy show ?thesis by auto
    qed
  qed (auto simp: num_char_def is_digit_def dquote_def json_str_def)
  with w show ?case by simp
qed

lemma dumps_inject:
  assumes "float_text fr" "dumps fr (CHR '','' # sep) ksep v = dumps fr (CHR '','' # sep) ksep w"
  shows "v = w"
  using dumps_append [OF assms(1) refl, of "[]" "[]" sep ksep v w] assms(2) by simp

lemma dumps_canonical_inject:
  "float_text fr \<Longrightarrow> dumps_canonical fr v = dumps_canonical fr w \<Longrightarrow> sort_keys v = sort_keys w"
  unfolding dumps_canonical_def by (rule dumps_inject)

text \<open>Sorting the members of an object keeps what each key holds.\<close>

lemma map_of_sort_key: "distinct (map fst kvs) \<Longrightarrow> map_of (sort_key fst kvs) = map_of kvs"
  by (rule map_of_inject_set [THEN iffD2]) (simp_all add: distinct_map)

lemma sort_keys_member:
  assumes "distinct (map fst kvs)" "distinct (map fst kws)" "sort_keys (JObj kvs) = sort_keys (JObj kws)"
  shows "map_option sort_keys (map_of kvs k) = map_option sort_keys (map_of kws k)"
proof -
  have m: "map_of (sort_key fst (map (\<lambda>(k, v). (k, sort_keys v)) d)) k = map_option sort_keys (map_of d k)"
    if "distinct (map fst d)" for d :: "(string \<times> json) list"
  proof -
    have "map fst (map (\<lambda>(k, v). (k, sort_keys v)) d) = map fst d" by auto
    with that show ?thesis by (simp only: map_of_sort_key map_of_map comp_apply)
  qed
  from assms(3) m [OF assms(1)] m [OF assms(2)] show ?thesis by simp
qed

text \<open>An instance of the float assumption: numerator and denominator.\<close>

definition fraction_text :: "py_float \<Rightarrow> string" where
  "fraction_text x = int_dec (fst (quotient_of x)) @ ''.e'' @ nat_dec (nat (snd (quotient_of x)))"

lemma fraction_text: "float_text fraction_text"
proof -
  have inj: "x = y" if eq: "fraction_text x = fraction_text y" for x y
  proof -
    have "CHR ''.'' \<notin> set (int_dec i)" "CHR ''.'' \<notin> set (''e'' @ nat_dec n)" for i n
      using point_notin_int_dec set_nat_dec [of "CHR ''.''" n] by (auto simp: is_digit_def)
    from append_Cons_eq_iff [OF this] eq
    have "int_dec (fst (quotient_of x)) = int_dec (fst (quotient_of y)) \<and>
        nat_dec (nat (snd (quotient_of x))) = nat_dec (nat (snd (quotient_of y)))"
      by (auto simp: fraction_text_def)
    then have "fst (quotient_of x) = fst (quotient_of y)" "snd (quotient_of x) = snd (quotient_of y)"
      using quotient_of_denom_pos' [of x] quotient_of_denom_pos' [of y] by auto
    then show ?thesis by (metis prod.collapse quotient_of_inject)
  qed
  have "list_all num_char (nat_dec n)" for n
    by (auto simp: list_all_iff num_char_def dest: set_nat_dec)
  then show ?thesis
    using inj num_char_int_dec unfolding float_text_def inj_def by (auto simp: fraction_text_def num_char_def)
qed

end
