(* ===== verification/Telemetry.thy ===== *)
theory Telemetry
  imports Json_Text Policy_Store
begin

text \<open>
  \<open>telemetry/\<close>: the cost estimate (\<open>cost.py\<close>), the latency flag (\<open>slo.py\<close>), span attributes
  (\<open>otel.py\<close>) and the structured log line (\<open>logging.py\<close>). Arithmetic is exact, with the rounding to
  six digits the source asks for. A Python \<open>None\<close> passed as an attribute or a field is \<open>JNull\<close>.
\<close>

section \<open>cost.py\<close>

record model_pricing =
  input_per_1k :: py_float
  output_per_1k :: py_float

type_synonym pricing = "string \<rightharpoonup> model_pricing"

definition DEFAULT_PRICING :: pricing where
  "DEFAULT_PRICING = map_of
     [(''us.amazon.nova-micro-v1:0'', \<lparr>input_per_1k = 35 / 1000000, output_per_1k = 14 / 100000\<rparr>),
      (''us.amazon.nova-lite-v1:0'', \<lparr>input_per_1k = 6 / 100000, output_per_1k = 24 / 100000\<rparr>),
      (''us.amazon.nova-pro-v1:0'', \<lparr>input_per_1k = 8 / 10000, output_per_1k = 32 / 10000\<rparr>),
      (''anthropic.claude-3-5-sonnet-20241022-v2:0'', \<lparr>input_per_1k = 3 / 1000, output_per_1k = 15 / 1000\<rparr>),
      (''anthropic.claude-3-haiku-20240307-v1:0'', \<lparr>input_per_1k = 25 / 100000, output_per_1k = 125 / 100000\<rparr>)]"

definition FALLBACK_PRICING :: model_pricing where
  "FALLBACK_PRICING = \<lparr>input_per_1k = 3 / 1000, output_per_1k = 15 / 1000\<rparr>"

definition rates_for :: "pricing option \<Rightarrow> string \<Rightarrow> model_pricing" where
  "rates_for pricing model_id =
     (let table = (case pricing of Some t \<Rightarrow> t | None \<Rightarrow> DEFAULT_PRICING) in
      case table model_id of None \<Rightarrow> FALLBACK_PRICING | Some r \<Rightarrow> r)"

definition exact_cost :: "model_pricing \<Rightarrow> int \<Rightarrow> int \<Rightarrow> py_float" where
  "exact_cost rates input_tokens output_tokens =
     of_int input_tokens / 1000 * input_per_1k rates + of_int output_tokens / 1000 * output_per_1k rates"

definition estimate_cost :: "pricing option \<Rightarrow> string \<Rightarrow> int \<Rightarrow> int \<Rightarrow> py_float" where
  "estimate_cost pricing model_id input_tokens output_tokens =
     py_round (exact_cost (rates_for pricing model_id) input_tokens output_tokens) 6"

section \<open>slo.py\<close>

definition slo_breached :: "tenant_policy \<Rightarrow> py_float \<Rightarrow> bool" where
  "slo_breached policy latency_ms =
     (case slo_p95_latency_ms policy of None \<Rightarrow> False | Some threshold \<Rightarrow> threshold < latency_ms)"

section \<open>otel.py: span attributes\<close>

type_synonym span_attributes = "(string \<times> json) list"

definition set_span_attributes :: "(string \<times> json) list \<Rightarrow> span_attributes \<Rightarrow> span_attributes" where
  "set_span_attributes attributes sp =
     fold (\<lambda>(key, v) sp. if v = JNull then sp else AList.update key v sp) attributes sp"

text \<open>
  \<open>configure_tracing\<close>: the provider that was installed, if any, as its service name and exporter; the
  result is the name of the tracer. Only the first call installs a provider.
\<close>

datatype exporter = ConsoleSpanExporter | OTLPSpanExporter string

type_synonym tracing = "(string \<times> exporter) option"

definition configure_tracing :: "string \<Rightarrow> string option \<Rightarrow> tracing \<Rightarrow> string \<times> tracing" where
  "configure_tracing service_name otlp_endpoint provider =
     (service_name,
      case provider of
        None \<Rightarrow>
          Some (service_name,
            case otlp_endpoint of
              None \<Rightarrow> ConsoleSpanExporter
            | Some endpoint \<Rightarrow> if endpoint = [] then ConsoleSpanExporter else OTLPSpanExporter endpoint)
      | Some installed \<Rightarrow> Some installed)"

lemma configure_tracing_once:
  "snd (configure_tracing n' e' (snd (configure_tracing n e provider))) = snd (configure_tracing n e provider)"
  by (simp add: configure_tracing_def split: option.split)

section \<open>logging.py\<close>

text \<open>
  \<open>configure_logging\<close>: the root logger's level and handlers and the levels of named loggers. \<open>setLevel\<close> of a
  level that \<open>logging\<close> does not know raises ValueError. \<open>upper_char\<close> leaves the three letters whose upper case is
  not one Latin-1 character as they are; no level's name holds them.
\<close>

datatype handler = GatewayStreamHandler | OtherHandler string

record logging_state =
  root_level :: string
  root_handlers :: "handler list"
  logger_levels :: "string \<rightharpoonup> string"

definition upper_char :: "char \<Rightarrow> char" where
  "upper_char c =
     (if is_lower_ascii c \<or> (224 \<le> code c \<and> code c \<le> 254 \<and> code c \<noteq> 247) then char_of (code c - 32) else c)"

definition check_level :: "string \<Rightarrow> py_exn + string" where
  "check_level level =
     (let l = map upper_char level in
      if List.member [''CRITICAL'', ''FATAL'', ''ERROR'', ''WARN'', ''WARNING'', ''INFO'', ''DEBUG'', ''NOTSET''] l then Inr l
      else Inl ValueError)"

text \<open>The gateway's own handler is replaced, not added.\<close>

definition configure_handlers :: "handler list \<Rightarrow> handler list" where
  "configure_handlers hs = filter (\<lambda>h. h \<noteq> GatewayStreamHandler) hs @ [GatewayStreamHandler]"

definition configure_logging :: "string \<Rightarrow> string \<Rightarrow> logging_state \<Rightarrow> py_exn + logging_state" where
  "configure_logging service_name level st =
     bind_r (check_level level) (\<lambda>l.
     Inr (st\<lparr>root_level := l, root_handlers := configure_handlers (root_handlers st),
            logger_levels := (logger_levels st)(service_name \<mapsto> l)\<rparr>))"

lemma configure_logging_idempotent:
  "configure_logging name level st = Inr st' \<Longrightarrow> configure_logging name level st' = Inr st'"
  by (auto simp: configure_logging_def configure_handlers_def bind_r_def split: sum.splits)

lemma configure_logging_one_handler:
  "configure_logging name level st = Inr st' \<Longrightarrow>
     length (filter (\<lambda>h. h = GatewayStreamHandler) (root_handlers st')) = 1"
  by (auto simp: configure_logging_def configure_handlers_def bind_r_def split: sum.splits)

text \<open>What \<open>log_event\<close> hands to the logger.\<close>

record log_record =
  lg_logger :: string
  lg_level :: string
  lg_message :: string
  lg_request_id :: json
  lg_error :: json
  lg_fields :: "(string \<times> json) list"

definition RESERVED_LOGRECORD_KEYS :: "string list" where
  "RESERVED_LOGRECORD_KEYS =
     [''name'', ''msg'', ''args'', ''levelname'', ''levelno'', ''pathname'', ''filename'',
      ''module'', ''exc_info'', ''exc_text'', ''stack_info'', ''lineno'', ''funcName'',
      ''created'', ''msecs'', ''relativeCreated'', ''thread'', ''threadName'',
      ''processName'', ''process'', ''message'', ''taskName'']"

definition log_event ::
  "string \<Rightarrow> string \<Rightarrow> string \<Rightarrow> json \<Rightarrow> json \<Rightarrow> (string \<times> json) list \<Rightarrow> log_record" where
  "log_event logger level message request_id err extra =
     \<lparr>lg_logger = logger, lg_level = level, lg_message = message, lg_request_id = request_id,
      lg_error = err, lg_fields = extra\<rparr>"

text \<open>\<open>time.gmtime\<close> and \<open>strftime\<close>: the proleptic Gregorian date of a day number since 1970-01-01.\<close>

definition civil_date :: "int \<Rightarrow> int \<times> int \<times> int" where
  "civil_date days =
     (let z = days + 719468; era = z div 146097; doe = z mod 146097;
          yoe = (doe - doe div 1460 + doe div 36524 - doe div 146096) div 365;
          doy = doe - (365 * yoe + yoe div 4 - yoe div 100);
          mp = (5 * doy + 2) div 153;
          d = doy - (153 * mp + 2) div 5 + 1;
          m = (if mp < 10 then mp + 3 else mp - 9)
      in (yoe + era * 400 + (if m \<le> 2 then 1 else 0), m, d))"

definition pad :: "nat \<Rightarrow> int \<Rightarrow> string" where
  "pad w i = (let s = int_dec i in replicate (w - length s) (CHR ''0'') @ s)"

definition iso_ts :: "py_float \<Rightarrow> string" where
  "iso_ts epoch_seconds =
     (let secs = \<lfloor>epoch_seconds\<rfloor>; (y, m, d) = civil_date (secs div 86400); s = secs mod 86400;
          ms = \<lfloor>(epoch_seconds - of_int secs) * 1000\<rfloor>
      in int_dec y @ ''-'' @ pad 2 m @ ''-'' @ pad 2 d @ ''T'' @
         pad 2 (s div 3600) @ '':'' @ pad 2 (s div 60 mod 60) @ '':'' @ pad 2 (s mod 60) @
         ''.'' @ pad 3 ms @ ''Z'')"

text \<open>
  The formatter's dict: the fields the record was given (without reserved and private names), after
  the four leading members, then the message, then the error if there is one.
\<close>

definition kept_fields :: "(string \<times> json) list \<Rightarrow> (string \<times> json) list" where
  "kept_fields extra =
     filter (\<lambda>(k, v). \<not> List.member RESERVED_LOGRECORD_KEYS k \<and> \<not> prefix ''_'' k) extra"

definition format_members :: "py_float \<Rightarrow> log_record \<Rightarrow> (string \<times> json) list" where
  "format_members created r =
     (let ordered = [(''ts'', JStr (iso_ts created)), (''level'', JStr (lg_level r)), (''logger'', JStr (lg_logger r)),
                     (''request_id'', lg_request_id r)];
          ordered = fold (\<lambda>(k, v) d. AList.update k v d) (kept_fields (lg_fields r)) ordered;
          ordered = AList.update ''message'' (JStr (lg_message r)) ordered
      in if lg_error r = JNull then ordered else AList.update ''error'' (lg_error r) ordered)"

definition json_formatter :: "(py_float \<Rightarrow> string) \<Rightarrow> py_float \<Rightarrow> log_record \<Rightarrow> string" where
  "json_formatter fr created r = dumps_default fr (JObj (format_members created r))"

section \<open>Properties\<close>

lemma exact_cost_mono:
  assumes "0 \<le> input_per_1k r" "0 \<le> output_per_1k r" "i \<le> i'" "j \<le> j'"
  shows "exact_cost r i j \<le> exact_cost r i' j'"
  unfolding exact_cost_def using assms by (intro add_mono mult_right_mono divide_right_mono) simp_all

lemma default_rates_nonneg:
  "0 \<le> input_per_1k (rates_for None m) \<and> 0 \<le> output_per_1k (rates_for None m)"
  by (auto simp: rates_for_def DEFAULT_PRICING_def FALLBACK_PRICING_def Let_def)

text \<open>
  the cost estimate is within half a millionth of the exact price, and a model that is not in the
  table is charged the fallback rates, so that it is never free once it used a token.
\<close>

theorem estimate_cost_spec:
  "\<bar>estimate_cost pricing m i j - exact_cost (rates_for pricing m) i j\<bar> \<le> 1 / 2000000 \<and>
   (m \<notin> dom DEFAULT_PRICING \<and> 0 \<le> i \<and> 0 \<le> j \<and> 0 < i + j \<longrightarrow> 0 < estimate_cost None m i j)"
proof (intro conjI impI)
  show "\<bar>estimate_cost pricing m i j - exact_cost (rates_for pricing m) i j\<bar> \<le> 1 / 2000000"
    using py_round_error [of "exact_cost (rates_for pricing m) i j" 6] by (simp add: estimate_cost_def)
next
  assume a: "m \<notin> dom DEFAULT_PRICING \<and> 0 \<le> i \<and> 0 \<le> j \<and> 0 < i + j"
  then have r: "rates_for None m = FALLBACK_PRICING" by (auto simp: rates_for_def Let_def split: option.split)
  from a consider "1 \<le> i" "0 \<le> j" | "0 \<le> i" "1 \<le> j" by linarith
  then have "3 / 1000000 \<le> exact_cost FALLBACK_PRICING i j"
  proof cases
    case 1
    then have "exact_cost FALLBACK_PRICING 1 0 \<le> exact_cost FALLBACK_PRICING i j"
      by (intro exact_cost_mono) (simp_all add: FALLBACK_PRICING_def)
    then show ?thesis by (simp add: exact_cost_def FALLBACK_PRICING_def)
  next
    case 2
    then have "exact_cost FALLBACK_PRICING 0 1 \<le> exact_cost FALLBACK_PRICING i j"
      by (intro exact_cost_mono) (simp_all add: FALLBACK_PRICING_def)
    then show ?thesis by (simp add: exact_cost_def FALLBACK_PRICING_def)
  qed
  then have "py_round (3 / 1000000) 6 \<le> estimate_cost None m i j"
    unfolding estimate_cost_def r by (rule py_round_mono)
  moreover have "py_round (3 / 1000000) 6 = (3 / 1000000 :: rat)"
    by (simp add: py_round_def round_half_even_def)
  ultimately show "0 < estimate_cost None m i j" by simp
qed

lemma estimate_cost_spec_witness: "0 < estimate_cost None ''new-model'' 1 0"
  using estimate_cost_spec [of None "''new-model''" 1 0] by (simp add: DEFAULT_PRICING_def)

lemma update_new: "k \<notin> fst ` set d \<Longrightarrow> AList.update k v d = d @ [(k, v)]"
  by (induction d) auto

lemma fold_update_new:
  "distinct (map fst (d @ es)) \<Longrightarrow> fold (\<lambda>(k, v) d. AList.update k v d) es d = d @ es"
proof (induction es arbitrary: d)
  case (Cons e es)
  then show ?case by (cases e) (auto simp: update_new)
qed simp

text \<open>
  the promised order of a log line: time, level, logger, request id, then the event's own fields in
  the order given, then the message, and the error exactly when one was passed; provided the event's
  fields are distinct and do not reuse those names.
\<close>

theorem log_line_order:
  assumes "distinct ([''ts'', ''level'', ''logger'', ''request_id'', ''message'', ''error''] @ map fst (kept_fields (lg_fields r)))"
  shows "format_members created r =
     [(''ts'', JStr (iso_ts created)), (''level'', JStr (lg_level r)), (''logger'', JStr (lg_logger r)),
      (''request_id'', lg_request_id r)] @ kept_fields (lg_fields r) @ [(''message'', JStr (lg_message r))] @
     (if lg_error r = JNull then [] else [(''error'', lg_error r)])"
proof -
  have "fold (\<lambda>(k, v) d. AList.update k v d) (kept_fields (lg_fields r))
      [(''ts'', JStr (iso_ts created)), (''level'', JStr (lg_level r)), (''logger'', JStr (lg_logger r)),
       (''request_id'', lg_request_id r)] =
    [(''ts'', JStr (iso_ts created)), (''level'', JStr (lg_level r)), (''logger'', JStr (lg_logger r)),
       (''request_id'', lg_request_id r)] @ kept_fields (lg_fields r)"
    by (rule fold_update_new) (use assms in auto)
  with assms show ?thesis unfolding format_members_def Let_def by (auto simp: update_new)
qed

lemma log_line_order_witness:
  "map fst (format_members 0 (log_event ''gateway.chat'' ''ERROR'' ''chat request failed'' (JStr ''r1'') (JStr ''boom'')
     [(''model'', JStr ''m''), (''status'', JInt 502)])) =
     [''ts'', ''level'', ''logger'', ''request_id'', ''model'', ''status'', ''message'', ''error'']"
  by (subst log_line_order) (simp_all add: log_event_def kept_fields_def RESERVED_LOGRECORD_KEYS_def)

end
