(* ===== verification/Streaming.thy ===== *)
theory Streaming
  imports Router Telemetry
begin

text \<open>
  \<open>streaming.py\<close>: the SSE generator. It can be left at any of its suspension points, each \<open>yield\<close> and each
  \<open>await is_disconnected()\<close>: there the server may throw \<open>CancelledError\<close> or \<open>GeneratorExit\<close> into it, which
  no \<open>except\<close> clause of the generator catches. So a generator is a function of its cancellation budget, the
  number of suspension points it gets past before that happens (\<open>None\<close>: never), to the actions it performs
  in order, its outcome, and the budget left. \<open>gen_bind\<close>, \<open>gen_except\<close> and \<open>gen_finally\<close> are Python's
  sequencing, \<open>try/except BedrockInvocationError\<close> and \<open>try/finally\<close>. The chunk iterator is its chunks and
  the exception it ends with, if any; \<open>dropped i\<close> is the answer of the i-th \<open>is_disconnected()\<close>. The model
  starts when the server first asks for a frame: a generator that was never started runs nothing.
\<close>

datatype stream_action =
    Yield string
  | RecordSuccess
  | RecordFailure
  | Close
  | Log log_record
  | Raise string

definition newline :: string where "newline = [CHR 0x0A]"

definition sse :: "(py_float \<Rightarrow> string) \<Rightarrow> json \<Rightarrow> string option \<Rightarrow> string" where
  "sse fr data event =
     join newline
       ((case event of None \<Rightarrow> [] | Some e \<Rightarrow> if e = [] then [] else [''event: '' @ e]) @
        [''data: '' @ dumps_default fr data]) @ newline @ newline"

text \<open>The ways a generator's code ends, and the code itself.\<close>

datatype stream_exn = Error client_error | Cancelled

datatype 'a outcome = Returns 'a | Raises stream_exn

type_synonym 'a gen = "nat option \<Rightarrow> stream_action list \<times> 'a outcome \<times> nat option"

definition gen_return :: "'a \<Rightarrow> 'a gen" where
  "gen_return x c = ([], Returns x, c)"

definition gen_raise :: "stream_exn \<Rightarrow> 'a gen" where
  "gen_raise e c = ([], Raises e, c)"

definition gen_do :: "stream_action \<Rightarrow> unit gen" where
  "gen_do a c = ([a], Returns (), c)"

text \<open>A suspension point: what it hands to the server is out, then it may be the last one.\<close>

definition gen_wait :: "stream_action list \<Rightarrow> unit gen" where
  "gen_wait out c =
     (case c of
        None \<Rightarrow> (out, Returns (), None)
      | Some 0 \<Rightarrow> (out, Raises Cancelled, None)
      | Some (Suc k) \<Rightarrow> (out, Returns (), Some k))"

definition gen_yield :: "string \<Rightarrow> unit gen" where
  "gen_yield f = gen_wait [Yield f]"

definition gen_bind :: "'a gen \<Rightarrow> ('a \<Rightarrow> 'b gen) \<Rightarrow> 'b gen" where
  "gen_bind m f c =
     (case m c of
        (acts, Returns x, c) \<Rightarrow> (case f x c of (acts', r, c) \<Rightarrow> (acts @ acts', r, c))
      | (acts, Raises e, c) \<Rightarrow> (acts, Raises e, c))"

definition gen_except :: "'a gen \<Rightarrow> (invocation_error \<Rightarrow> 'a gen) \<Rightarrow> 'a gen" where
  "gen_except m handler c =
     (case m c of
        (acts, Raises (Error (Invocation exc)), c) \<Rightarrow> (case handler exc c of (acts', r, c) \<Rightarrow> (acts @ acts', r, c))
      | result \<Rightarrow> result)"

definition gen_finally :: "'a gen \<Rightarrow> unit gen \<Rightarrow> 'a gen" where
  "gen_finally m cleanup c =
     (case m c of
        (acts, r, c) \<Rightarrow>
          (case cleanup c of
             (acts', Returns _, c) \<Rightarrow> (acts @ acts', r, c)
           | (acts', Raises e, c) \<Rightarrow> (acts @ acts', Raises e, c)))"

text \<open>
  The \<open>for\<close> loop. Its locals \<open>aborted\<close>, \<open>generated_chunks\<close> and \<open>final\<close> are its result; a loop that was
  aborted stops reading, so the iterator's exception, which comes after its last chunk, is not met.
\<close>

fun stream_loop ::
  "(py_float \<Rightarrow> string) \<Rightarrow> (nat \<Rightarrow> bool) \<Rightarrow> nat \<Rightarrow> stream_chunk list \<Rightarrow> client_error option \<Rightarrow> nat \<Rightarrow> stream_chunk option \<Rightarrow>
   (bool \<times> nat \<times> stream_chunk option) gen" where
  "stream_loop fr dropped i [] ended generated final =
     (case ended of None \<Rightarrow> gen_return (False, generated, final) | Some e \<Rightarrow> gen_raise (Error e))"
| "stream_loop fr dropped i (chunk # chunks) ended generated final =
     gen_bind (gen_wait []) (\<lambda>_.
       if dropped i then gen_return (True, generated, final)
       else
         (let final' = (if is_final chunk then Some chunk else final) in
          if text_delta chunk \<noteq> [] then
            gen_bind (gen_yield (sse fr (JObj [(''delta'', JStr (text_delta chunk))]) None))
              (\<lambda>_. stream_loop fr dropped (i + 1) chunks ended (generated + 1) final')
          else stream_loop fr dropped (i + 1) chunks ended generated final'))"

definition done_frame :: "bool \<Rightarrow> stream_chunk option \<Rightarrow> json" where
  "done_frame aborted final = JObj
     [(''done'', JBool True), (''aborted'', JBool aborted),
      (''stop_reason'', case final of None \<Rightarrow> JNull | Some c \<Rightarrow> opt_str (chunk_stop_reason c)),
      (''usage'', JObj
         [(''input_tokens'', case final of None \<Rightarrow> JNull | Some c \<Rightarrow> opt_int (chunk_input_tokens c)),
          (''output_tokens'', case final of None \<Rightarrow> JNull | Some c \<Rightarrow> opt_int (chunk_output_tokens c))])]"

definition error_frame :: "invocation_error \<Rightarrow> string \<Rightarrow> json" where
  "error_frame exc request_id = JObj
     [(''error'', JObj [(''code'', JStr ''UPSTREAM_ERROR''), (''message'', JStr (inv_message exc)),
                        (''request_id'', JStr request_id)])]"

record stream_env =
  se_model :: string
  se_request_id :: string
  se_tenant :: json
  se_duration_ms :: py_float

text \<open>The \<open>except\<close> block; its \<open>return\<close> leaves the generator, which is the result \<open>None\<close>.\<close>

definition upstream_failed :: "(py_float \<Rightarrow> string) \<Rightarrow> stream_env \<Rightarrow> invocation_error \<Rightarrow> 'a option gen" where
  "upstream_failed fr env exc =
     gen_bind (gen_do RecordFailure) (\<lambda>_.
     gen_bind (gen_yield (sse fr (error_frame exc (se_request_id env)) None)) (\<lambda>_.
     gen_bind (gen_yield (sse fr (JObj []) (Some ''done''))) (\<lambda>_.
     gen_bind (gen_do (Log (log_event ''gateway.chat.stream'' ''ERROR'' ''chat stream failed'' (JStr (se_request_id env))
                  (JStr (inv_message exc)) [(''model'', JStr (se_model env)), (''tenant_id'', se_tenant env)]))) (\<lambda>_.
     gen_return None))))"

text \<open>What follows the \<open>try\<close> statement.\<close>

definition stream_completed :: "(py_float \<Rightarrow> string) \<Rightarrow> stream_env \<Rightarrow> bool \<Rightarrow> nat \<Rightarrow> stream_chunk option \<Rightarrow> unit gen" where
  "stream_completed fr env aborted generated final =
     gen_bind (if aborted then gen_return () else gen_do RecordSuccess) (\<lambda>_.
     gen_bind (gen_yield (sse fr (done_frame aborted final) None)) (\<lambda>_.
     gen_do (Log (log_event ''gateway.chat.stream'' ''INFO'' ''chat stream completed'' (JStr (se_request_id env)) JNull
                  [(''model'', JStr (se_model env)), (''tenant_id'', se_tenant env),
                   (''client_disconnected'', JBool aborted), (''generated_chunks'', JInt (int generated)),
                   (''stream_duration_ms'', JFloat (se_duration_ms env)), (''status'', JInt 200)]))))"

definition stream_chat_response ::
  "(py_float \<Rightarrow> string) \<Rightarrow> (nat \<Rightarrow> bool) \<Rightarrow> stream_env \<Rightarrow> stream_chunk list \<Rightarrow> client_error option \<Rightarrow> unit gen" where
  "stream_chat_response fr dropped env chunks ended =
     gen_bind
       (gen_finally
         (gen_except
           (gen_bind (stream_loop fr dropped 0 chunks ended 0 None) (\<lambda>vars. gen_return (Some vars)))
           (upstream_failed fr env))
         (gen_do Close))
       (\<lambda>vars. case vars of
          None \<Rightarrow> gen_return ()
        | Some (aborted, generated, final) \<Rightarrow> stream_completed fr env aborted generated final)"

text \<open>The run under a cancellation budget: its actions, then the error that leaves the generator, if one does.\<close>

definition stream_actions ::
  "(py_float \<Rightarrow> string) \<Rightarrow> (nat \<Rightarrow> bool) \<Rightarrow> stream_env \<Rightarrow> stream_chunk list \<Rightarrow> client_error option \<Rightarrow> nat option \<Rightarrow>
   stream_action list" where
  "stream_actions fr dropped env chunks ended cancel =
     (case stream_chat_response fr dropped env chunks ended cancel of
        (acts, Raises (Error (Unexpected t)), _) \<Rightarrow> acts @ [Raise t]
      | (acts, Raises (Error (Invocation exc)), _) \<Rightarrow> acts @ [Raise ''BedrockInvocationError'']
      | (acts, _, _) \<Rightarrow> acts)"

text \<open>The effect of the actions on the breakers, for the clock reading of a failure.\<close>

fun breaker_effect :: "breaker_config \<Rightarrow> string \<Rightarrow> py_float \<Rightarrow> stream_action \<Rightarrow> breakers \<Rightarrow> breakers" where
  "breaker_effect cfg m now RecordSuccess br = cb_record_success br m"
| "breaker_effect cfg m now RecordFailure br = cb_record_failure cfg br m now"
| "breaker_effect cfg m now _ br = br"

definition breakers_after :: "breaker_config \<Rightarrow> string \<Rightarrow> py_float \<Rightarrow> stream_action list \<Rightarrow> breakers \<Rightarrow> breakers" where
  "breakers_after cfg m now acts br = fold (breaker_effect cfg m now) acts br"

section \<open>Properties\<close>

fun is_yield :: "stream_action \<Rightarrow> bool" where
  "is_yield (Yield f) = True"
| "is_yield _ = False"

fun frames :: "stream_action list \<Rightarrow> string list" where
  "frames [] = []"
| "frames (Yield f # acts) = f # frames acts"
| "frames (_ # acts) = frames acts"

lemma frames_append [simp]: "frames (xs @ ys) = frames xs @ frames ys"
proof (induction xs)
  case (Cons x xs)
  then show ?case by (cases x) auto
qed simp

lemmas gen_simps = gen_return_def gen_raise_def gen_do_def gen_yield_def gen_wait_def

subsection \<open>Closing\<close>

text \<open>The number of \<open>Close\<close>s of a piece of code, the same for every budget and every way of ending.\<close>

definition closes :: "'a gen \<Rightarrow> nat \<Rightarrow> bool" where
  "closes m n \<longleftrightarrow> (\<forall>c. count_list (fst (m c)) Close = n)"

named_theorems closes_intros

lemma closes_base [closes_intros]:
  "closes (gen_return x) 0" "closes (gen_raise e) 0" "closes (gen_do Close) 1"
  "a \<noteq> Close \<Longrightarrow> closes (gen_do a) 0" "closes (gen_yield f) 0" "closes (gen_wait []) 0"
  by (auto simp: closes_def gen_simps split: option.split nat.split)

lemma closes_bind [closes_intros]:
  assumes "closes m n" "\<And>x. closes (f x) 0"
  shows "closes (gen_bind m f) n"
proof -
  have "count_list (fst (gen_bind m f c)) Close = n" for c
  proof -
    obtain acts r c1 where m: "m c = (acts, r, c1)" by (metis prod_cases3)
    from assms(1) m have n: "count_list acts Close = n" unfolding closes_def by (metis fst_conv)
    show ?thesis
    proof (cases r)
      case (Returns x)
      obtain acts1 r1 c2 where f: "f x c1 = (acts1, r1, c2)" by (metis prod_cases3)
      from assms(2) f have "count_list acts1 Close = 0" unfolding closes_def by (metis fst_conv)
      with m n f Returns show ?thesis by (simp add: gen_bind_def)
    next
      case (Raises e)
      with m n show ?thesis by (simp add: gen_bind_def)
    qed
  qed
  then show ?thesis by (simp add: closes_def)
qed

lemma closes_except [closes_intros]:
  assumes "closes m n" "\<And>e. closes (h e) 0"
  shows "closes (gen_except m h) n"
proof -
  have "count_list (fst (gen_except m h c)) Close = n" for c
  proof -
    obtain acts r c1 where m: "m c = (acts, r, c1)" by (metis prod_cases3)
    from assms(1) m have n: "count_list acts Close = n" unfolding closes_def by (metis fst_conv)
    have h: "count_list (fst (h e c1)) Close = 0" for e using assms(2) by (simp add: closes_def)
    with m n show ?thesis
      by (auto simp: gen_except_def split_beta split: outcome.split stream_exn.split client_error.split)
  qed
  then show ?thesis by (simp add: closes_def)
qed

lemma closes_finally [closes_intros]:
  assumes "closes m a" "closes cleanup b"
  shows "closes (gen_finally m cleanup) (a + b)"
proof -
  have "count_list (fst (gen_finally m cleanup c)) Close = a + b" for c
  proof -
    obtain acts r c1 where m: "m c = (acts, r, c1)" by (metis prod_cases3)
    obtain acts1 r1 c2 where f: "cleanup c1 = (acts1, r1, c2)" by (metis prod_cases3)
    from assms(1) m have "count_list acts Close = a" unfolding closes_def by (metis fst_conv)
    moreover from assms(2) f have "count_list acts1 Close = b" unfolding closes_def by (metis fst_conv)
    ultimately show ?thesis using m f by (simp add: gen_finally_def split: outcome.split)
  qed
  then show ?thesis by (simp add: closes_def)
qed

lemma closes_loop [closes_intros]: "closes (stream_loop fr dropped i chunks ended g f) 0"
proof (induction chunks arbitrary: i g f)
  case Nil
  show ?case by (auto intro: closes_intros split: option.split)
next
  case (Cons c chunks)
  then show ?case by (auto simp: Let_def intro!: closes_intros)
qed

lemma closes_stream: "closes (stream_chat_response fr dropped env chunks ended) 1"
proof -
  have "closes (upstream_failed fr env exc) 0" for exc
    by (auto simp: upstream_failed_def intro!: closes_intros)
  moreover have "closes (stream_completed fr env ab g f) 0" for ab g f
    by (auto simp: stream_completed_def intro!: closes_intros)
  ultimately have "closes (stream_chat_response fr dropped env chunks ended) (0 + 1)"
    unfolding stream_chat_response_def
    by (intro closes_bind closes_finally closes_except closes_intros) (auto intro: closes_intros split: option.split)
  then show ?thesis by simp
qed

definition closes_once :: "stream_action list \<Rightarrow> bool" where
  "closes_once acts \<longleftrightarrow> count_list acts Close = 1"

lemma actions_close: "closes_once (stream_actions fr dropped env chunks ended cancel)"
proof -
  obtain acts r c where m: "stream_chat_response fr dropped env chunks ended cancel = (acts, r, c)" by (metis prod_cases3)
  from closes_stream m have "count_list acts Close = 1" unfolding closes_def by (metis fst_conv)
  with m show ?thesis
    by (auto simp: stream_actions_def closes_once_def split: outcome.split stream_exn.split client_error.split)
qed

subsection \<open>What a cancelled run has sent\<close>

text \<open>
  A run under a budget either gets through, like the run that is not cancelled, or is cancelled after a
  part of its frames.
\<close>

definition cut_at :: "'a gen \<Rightarrow> stream_action list \<Rightarrow> 'a outcome \<Rightarrow> nat \<Rightarrow> bool" where
  "cut_at m acts0 r0 k \<longleftrightarrow>
     (\<exists>k'. m (Some k) = (acts0, r0, Some k')) \<or>
     (\<exists>acts. m (Some k) = (acts, Raises Cancelled, None) \<and> prefix (frames acts) (frames acts0))"

definition cuts :: "'a gen \<Rightarrow> bool" where
  "cuts m \<longleftrightarrow> (\<exists>acts0 r0. m None = (acts0, r0, None) \<and> r0 \<noteq> Raises Cancelled \<and> (\<forall>k. cut_at m acts0 r0 k))"

named_theorems cuts_intros

lemma cutsE:
  assumes "cuts m"
  obtains acts0 r0 where "m None = (acts0, r0, None)" "r0 \<noteq> Raises Cancelled" "\<And>k. cut_at m acts0 r0 k"
  using assms unfolding cuts_def by blast

lemma cutsI:
  assumes "m None = (acts0, r0, None)" "r0 \<noteq> Raises Cancelled" "\<And>k. cut_at m acts0 r0 k"
  shows "cuts m"
  using assms unfolding cuts_def by blast

lemma cut_atE [consumes 1, case_names through cut]:
  assumes "cut_at m acts0 r0 k"
  obtains k' where "m (Some k) = (acts0, r0, Some k')"
    | acts where "m (Some k) = (acts, Raises Cancelled, None)" "prefix (frames acts) (frames acts0)"
  using assms unfolding cut_at_def by blast

lemma cuts_base [cuts_intros]:
  "cuts (gen_return x)" "cuts (gen_raise (Error e))" "cuts (gen_do a)" "cuts (gen_wait out)" "cuts (gen_yield f)"
  by (auto simp: cuts_def cut_at_def gen_simps split: nat.split)

lemma cuts_bind [cuts_intros]:
  assumes "cuts m" "\<And>x. cuts (f x)"
  shows "cuts (gen_bind m f)"
proof -
  obtain acts0 r0 where n: "m None = (acts0, r0, None)" "r0 \<noteq> Raises Cancelled" and k: "\<And>k. cut_at m acts0 r0 k"
    by (rule cutsE [OF assms(1)]) (rule that)
  show ?thesis
  proof (cases r0)
    case (Returns x)
    obtain acts1 r1 where f: "f x None = (acts1, r1, None)" "r1 \<noteq> Raises Cancelled" and fk: "\<And>k. cut_at (f x) acts1 r1 k"
      by (rule cutsE [OF assms(2) [of x]]) (rule that)
    have "cut_at (gen_bind m f) (acts0 @ acts1) r1 k" for k
      using k [of k]
    proof (cases rule: cut_atE)
      case (through k')
      with fk [of k'] Returns show ?thesis by (auto simp: gen_bind_def cut_at_def)
    qed (auto simp: gen_bind_def cut_at_def)
    then show ?thesis by (intro cutsI [of _ "acts0 @ acts1" r1]) (use n f Returns in \<open>simp_all add: gen_bind_def\<close>)
  next
    case (Raises e)
    have "cut_at (gen_bind m f) acts0 (Raises e) k" for k
      using k [of k] Raises by (cases rule: cut_atE) (auto simp: gen_bind_def cut_at_def)
    then show ?thesis by (intro cutsI [of _ acts0 "Raises e"]) (use n Raises in \<open>simp_all add: gen_bind_def\<close>)
  qed
qed

lemma cuts_except [cuts_intros]:
  assumes "cuts m" "\<And>e. cuts (h e)"
  shows "cuts (gen_except m h)"
proof -
  obtain acts0 r0 where n: "m None = (acts0, r0, None)" "r0 \<noteq> Raises Cancelled" and k: "\<And>k. cut_at m acts0 r0 k"
    by (rule cutsE [OF assms(1)]) (rule that)
  show ?thesis
  proof (cases "\<exists>e. r0 = Raises (Error (Invocation e))")
    case True
    then obtain x where r0: "r0 = Raises (Error (Invocation x))" ..
    obtain acts1 r1 where f: "h x None = (acts1, r1, None)" "r1 \<noteq> Raises Cancelled" and fk: "\<And>k. cut_at (h x) acts1 r1 k"
      by (rule cutsE [OF assms(2) [of x]]) (rule that)
    have "cut_at (gen_except m h) (acts0 @ acts1) r1 k" for k
      using k [of k]
    proof (cases rule: cut_atE)
      case (through k')
      with fk [of k'] r0 show ?thesis by (auto simp: gen_except_def cut_at_def)
    qed (auto simp: gen_except_def cut_at_def)
    then show ?thesis by (intro cutsI [of _ "acts0 @ acts1" r1]) (use n f r0 in \<open>simp_all add: gen_except_def\<close>)
  next
    case False
    then have same: "gen_except m h c = (acts, r0, c')" if "m c = (acts, r0, c')" for c c' acts
      using that by (simp add: gen_except_def split: outcome.split stream_exn.split client_error.split)
    have "cut_at (gen_except m h) acts0 r0 k" for k
      using k [of k]
    proof (cases rule: cut_atE)
      case (through k')
      with same show ?thesis by (auto simp: cut_at_def)
    qed (auto simp: gen_except_def cut_at_def)
    with same n show ?thesis by (intro cutsI [of _ acts0 r0])
  qed
qed

lemma cuts_finally [cuts_intros]:
  assumes "cuts m" "\<not> is_yield a"
  shows "cuts (gen_finally m (gen_do a))"
proof -
  from assms(2) have a: "frames [a] = []" by (cases a) auto
  obtain acts0 r0 where n: "m None = (acts0, r0, None)" "r0 \<noteq> Raises Cancelled" and k: "\<And>k. cut_at m acts0 r0 k"
    by (rule cutsE [OF assms(1)]) (rule that)
  have "cut_at (gen_finally m (gen_do a)) (acts0 @ [a]) r0 k" for k
    using k [of k] a by (cases rule: cut_atE) (auto simp: gen_finally_def gen_do_def cut_at_def)
  with n show ?thesis
    by (intro cutsI [of _ "acts0 @ [a]" r0]) (simp_all add: gen_finally_def gen_do_def)
qed

lemma cuts_loop [cuts_intros]: "cuts (stream_loop fr dropped i chunks ended g f)"
proof (induction chunks arbitrary: i g f)
  case Nil
  show ?case by (auto intro: cuts_intros split: option.split)
next
  case (Cons c chunks)
  then show ?case by (auto simp: Let_def intro!: cuts_intros)
qed

lemma cuts_stream: "cuts (stream_chat_response fr dropped env chunks ended)"
proof -
  have "cuts (upstream_failed fr env exc)" for exc
    by (auto simp: upstream_failed_def intro!: cuts_intros)
  moreover have "cuts (stream_completed fr env ab g f)" for ab g f
    by (auto simp: stream_completed_def intro!: cuts_intros)
  ultimately show ?thesis
    unfolding stream_chat_response_def by (auto intro!: cuts_intros split: option.split)
qed

lemma cut_frames:
  "prefix (frames (stream_actions fr dropped env chunks ended cancel)) (frames (stream_actions fr dropped env chunks ended None))"
proof (cases cancel)
  case (Some k)
  obtain acts0 r0 where n: "stream_chat_response fr dropped env chunks ended None = (acts0, r0, None)"
    and k: "\<And>k. cut_at (stream_chat_response fr dropped env chunks ended) acts0 r0 k"
    by (rule cutsE [OF cuts_stream [of fr dropped env chunks ended]]) (rule that)
  from k [of k] n Some show ?thesis
    by (cases rule: cut_atE)
      (auto simp: stream_actions_def split: outcome.split stream_exn.split client_error.split)
qed simp

text \<open>
  C24: cancellation always reaches the model stream, and what was sent before it stands. Whether the
  generator runs to its end, stops because the client disconnected, ends with an error, or is left at any
  of its suspension points because the server cancels it there, the chunk iterator is closed, exactly
  once; and the client got the first frames of what the run that is not cancelled sends.
\<close>

theorem stream_always_closed:
  "closes_once (stream_actions fr dropped env chunks ended cancel) \<and>
   prefix (frames (stream_actions fr dropped env chunks ended cancel))
     (frames (stream_actions fr dropped env chunks ended None))"
  by (simp add: actions_close cut_frames)

subsection \<open>The loop\<close>

text \<open>The text that reached the client: one frame per text chunk, up to the drop.\<close>

definition delta_frame :: "(py_float \<Rightarrow> string) \<Rightarrow> string \<Rightarrow> string" where
  "delta_frame fr t = sse fr (JObj [(''delta'', JStr t)]) None"

fun before_drop :: "(nat \<Rightarrow> bool) \<Rightarrow> nat \<Rightarrow> stream_chunk list \<Rightarrow> stream_chunk list" where
  "before_drop dropped i [] = []"
| "before_drop dropped i (c # chunks) = (if dropped i then [] else c # before_drop dropped (i + 1) chunks)"

definition delivered :: "(nat \<Rightarrow> bool) \<Rightarrow> stream_chunk list \<Rightarrow> string list" where
  "delivered dropped chunks = filter (\<lambda>t. t \<noteq> []) (map text_delta (before_drop dropped 0 chunks))"

text \<open>The suspension points of the loop: a poll per chunk read and a yield per text chunk, up to the drop.\<close>

fun loop_suspensions :: "(nat \<Rightarrow> bool) \<Rightarrow> nat \<Rightarrow> stream_chunk list \<Rightarrow> nat" where
  "loop_suspensions dropped i [] = 0"
| "loop_suspensions dropped i (c # chunks) =
     (if dropped i then 1 else (if text_delta c \<noteq> [] then 2 else 1) + loop_suspensions dropped (i + 1) chunks)"

definition cancelled_in_loop :: "nat option \<Rightarrow> (nat \<Rightarrow> bool) \<Rightarrow> stream_chunk list \<Rightarrow> bool" where
  "cancelled_in_loop cancel dropped chunks =
     (case cancel of None \<Rightarrow> False | Some k \<Rightarrow> k < loop_suspensions dropped 0 chunks)"

lemma loop_none:
  "\<exists>g' f'. stream_loop fr dropped i chunks ended g f None =
     (map (\<lambda>t. Yield (delta_frame fr t)) (filter (\<lambda>t. t \<noteq> []) (map text_delta (before_drop dropped i chunks))),
      if list_ex dropped [i..<i + length chunks] then Returns (True, g', f')
      else (case ended of None \<Rightarrow> Returns (False, g', f') | Some e \<Rightarrow> Raises (Error e)), None)"
proof (induction chunks arbitrary: i g f)
  case Nil
  show ?case by (simp add: gen_simps split: option.split)
next
  case (Cons c chunks)
  have r: "[i..<i + length (c # chunks)] = i # [i + 1..<i + 1 + length chunks]"
    by (simp add: upt_rec)
  show ?case
  proof (cases "dropped i")
    case True
    then show ?thesis unfolding r by (simp add: gen_bind_def gen_simps)
  next
    case False
    let ?f = "if is_final c then Some c else f"
    obtain g' f' where "stream_loop fr dropped (i + 1) chunks ended (if text_delta c \<noteq> [] then g + 1 else g) ?f None =
     (map (\<lambda>t. Yield (delta_frame fr t)) (filter (\<lambda>t. t \<noteq> []) (map text_delta (before_drop dropped (i + 1) chunks))),
      if list_ex dropped [i + 1..<i + 1 + length chunks] then Returns (True, g', f')
      else (case ended of None \<Rightarrow> Returns (False, g', f') | Some e \<Rightarrow> Raises (Error e)), None)"
      using Cons.IH by blast
    with False show ?thesis unfolding r
      by (cases "text_delta c = []"; intro exI [of _ g'] exI [of _ f'])
        (simp_all add: gen_bind_def gen_simps Let_def delta_frame_def)
  qed
qed

lemma loop_some:
  "if k < loop_suspensions dropped i chunks
   then \<exists>acts. stream_loop fr dropped i chunks ended g f (Some k) = (acts, Raises Cancelled, None) \<and> list_all is_yield acts
   else stream_loop fr dropped i chunks ended g f (Some k) =
     (fst (stream_loop fr dropped i chunks ended g f None), fst (snd (stream_loop fr dropped i chunks ended g f None)),
      Some (k - loop_suspensions dropped i chunks))"
proof (induction chunks arbitrary: i g f k)
  case Nil
  show ?case by (simp add: gen_simps split: option.split)
next
  case (Cons c chunks)
  note IH = Cons.IH [of _ "i + 1"]
  let ?f = "if is_final c then Some c else f"
  show ?case
  proof (cases "dropped i")
    case True
    then show ?thesis by (cases k) (simp_all add: gen_bind_def gen_simps)
  next
    case False
    note running = False
    show ?thesis
    proof (cases "text_delta c = []")
      case True
      with running IH [of "k - 1" g ?f] show ?thesis
        by (cases k) (auto simp: gen_bind_def gen_simps split: prod.split outcome.split if_splits)
    next
      case False
      with running IH [of "k - 2" "g + 1" ?f] show ?thesis
        by (cases k; cases "k - 1")
          (auto simp: gen_bind_def gen_simps split: prod.split outcome.split if_splits)
    qed
  qed
qed

subsection \<open>The whole generator, from what the loop did\<close>

text \<open>An action that tells the breaker nothing.\<close>

definition silent :: "stream_action \<Rightarrow> bool" where
  "silent a \<longleftrightarrow> a \<noteq> RecordSuccess \<and> a \<noteq> RecordFailure"

lemma silent_simps [simp]:
  "silent (Yield f)" "silent Close" "silent (Log r)" "silent (Raise t)"
  "\<not> silent RecordSuccess" "\<not> silent RecordFailure"
  by (simp_all add: silent_def)

lemma yields_silent: "list_all is_yield acts \<Longrightarrow> list_all silent acts"
proof (induction acts)
  case (Cons a acts)
  then show ?case by (cases a) auto
qed simp

lemma silent_no_effect: "list_all silent acts \<Longrightarrow> breakers_after cfg m now acts br = br"
  unfolding breakers_after_def
proof (induction acts)
  case (Cons a acts)
  then show ?case by (cases a) (auto simp: silent_def)
qed simp

lemma effect_append: "breakers_after cfg m now (xs @ ys) br = breakers_after cfg m now ys (breakers_after cfg m now xs br)"
  by (simp add: breakers_after_def)

lemma effect_cons: "breakers_after cfg m now (a # acts) br = breakers_after cfg m now acts (breaker_effect cfg m now a br)"
  by (simp add: breakers_after_def)

lemma after_loop:
  assumes "stream_loop fr dropped 0 chunks ended 0 None cancel = (acts, r, c)"
  shows "\<exists>rest. stream_actions fr dropped env chunks ended cancel =
      acts @ (case r of
                Returns (aborted, vars) \<Rightarrow> Close # (if aborted then [] else [RecordSuccess])
              | Raises (Error (Invocation e)) \<Rightarrow> [RecordFailure]
              | Raises _ \<Rightarrow> [Close]) @ rest \<and> list_all silent rest"
proof -
  consider "c = None" | "c = Some 0" | "c = Some 1" | n where "c = Some (Suc (Suc n))"
    by (cases c) (auto, metis One_nat_def not0_implies_Suc)
  then show ?thesis
    using assms
    by cases (auto simp: stream_actions_def stream_chat_response_def stream_completed_def upstream_failed_def
      gen_bind_def gen_finally_def gen_except_def gen_simps
      split: outcome.split stream_exn.split client_error.split)
qed

text \<open>What the loop did, from the polls, the budget and the way the iterator ends.\<close>

lemma loop_cases:
  obtains acts r c where "stream_loop fr dropped 0 chunks ended 0 None cancel = (acts, r, c)" "list_all is_yield acts"
    "if cancelled_in_loop cancel dropped chunks then r = Raises Cancelled
     else if list_ex dropped [0..<length chunks] then \<exists>vars. r = Returns (True, vars)
     else (case ended of None \<Rightarrow> \<exists>vars. r = Returns (False, vars) | Some e \<Rightarrow> r = Raises (Error e))"
proof -
  obtain acts r where n: "stream_loop fr dropped 0 chunks ended 0 None None = (acts, r, None)" "list_all is_yield acts"
    "if list_ex dropped [0..<length chunks] then \<exists>vars. r = Returns (True, vars)
     else (case ended of None \<Rightarrow> \<exists>vars. r = Returns (False, vars) | Some e \<Rightarrow> r = Raises (Error e))"
    using loop_none [of fr dropped 0 chunks ended 0 None]
    by (cases ended) (auto simp: list_all_iff split: if_splits)
  show thesis
  proof (cases cancel)
    case None
    with that n show thesis by (auto simp: cancelled_in_loop_def)
  next
    case (Some k)
    with that n loop_some [of k dropped 0 chunks fr ended 0 None] show thesis
      by (cases "k < loop_suspensions dropped 0 chunks") (auto simp: cancelled_in_loop_def)
  qed
qed

lemma stream_effect:
  "breakers_after cfg m now (stream_actions fr dropped env chunks ended cancel) br =
     (if cancelled_in_loop cancel dropped chunks then br
      else if list_ex dropped [0..<length chunks] then br
      else (case ended of
              None \<Rightarrow> cb_record_success br m
            | Some (Invocation e) \<Rightarrow> cb_record_failure cfg br m now
            | Some (Unexpected t) \<Rightarrow> br))"
proof -
  obtain acts r c where l: "stream_loop fr dropped 0 chunks ended 0 None cancel = (acts, r, c)" "list_all is_yield acts"
    "if cancelled_in_loop cancel dropped chunks then r = Raises Cancelled
     else if list_ex dropped [0..<length chunks] then \<exists>vars. r = Returns (True, vars)
     else (case ended of None \<Rightarrow> \<exists>vars. r = Returns (False, vars) | Some e \<Rightarrow> r = Raises (Error e))"
    by (rule loop_cases)
  obtain rest where rest: "list_all silent rest" "stream_actions fr dropped env chunks ended cancel =
      acts @ (case r of
                Returns (aborted, vars) \<Rightarrow> Close # (if aborted then [] else [RecordSuccess])
              | Raises (Error (Invocation e)) \<Rightarrow> [RecordFailure]
              | Raises _ \<Rightarrow> [Close]) @ rest"
    using after_loop [OF l(1), of env] by blast
  from l(3) silent_no_effect [OF yields_silent [OF l(2)]] silent_no_effect [OF rest(1)] show ?thesis
    unfolding rest(2)
    by (auto simp: effect_append effect_cons breakers_after_def [of _ _ _ "[]"]
      split: if_splits option.splits client_error.splits)
qed

text \<open>
  C25: what a stream tells the breaker, for every way it can end. A stream that ran to its end closes the
  model's breaker and an upstream error counts as a failure, also when the server leaves the generator
  after that; a stream the client abandoned before its last chunk, one the server cancelled before the
  loop was over, and one that failed unexpectedly tell it nothing at all, so that an abandoned trial call
  leaves its model half-open.
\<close>

theorem stream_breaker_effect:
  "breakers_after cfg m now (stream_actions fr dropped env chunks ended cancel) br =
     (if cancelled_in_loop cancel dropped chunks then br
      else if list_ex dropped [0..<length chunks] then br
      else (case ended of
              None \<Rightarrow> cb_record_success br m
            | Some (Invocation e) \<Rightarrow> cb_record_failure cfg br m now
            | Some (Unexpected t) \<Rightarrow> br))"
  by (rule stream_effect)

text \<open>
  The client receives one delta frame per text chunk, in order and unaltered, up to the point where
  it was found disconnected; a stream that fails then sends the error and the \<open>done\<close> event, any other
  one closing frame that says whether it was aborted.
\<close>

lemma stream_frames:
  "\<exists>tail. frames (stream_actions fr dropped env chunks ended None) = map (delta_frame fr) (delivered dropped chunks) @ tail \<and>
     (if list_ex dropped [0..<length chunks] then length tail = 1
      else (case ended of
              None \<Rightarrow> length tail = 1
            | Some (Invocation e) \<Rightarrow> tail = [sse fr (error_frame e (se_request_id env)) None, sse fr (JObj []) (Some ''done'')]
            | Some (Unexpected t) \<Rightarrow> tail = []))"
proof -
  have y: "frames (map (\<lambda>t. Yield (delta_frame fr t)) xs) = map (delta_frame fr) xs" for xs by (induction xs) auto
  obtain g' f' where l: "stream_loop fr dropped 0 chunks ended 0 None None =
     (map (\<lambda>t. Yield (delta_frame fr t)) (filter (\<lambda>t. t \<noteq> []) (map text_delta (before_drop dropped 0 chunks))),
      if list_ex dropped [0..<0 + length chunks] then Returns (True, g', f')
      else (case ended of None \<Rightarrow> Returns (False, g', f') | Some e \<Rightarrow> Raises (Error e)), None)"
    using loop_none [of fr dropped 0 chunks ended 0 None] by blast
  then show ?thesis
    by (auto simp: stream_actions_def stream_chat_response_def stream_completed_def upstream_failed_def y delivered_def
      gen_bind_def gen_finally_def gen_except_def gen_simps
      split: option.split client_error.split)
qed

end
