(* ===== verification/Schemas.thy ===== *)
theory Schemas
  imports Prelude
begin

text \<open>
  \<open>api/schemas.py\<close> and \<open>api/errors.py\<close>: the request and response bodies. Pydantic's conversions of
  a JSON value to a number or a flag, and its error texts, are parameters; which members are
  required, their defaults and their bounds are the declarations of the source.
\<close>

section \<open>Requests\<close>

record chat_message =
  msg_role :: string
  msg_content :: string

record chat_request =
  rq_model :: "string option"
  rq_messages :: "chat_message list"
  rq_max_tokens :: int
  rq_temperature :: py_float
  rq_stream :: bool

record pydantic =
  to_int :: "json \<Rightarrow> int option"
  to_float :: "json \<Rightarrow> py_float option"
  to_bool :: "json \<Rightarrow> bool option"
  first_error :: "json \<Rightarrow> string"

text \<open>\<open>Literal["user", "assistant"]\<close> and \<open>Field(min_length=1)\<close>.\<close>

fun message_of :: "json \<Rightarrow> chat_message option" where
  "message_of (JObj d) =
     (case (map_of d ''role'', map_of d ''content'') of
        (Some (JStr role), Some (JStr content)) \<Rightarrow>
          if role \<in> {''user'', ''assistant''} \<and> 1 \<le> length content
          then Some \<lparr>msg_role = role, msg_content = content\<rparr> else None
      | _ \<Rightarrow> None)"
| "message_of _ = None"

fun messages_of :: "json list \<Rightarrow> chat_message list option" where
  "messages_of [] = Some []"
| "messages_of (v # vs) =
     (case (message_of v, messages_of vs) of
        (Some m, Some ms) \<Rightarrow> Some (m # ms)
      | _ \<Rightarrow> None)"

text \<open>\<open>_last_message_is_user\<close>, which runs on a list that passed \<open>min_length=1\<close>.\<close>

definition last_message_is_user :: "chat_message list \<Rightarrow> bool" where
  "last_message_is_user messages \<longleftrightarrow> msg_role (last messages) = ''user''"

definition messages_field :: "json option \<Rightarrow> chat_message list option" where
  "messages_field v =
     (case v of
        Some (JArr vs) \<Rightarrow>
          (case messages_of vs of
             Some ms \<Rightarrow> if 1 \<le> length ms \<and> last_message_is_user ms then Some ms else None
           | None \<Rightarrow> None)
      | _ \<Rightarrow> None)"

definition model_field :: "json option \<Rightarrow> string option option" where
  "model_field v =
     (case v of
        None \<Rightarrow> Some None
      | Some JNull \<Rightarrow> Some None
      | Some (JStr s) \<Rightarrow> Some (Some s)
      | _ \<Rightarrow> None)"

text \<open>A member with a default: absent gives the default, present is converted and bounded.\<close>

definition bounded_field ::
  "(json \<Rightarrow> 'a option) \<Rightarrow> 'a \<Rightarrow> ('a \<Rightarrow> bool) \<Rightarrow> json option \<Rightarrow> 'a option" where
  "bounded_field conv dflt ok v =
     (case v of
        None \<Rightarrow> Some dflt
      | Some w \<Rightarrow> (case conv w of Some x \<Rightarrow> if ok x then Some x else None | None \<Rightarrow> None))"

definition fields_of :: "pydantic \<Rightarrow> (string \<times> json) list \<Rightarrow> chat_request option" where
  "fields_of lib d =
     (case (model_field (map_of d ''model''), messages_field (map_of d ''messages''),
            bounded_field (to_int lib) 1024 (\<lambda>n. 1 \<le> n \<and> n \<le> 8192) (map_of d ''max_tokens''),
            bounded_field (to_float lib) (7 / 10) (\<lambda>x. 0 \<le> x \<and> x \<le> 1) (map_of d ''temperature''),
            bounded_field (to_bool lib) False (\<lambda>_. True) (map_of d ''stream'')) of
        (Some m, Some ms, Some n, Some t, Some b) \<Rightarrow>
          Some \<lparr>rq_model = m, rq_messages = ms, rq_max_tokens = n, rq_temperature = t, rq_stream = b\<rparr>
      | _ \<Rightarrow> None)"

text \<open>\<open>ChatRequest.model_validate\<close>: the text is the first error's message.\<close>

definition model_validate :: "pydantic \<Rightarrow> json \<Rightarrow> string + chat_request" where
  "model_validate lib body =
     (case body of
        JObj d \<Rightarrow> (case fields_of lib d of Some r \<Rightarrow> Inr r | None \<Rightarrow> Inl (first_error lib body))
      | _ \<Rightarrow> Inl (first_error lib body))"

section \<open>Responses\<close>

record usage =
  us_input_tokens :: int
  us_output_tokens :: int

record chat_response =
  rs_request_id :: string
  rs_model :: string
  rs_output :: string
  rs_stop_reason :: "string option"
  rs_usage :: usage
  rs_latency_ms :: py_float
  rs_cache_hit :: bool
  rs_fallback :: bool

definition model_dump :: "chat_response \<Rightarrow> json" where
  "model_dump r = JObj
     [(''request_id'', JStr (rs_request_id r)), (''model'', JStr (rs_model r)), (''output'', JStr (rs_output r)),
      (''stop_reason'', opt_str (rs_stop_reason r)),
      (''usage'', JObj [(''input_tokens'', JInt (us_input_tokens (rs_usage r))),
                        (''output_tokens'', JInt (us_output_tokens (rs_usage r)))]),
      (''latency_ms'', JFloat (rs_latency_ms r)), (''cache_hit'', JBool (rs_cache_hit r)),
      (''fallback'', JBool (rs_fallback r))]"

record json_response =
  status_code :: int
  body :: json

definition error_response :: "int \<Rightarrow> string \<Rightarrow> string \<Rightarrow> string \<Rightarrow> json_response" where
  "error_response status err_code message request_id =
     \<lparr>status_code = status,
      body = JObj [(''error'', JObj [(''code'', JStr err_code), (''message'', JStr message),
                                     (''request_id'', JStr request_id)])]\<rparr>"

section \<open>What a validated request satisfies\<close>

definition valid_message :: "chat_message \<Rightarrow> bool" where
  "valid_message m \<longleftrightarrow> msg_role m \<in> {''user'', ''assistant''} \<and> msg_content m \<noteq> []"

lemma message_of_valid: "message_of v = Some m \<Longrightarrow> valid_message m"
  by (cases v) (auto simp: valid_message_def split: option.splits json.splits if_splits)

lemma messages_of_valid: "messages_of vs = Some ms \<Longrightarrow> list_all valid_message ms \<and> length ms = length vs"
proof (induction vs arbitrary: ms)
  case (Cons v vs)
  then obtain m ms' where "message_of v = Some m" "messages_of vs = Some ms'" "ms = m # ms'"
    by (auto split: option.splits)
  with Cons.IH [of ms'] message_of_valid [of v m] show ?case by simp
qed simp

definition valid_request :: "chat_request \<Rightarrow> bool" where
  "valid_request r \<longleftrightarrow>
     rq_messages r \<noteq> [] \<and> list_all valid_message (rq_messages r) \<and> msg_role (last (rq_messages r)) = ''user'' \<and>
     1 \<le> rq_max_tokens r \<and> rq_max_tokens r \<le> 8192 \<and> 0 \<le> rq_temperature r \<and> rq_temperature r \<le> 1"

lemma messages_field_valid:
  "messages_field v = Some ms \<Longrightarrow> ms \<noteq> [] \<and> list_all valid_message ms \<and> msg_role (last ms) = ''user''"
  by (auto simp: messages_field_def last_message_is_user_def dest: messages_of_valid
      split: option.splits json.splits if_splits)

lemma bounded_field_ok: "bounded_field conv dflt ok v = Some x \<Longrightarrow> ok dflt \<Longrightarrow> ok x"
  by (auto simp: bounded_field_def split: option.splits if_splits)

lemma fields_of_valid: "fields_of lib d = Some r \<Longrightarrow> valid_request r"
  by (auto simp: fields_of_def valid_request_def dest: messages_field_valid
      dest!: bounded_field_ok split: option.splits)

text \<open>
  C31: a body that validates gives a request within every declared bound: at least one message, each
  with a known role and some content, the last from the user, \<open>max_tokens\<close> in 1 to 8192 and
  \<open>temperature\<close> in 0 to 1, whatever conversions pydantic does.
\<close>

theorem validated_request_in_bounds:
  "model_validate lib v = Inr r \<Longrightarrow> valid_request r"
  by (auto simp: model_validate_def dest: fields_of_valid split: json.splits option.splits)

definition strict_pydantic :: pydantic where
  "strict_pydantic = \<lparr>to_int = \<lambda>v. (case v of JInt i \<Rightarrow> Some i | _ \<Rightarrow> None),
     to_float = \<lambda>v. (case v of JFloat x \<Rightarrow> Some x | JInt i \<Rightarrow> Some (of_int i) | _ \<Rightarrow> None),
     to_bool = \<lambda>v. (case v of JBool b \<Rightarrow> Some b | _ \<Rightarrow> None), first_error = \<lambda>_. ''Field required''\<rparr>"

definition sample_body :: json where
  "sample_body = JObj [(''messages'', JArr [JObj [(''role'', JStr ''user''), (''content'', JStr ''hi'')]]),
     (''max_tokens'', JInt 16)]"

lemma validated_request_in_bounds_witness:
  "valid_request \<lparr>rq_model = None, rq_messages = [\<lparr>msg_role = ''user'', msg_content = ''hi''\<rparr>],
     rq_max_tokens = 16, rq_temperature = 7 / 10, rq_stream = False\<rparr>"
  by (rule validated_request_in_bounds [of strict_pydantic sample_body])
    (simp add: model_validate_def fields_of_def model_field_def messages_field_def last_message_is_user_def
      bounded_field_def strict_pydantic_def sample_body_def)

end
