(* ===== verification/Cache_Keys.thy ===== *)
theory Cache_Keys
  imports Json_Text Schemas Policy_Store
begin

text \<open>
  \<open>cache/keys.py\<close>: the response cache key, a digest of the canonical JSON text of a fixed payload.
  The digest (SHA-256 of the standard library's C code) and the text of floats are parameters; the
  theorems assume of the digest only that it does not collide on the two texts at hand.
\<close>

definition normalize_messages :: "chat_message list \<Rightarrow> (string \<times> string) list" where
  "normalize_messages messages = map (\<lambda>m. (msg_role m, msg_content m)) messages"

text \<open>\<open>policy.route_set or "default"\<close>.\<close>

definition model_route_id :: "tenant_policy \<Rightarrow> string" where
  "model_route_id policy =
     (case route_set policy of None \<Rightarrow> ''default'' | Some r \<Rightarrow> if r = [] then ''default'' else r)"

definition cache_payload ::
  "json \<Rightarrow> json \<Rightarrow> tenant_policy \<Rightarrow> string \<Rightarrow> int \<Rightarrow> py_float \<Rightarrow> (string \<times> string) list \<Rightarrow> json" where
  "cache_payload tid aid policy model_id max_tokens temperature messages = JObj
     [(''tenant_id'', tid),
      (''application_id'', aid),
      (''model_route_id'', JStr (model_route_id policy)),
      (''model_version'', JStr model_id),
      (''inference_parameters'', JObj [(''max_tokens'', JInt max_tokens), (''temperature'', JFloat temperature)]),
      (''prompt_template_version'', JNull),
      (''normalized_messages'',
         JArr (map (\<lambda>(role, content). JObj [(''role'', JStr role), (''content'', JStr content)]) messages)),
      (''tool_schema_version'', JNull),
      (''guardrail_version'', JStr (guardrail_policy policy)),
      (''policy_epoch'', JInt (policy_epoch policy)),
      (''retrieval_context_hash'', JNull)]"

definition build_cache_key ::
  "(py_float \<Rightarrow> string) \<Rightarrow> (string \<Rightarrow> string) \<Rightarrow>
   json \<Rightarrow> json \<Rightarrow> tenant_policy \<Rightarrow> string \<Rightarrow> int \<Rightarrow> py_float \<Rightarrow> (string \<times> string) list \<Rightarrow> string" where
  "build_cache_key fr sha256_hex tid aid policy model_id max_tokens temperature messages =
     sha256_hex (dumps_canonical fr (cache_payload tid aid policy model_id max_tokens temperature messages))"

section \<open>Properties\<close>

text \<open>What a key is a function of; JSON claims count up to the order of members.\<close>

definition key_fields ::
  "json \<Rightarrow> json \<Rightarrow> tenant_policy \<Rightarrow> string \<Rightarrow> int \<Rightarrow> py_float \<Rightarrow> (string \<times> string) list \<Rightarrow>
   json \<times> json \<times> string \<times> string \<times> int \<times> py_float \<times> (string \<times> string) list \<times> string \<times> int" where
  "key_fields tid aid policy model_id max_tokens temperature messages =
     (sort_keys tid, sort_keys aid, model_route_id policy, model_id, max_tokens, temperature, messages,
      guardrail_policy policy, policy_epoch policy)"

lemma sort_messages_inject:
  "map (\<lambda>(role, content). sort_keys (JObj [(''role'', JStr role), (''content'', JStr content)])) ms =
   map (\<lambda>(role, content). sort_keys (JObj [(''role'', JStr role), (''content'', JStr content)])) ns \<Longrightarrow> ms = ns"
proof (induction ms arbitrary: ns)
  case (Cons m ms)
  then obtain n ns' where ns: "ns = n # ns'" by auto
  obtain r c r' c' where m: "m = (r, c)" "n = (r', c')" by (cases m, cases n)
  with Cons.prems ns have
    "sort_keys (JObj [(''role'', JStr r), (''content'', JStr c)]) = sort_keys (JObj [(''role'', JStr r'), (''content'', JStr c')])"
    by simp
  from sort_keys_member [OF _ _ this, of "''role''"] sort_keys_member [OF _ _ this, of "''content''"] have "m = n"
    by (simp add: m)
  with Cons ns show ?case by simp
qed simp

lemma payload_fields:
  "sort_keys (cache_payload tid aid p m n t ms) = sort_keys (cache_payload tid' aid' p' m' n' t' ms') \<longleftrightarrow>
     key_fields tid aid p m n t ms = key_fields tid' aid' p' m' n' t' ms'"
proof
  assume eq: "sort_keys (cache_payload tid aid p m n t ms) = sort_keys (cache_payload tid' aid' p' m' n' t' ms')"
  note member = sort_keys_member [OF _ _ eq [unfolded cache_payload_def]]
  have ip: "sort_keys (JObj [(''max_tokens'', JInt n), (''temperature'', JFloat t)]) =
      sort_keys (JObj [(''max_tokens'', JInt n'), (''temperature'', JFloat t')])"
    using member [of "''inference_parameters''"] by (simp del: sort_keys.simps)
  have "n = n'" "t = t'"
    using sort_keys_member [OF _ _ ip, of "''max_tokens''"] sort_keys_member [OF _ _ ip, of "''temperature''"] by simp_all
  moreover have "ms = ms'"
    using member [of "''normalized_messages''"]
    by (intro sort_messages_inject) (simp add: case_prod_unfold comp_def del: sort_keys.simps(2))
  ultimately show "key_fields tid aid p m n t ms = key_fields tid' aid' p' m' n' t' ms'"
    using member [of "''tenant_id''"] member [of "''application_id''"] member [of "''model_route_id''"]
      member [of "''model_version''"] member [of "''guardrail_version''"] member [of "''policy_epoch''"]
    by (simp add: key_fields_def)
next
  assume "key_fields tid aid p m n t ms = key_fields tid' aid' p' m' n' t' ms'"
  then show "sort_keys (cache_payload tid aid p m n t ms) = sort_keys (cache_payload tid' aid' p' m' n' t' ms')"
    by (simp add: key_fields_def cache_payload_def)
qed

text \<open>The digest does not collide on these two texts.\<close>

definition no_collision :: "(string \<Rightarrow> string) \<Rightarrow> string \<Rightarrow> string \<Rightarrow> bool" where
  "no_collision sha256_hex s t \<longleftrightarrow> (sha256_hex s = sha256_hex t \<longrightarrow> s = t)"

lemma cache_key_eq:
  assumes "float_text fr"
    and "no_collision h (dumps_canonical fr (cache_payload tid aid p m n t ms))
           (dumps_canonical fr (cache_payload tid' aid' p' m' n' t' ms'))"
  shows "build_cache_key fr h tid aid p m n t ms = build_cache_key fr h tid' aid' p' m' n' t' ms' \<longleftrightarrow>
     key_fields tid aid p m n t ms = key_fields tid' aid' p' m' n' t' ms'"
proof
  assume "build_cache_key fr h tid aid p m n t ms = build_cache_key fr h tid' aid' p' m' n' t' ms'"
  with assms(2) have "dumps_canonical fr (cache_payload tid aid p m n t ms) =
      dumps_canonical fr (cache_payload tid' aid' p' m' n' t' ms')"
    by (simp add: build_cache_key_def no_collision_def)
  from dumps_canonical_inject [OF assms(1) this]
  show "key_fields tid aid p m n t ms = key_fields tid' aid' p' m' n' t' ms'" by (simp add: payload_fields)
next
  assume "key_fields tid aid p m n t ms = key_fields tid' aid' p' m' n' t' ms'"
  then have "dumps_canonical fr (cache_payload tid aid p m n t ms) =
      dumps_canonical fr (cache_payload tid' aid' p' m' n' t' ms')"
    unfolding dumps_canonical_def payload_fields [symmetric] by (rule arg_cong)
  then show "build_cache_key fr h tid aid p m n t ms = build_cache_key fr h tid' aid' p' m' n' t' ms'"
    by (simp add: build_cache_key_def)
qed

text \<open>
  C20: two requests share a cache key exactly when they agree on tenant, application, route set, model,
  inference parameters, messages, guardrail version and policy epoch: the canonical text confuses no
  two payloads, so only a collision of the digest on the two texts could. In particular no tenant is
  ever served another tenant's entry.
\<close>

theorem cache_key_eq_iff:
  assumes "float_text fr"
    and "no_collision h (dumps_canonical fr (cache_payload tid aid p m n t ms))
           (dumps_canonical fr (cache_payload tid' aid' p' m' n' t' ms'))"
  shows "build_cache_key fr h tid aid p m n t ms = build_cache_key fr h tid' aid' p' m' n' t' ms' \<longleftrightarrow>
     key_fields tid aid p m n t ms = key_fields tid' aid' p' m' n' t' ms'"
  by (rule cache_key_eq [OF assms])

lemma cache_key_eq_iff_witness:
  "build_cache_key fraction_text id (JStr ''a'') (JStr ''app'') sample_policy ''m'' 1 0 [(''user'', ''hi'')] \<noteq>
   build_cache_key fraction_text id (JStr ''b'') (JStr ''app'') sample_policy ''m'' 1 0 [(''user'', ''hi'')]"
  using cache_key_eq_iff [OF fraction_text, of id "JStr ''a''" "JStr ''app''" sample_policy "''m''" 1 0 "[(''user'', ''hi'')]"
      "JStr ''b''" "JStr ''app''" sample_policy "''m''" 1 0 "[(''user'', ''hi'')]"]
  by (simp add: no_collision_def key_fields_def)

text \<open>
  a state change makes every cached answer of the tenant unreachable: under the policy it stores,
  a request has another key than under the policy it replaces.
\<close>

theorem state_change_changes_key:
  assumes "float_text fr"
    and "policies tid = Some p" and "store_set_state policies tid st = Inr (p', policies')"
    and "no_collision h (dumps_canonical fr (cache_payload (JStr tid) aid p m n t ms))
           (dumps_canonical fr (cache_payload (JStr tid) aid p' m n t ms))"
  shows "build_cache_key fr h (JStr tid) aid p m n t ms \<noteq> build_cache_key fr h (JStr tid) aid p' m n t ms"
proof -
  from assms(2, 3) have "policy_epoch p' \<noteq> policy_epoch p"
    by (auto simp: store_set_state_def store_get_def Let_def)
  with cache_key_eq [OF assms(1, 4)] show ?thesis by (simp add: key_fields_def)
qed

lemma state_change_changes_key_witness:
  "build_cache_key fraction_text id (JStr ''acme'') (JStr ''app'') sample_policy ''m'' 1 0 [] \<noteq>
   build_cache_key fraction_text id (JStr ''acme'') (JStr ''app'') (sample_policy\<lparr>state := SUSPENDED, policy_epoch := 2\<rparr>) ''m'' 1 0 []"
  by (rule state_change_changes_key [OF fraction_text, of "[''acme'' \<mapsto> sample_policy]" _ _ SUSPENDED])
    (simp_all add: store_set_state_def store_get_def Let_def sample_policy_def no_collision_def)

end
