(* ===== verification/Response_Cache.thy ===== *)
theory Response_Cache
  imports Interfaces
begin

text \<open>
  \<open>cache/store.py\<close>: the in-memory response cache, an OrderedDict with a time to live and least
  recently used eviction. The OrderedDict is an association list in its order, oldest first; the clock
  reading of an operation is its argument. \<open>rc_set\<close> can raise: with a negative \<open>max_entries\<close> the
  eviction loop empties the dict and \<open>popitem\<close> raises KeyError.
\<close>

record cached_response =
  cr_text :: string
  cr_stop_reason :: "string option"
  cr_input_tokens :: int
  cr_output_tokens :: int
  cr_model_id :: string

record rc_config =
  rc_ttl_s :: py_float
  rc_max_entries :: int

type_synonym 'v entries = "(string \<times> (py_float \<times> 'v)) list"

definition move_to_end :: "string \<Rightarrow> 'v entries \<Rightarrow> 'v entries" where
  "move_to_end key es =
     (case map_of es key of None \<Rightarrow> es | Some e \<Rightarrow> AList.delete key es @ [(key, e)])"

definition rc_get :: "rc_config \<Rightarrow> 'v entries \<Rightarrow> string \<Rightarrow> py_float \<Rightarrow> 'v option \<times> 'v entries" where
  "rc_get cfg es key now =
     (case map_of es key of
        None \<Rightarrow> (None, es)
      | Some (stored_at, val) \<Rightarrow>
          if rc_ttl_s cfg \<le> now - stored_at then (None, AList.delete key es)
          else (Some val, move_to_end key es))"

text \<open>\<open>while len > max_entries: popitem(last=False)\<close>.\<close>

fun evict :: "int \<Rightarrow> 'v entries \<Rightarrow> (py_exn + unit) \<times> 'v entries" where
  "evict max_entries [] = (if max_entries < 0 then (Inl KeyError, []) else (Inr (), []))"
| "evict max_entries (e # es) =
     (if max_entries < int (length (e # es)) then evict max_entries es else (Inr (), e # es))"

definition rc_set ::
  "rc_config \<Rightarrow> 'v entries \<Rightarrow> string \<Rightarrow> 'v \<Rightarrow> py_float \<Rightarrow> (py_exn + unit) \<times> 'v entries" where
  "rc_set cfg es key val now =
     evict (rc_max_entries cfg) (move_to_end key (AList.update key (now, val) es))"

section \<open>The order of the entries\<close>

lemma delete_update [simp]: "AList.delete k (AList.update k v es) = AList.delete k es"
  by (induction es) auto

lemma move_update: "move_to_end k (AList.update k v es) = AList.delete k es @ [(k, v)]"
  by (simp add: move_to_end_def update_conv')

lemma rc_set_eq: "rc_set cfg es k v now = evict (rc_max_entries cfg) (AList.delete k es @ [(k, (now, v))])"
  by (simp add: rc_set_def move_update)

definition keys_distinct :: "'v entries \<Rightarrow> bool" where
  "keys_distinct es \<longleftrightarrow> distinct (map fst es)"

lemma evict_suffix: "\<exists>pre. es = pre @ snd (evict n es)"
proof (induction es)
  case (Cons e es)
  then show ?case by (metis append_Cons append_Nil evict.simps(2) snd_conv)
qed simp

lemma evict_length: "0 \<le> n \<Longrightarrow> int (length (snd (evict n es))) \<le> n \<and> fst (evict n es) = Inr ()"
  by (induction es) auto

lemma evict_keeps: "int (length es) \<le> n \<Longrightarrow> evict n es = (Inr (), es)"
  by (cases es) auto

lemma evict_drop: "0 \<le> n \<Longrightarrow> snd (evict n es) = drop (length es - nat n) es"
proof (induction es)
  case (Cons e es)
  then show ?case by (cases "n < int (length (e # es))") (auto simp: Suc_diff_le nat_le_iff)
qed simp

lemma distinct_delete: "keys_distinct es \<Longrightarrow> keys_distinct (AList.delete k es)"
  by (simp add: keys_distinct_def distinct_delete)

lemma distinct_delete_snoc: "keys_distinct es \<Longrightarrow> keys_distinct (AList.delete k es @ [(k, v)])"
  using distinct_delete [of es k] by (auto simp: keys_distinct_def delete_keys)

lemma distinct_move [inv_intros]: "keys_distinct es \<Longrightarrow> keys_distinct (move_to_end k es)"
  by (simp add: move_to_end_def distinct_delete_snoc split: option.split)

lemma rc_get_distinct [inv_intros]: "keys_distinct es \<Longrightarrow> keys_distinct (snd (rc_get cfg es k now))"
  by (simp add: rc_get_def distinct_delete distinct_move split: option.split)

lemma rc_set_distinct [inv_intros]:
  assumes "keys_distinct es" shows "keys_distinct (snd (rc_set cfg es k v now))"
proof -
  have "keys_distinct (AList.delete k es @ [(k, (now, v))])" using assms by (rule distinct_delete_snoc)
  moreover obtain pre where "AList.delete k es @ [(k, (now, v))] =
      pre @ snd (evict (rc_max_entries cfg) (AList.delete k es @ [(k, (now, v))]))"
    using evict_suffix by blast
  ultimately show ?thesis unfolding rc_set_eq keys_distinct_def by (metis distinct_append map_append)
qed

lemma suffix_lookup:
  "keys_distinct (pre @ es) \<Longrightarrow> map_of es k = Some e \<Longrightarrow> map_of (pre @ es) k = Some e"
  by (auto simp: keys_distinct_def map_add_def map_of_append split: option.split
      dest!: map_of_SomeD) (metis Int_iff empty_iff fst_conv image_eqI)

lemma evict_lookup:
  assumes "keys_distinct es" "map_of (snd (evict n es)) k = Some e"
  shows "map_of es k = Some e"
proof -
  obtain pre where es: "es = pre @ snd (evict n es)" using evict_suffix by blast
  with assms suffix_lookup [of pre "snd (evict n es)" k e] show ?thesis by simp
qed

text \<open>With room for one entry, a write is there right after it.\<close>

lemma rc_set_fresh:
  assumes "keys_distinct es" "0 < rc_max_entries cfg"
  shows "\<exists>es'. rc_set cfg es k v now = (Inr (), es') \<and> map_of es' k = Some (now, v)"
proof -
  let ?es = "AList.delete k es @ [(k, (now, v))]"
  have "snd (evict (rc_max_entries cfg) ?es) = drop (length ?es - nat (rc_max_entries cfg)) (AList.delete k es) @ [(k, (now, v))]"
    using assms(2) by (subst evict_drop) auto
  moreover have "fst (evict (rc_max_entries cfg) ?es) = Inr ()" using evict_length [of "rc_max_entries cfg" ?es] assms(2) by simp
  moreover have "map_of (drop n (AList.delete k es)) k = None" for n
    by (metis delete_conv' in_set_dropD map_of_SomeD map_of_eq_None_iff fun_upd_same image_iff weak_map_of_SomeI option.distinct(1) option.exhaust)
  ultimately show ?thesis unfolding rc_set_eq
    by (intro exI [of _ "snd (evict (rc_max_entries cfg) ?es)"]) (simp add: prod_eq_iff map_add_def)
qed

section \<open>The cache as a store with a time to live\<close>

lemma rc_get_Some_iff:
  "fst (rc_get cfg es k now) = Some v \<longleftrightarrow> (\<exists>t. map_of es k = Some (t, v) \<and> now - t < rc_ttl_s cfg)"
  by (auto simp: rc_get_def split: option.split)

lemma move_lookup [simp]: "map_of (move_to_end k es) = map_of es"
  by (auto simp: move_to_end_def map_of_append map_add_def delete_conv' fun_eq_iff split: option.split)

lemma rc_get_lookup: "map_of (snd (rc_get cfg es k now)) k' = Some e \<Longrightarrow> map_of es k' = Some e"
  by (auto simp: rc_get_def delete_conv' split: option.splits if_splits)

lemma rc_set_lookup:
  assumes "keys_distinct es" "map_of (snd (rc_set cfg es k v now)) k' = Some e"
  shows "(if k' = k then e = (now, v) else map_of es k' = Some e)"
proof -
  have "map_of (AList.delete k es @ [(k, (now, v))]) k' = Some e"
    using assms distinct_delete_snoc unfolding rc_set_eq by (blast intro: evict_lookup)
  then show ?thesis by (auto simp: map_of_append map_add_def delete_conv' split: if_splits option.splits)
qed

definition rc_put :: "rc_config \<Rightarrow> 'v entries \<Rightarrow> string \<Rightarrow> 'v \<Rightarrow> py_float \<Rightarrow> 'v entries" where
  "rc_put cfg es key val now = snd (rc_set cfg es key val now)"

interpretation rc: ttl_store "rc_put cfg" "rc_get cfg" id "rc_ttl_s cfg" "[]" keys_distinct for cfg
proof unfold_locales
  show "keys_distinct []" by (simp add: keys_distinct_def)
  show "fst (rc_get cfg [] k now) = None" for k now by (simp add: rc_get_def)
qed (auto simp: rc_put_def rc_get_Some_iff intro: rc_set_distinct rc_get_distinct
  dest: rc_set_lookup rc_get_lookup)

text \<open>
  whatever the cache answers for a key is the last value written under that key, and it was
  written less than the time to live ago, after any history of reads, writes and evictions.
\<close>

theorem cache_read_provenance:
  "fst (rc_get cfg (run_ttl (rc_put cfg) (rc_get cfg) ops []) key now) = Some v \<Longrightarrow>
     recent_put (rc_ttl_s cfg) id ops key v now"
  by (rule rc.get_recent)

lemma cache_read_provenance_witness:
  "recent_put 60 id [Put ''k'' (7 :: int) 1, Get ''j'' 2] ''k'' 7 30"
  by (rule cache_read_provenance [of "\<lparr>rc_ttl_s = 60, rc_max_entries = 10\<rparr>", simplified])
    (simp add: rc_put_def rc_set_def move_to_end_def rc_get_def)

section \<open>Size\<close>

lemma rc_get_length: "length (snd (rc_get cfg es k now)) \<le> length es"
proof -
  have "length (AList.delete k es) < length es" if "map_of es k = Some e" for e
    using that by (induction es) (auto split: if_splits simp: less_Suc_eq_le length_delete_le)
  then show ?thesis
    by (auto simp: rc_get_def move_to_end_def length_delete_le Suc_le_eq split: option.split)
qed

text \<open>
  with a non-negative bound the cache never holds more than \<open>max_entries\<close> entries and never
  raises, whatever the operations; each key occurs once.
\<close>

theorem cache_stays_bounded:
  assumes "0 \<le> rc_max_entries cfg"
  shows "int (length (run_ttl (rc_put cfg) (rc_get cfg) ops [])) \<le> rc_max_entries cfg \<and>
     distinct (map fst (run_ttl (rc_put cfg) (rc_get cfg) ops [])) \<and>
     fst (rc_set cfg (run_ttl (rc_put cfg) (rc_get cfg) ops []) key v now) = Inr ()"
proof -
  have "int (length (run_ttl (rc_put cfg) (rc_get cfg) ops es)) \<le> rc_max_entries cfg"
    if "int (length es) \<le> rc_max_entries cfg" for es :: "'a entries"
    using that
  proof (induction ops arbitrary: es)
    case (Cons op ops)
    show ?case
    proof (cases op)
      case (Put k v t)
      with Cons.IH [of "rc_put cfg es k v t"] assms show ?thesis
        by (simp add: rc_put_def rc_set_eq evict_length)
    next
      case (Get k t)
      with Cons.IH [of "snd (rc_get cfg es k t)"] Cons.prems rc_get_length [of cfg es k t] show ?thesis
        by simp
    qed
  qed simp
  moreover have "keys_distinct (run_ttl (rc_put cfg) (rc_get cfg) ops ([] :: 'a entries))"
    by (rule rc.inv_run) (simp add: keys_distinct_def)
  ultimately show ?thesis using assms by (simp add: rc_set_eq evict_length keys_distinct_def)
qed

lemma cache_stays_bounded_witness:
  "fst (rc_set \<lparr>rc_ttl_s = 60, rc_max_entries = 0\<rparr> [] ''k'' (7 :: int) 1) = Inr ()"
  using cache_stays_bounded [of "\<lparr>rc_ttl_s = 60, rc_max_entries = 0\<rparr>" "[]" "''k''" "7 :: int" 1] by simp

section \<open>Least recently used\<close>

definition guards :: "string \<Rightarrow> py_float \<times> 'v \<Rightarrow> string set \<Rightarrow> 'v entries \<Rightarrow> bool" where
  "guards k e K es \<longleftrightarrow> keys_distinct es \<and> (\<exists>pre post. es = pre @ (k, e) # post \<and> fst ` set post \<subseteq> K)"

lemma guards_lookup: "guards k e K es \<Longrightarrow> map_of es k = Some e"
  by (auto simp: guards_def keys_distinct_def map_of_append map_add_def map_of_eq_None_iff split: option.split
      dest!: map_of_SomeD)

lemma delete_mid: "k \<noteq> k' \<Longrightarrow> AList.delete k' (pre @ (k, e) # post) = AList.delete k' pre @ (k, e) # AList.delete k' post"
  by (simp add: AList.delete_eq)

lemma guards_snoc:
  assumes "guards k e K es" "k' \<in> K" "k' \<noteq> k"
  shows "guards k e K (AList.delete k' es @ [(k', e')])"
proof -
  from assms(1) obtain pre post where es: "es = pre @ (k, e) # post" "fst ` set post \<subseteq> K" "keys_distinct es"
    by (auto simp: guards_def)
  have "AList.delete k' es @ [(k', e')] = AList.delete k' pre @ (k, e) # (AList.delete k' post @ [(k', e')])"
    using assms(3) by (simp add: es(1) delete_mid)
  moreover have "fst ` set (AList.delete k' post @ [(k', e')]) \<subseteq> K"
    using es(2) assms(2) dom_delete_subset [of k' post] by auto
  ultimately show ?thesis unfolding guards_def using distinct_delete_snoc [OF es(3)] by metis
qed

lemma guards_delete:
  assumes "guards k e K es" "k' \<noteq> k" shows "guards k e K (AList.delete k' es)"
proof -
  from assms(1) obtain pre post where es: "es = pre @ (k, e) # post" "fst ` set post \<subseteq> K" "keys_distinct es"
    by (auto simp: guards_def)
  have "AList.delete k' es = AList.delete k' pre @ (k, e) # AList.delete k' post"
    using assms(2) by (simp add: es(1) delete_mid)
  moreover have "fst ` set (AList.delete k' post) \<subseteq> K"
    using es(2) dom_delete_subset [of k' post] by auto
  ultimately show ?thesis unfolding guards_def using distinct_delete [OF es(3)] by metis
qed

lemma guards_evict:
  assumes "guards k e K es" "finite K" "int (card K) < n" "k \<notin> K"
  shows "guards k e K (snd (evict n es))"
proof -
  from assms(1) obtain pre post where es: "es = pre @ (k, e) # post" "fst ` set post \<subseteq> K" "keys_distinct es"
    by (auto simp: guards_def)
  from es have "distinct (map fst post)" by (simp add: keys_distinct_def)
  then have "length post = card (fst ` set post)" by (metis distinct_card length_map list.set_map)
  with es(2) assms(2) have "length post \<le> card K" by (simp add: card_mono)
  with assms(3) have "length es - nat n \<le> length pre" by (simp add: es(1))
  with assms(3) have "snd (evict n es) = drop (length es - nat n) pre @ (k, e) # post"
    by (subst evict_drop) (simp_all add: es(1))
  moreover have "keys_distinct (snd (evict n es))"
    using evict_suffix [of es n] es(3) unfolding keys_distinct_def by (metis distinct_append map_append)
  ultimately show ?thesis using es(2) unfolding guards_def by metis
qed

fun op_key :: "(string, 'v) ttl_op \<Rightarrow> string" where
  "op_key (Put k v t) = k"
| "op_key (Get k t) = k"

lemma guards_run:
  assumes "guards k e K es" "finite K" "int (card K) < rc_max_entries cfg" "k \<notin> K" "op_key ` set ops \<subseteq> K"
  shows "guards k e K (run_ttl (rc_put cfg) (rc_get cfg) ops es)"
  using assms(1, 5)
proof (induction ops arbitrary: es)
  case (Cons op ops)
  show ?case
  proof (cases op)
    case (Put k' v' t')
    with Cons.prems assms(4) have "guards k e K (rc_put cfg es k' v' t')"
      unfolding rc_put_def rc_set_eq by (intro guards_evict guards_snoc assms) auto
    with Cons Put show ?thesis by simp
  next
    case (Get k' t')
    with Cons.prems assms(4) have "guards k e K (snd (rc_get cfg es k' t'))"
      by (auto simp: rc_get_def move_to_end_def split: option.split intro: guards_delete guards_snoc)
    with Cons Get show ?thesis by simp
  qed
qed simp

lemma run_ttl_append: "run_ttl put get (ops1 @ ops2) s = run_ttl put get ops2 (run_ttl put get ops1 s)"
proof (induction ops1 arbitrary: s)
  case (Cons op ops1)
  then show ?case by (cases op) simp_all
qed simp

text \<open>
  C21: least recently used. After any history, an entry written for a key is still answered while it is
  younger than the time to live, as long as fewer than \<open>max_entries\<close> other keys were touched since.
\<close>

theorem cache_keeps_recent:
  assumes "k \<notin> op_key ` set ops2" "int (card (op_key ` set ops2)) < rc_max_entries cfg" "now - t < rc_ttl_s cfg"
  shows "fst (rc_get cfg (run_ttl (rc_put cfg) (rc_get cfg) (ops1 @ Put k v t # ops2) []) k now) = Some v"
proof -
  define es where "es = run_ttl (rc_put cfg) (rc_get cfg) ops1 ([] :: 'a entries)"
  have "keys_distinct es" unfolding es_def by (rule rc.inv_run) (simp add: keys_distinct_def)
  then have "guards k (t, v) (op_key ` set ops2) (AList.delete k es @ [(k, (t, v))])"
    unfolding guards_def using distinct_delete_snoc by fastforce
  then have "guards k (t, v) (op_key ` set ops2) (rc_put cfg es k v t)"
    unfolding rc_put_def rc_set_eq by (rule guards_evict) (use assms in auto)
  then have "guards k (t, v) (op_key ` set ops2) (run_ttl (rc_put cfg) (rc_get cfg) ops2 (rc_put cfg es k v t))"
    by (rule guards_run) (use assms in auto)
  from guards_lookup [OF this] assms(3) show ?thesis
    by (simp add: rc_get_Some_iff run_ttl_append es_def)
qed

lemma cache_keeps_recent_witness:
  "fst (rc_get \<lparr>rc_ttl_s = 60, rc_max_entries = 2\<rparr>
     (run_ttl (rc_put \<lparr>rc_ttl_s = 60, rc_max_entries = 2\<rparr>) (rc_get \<lparr>rc_ttl_s = 60, rc_max_entries = 2\<rparr>)
        ([Put ''a'' 1 0] @ Put ''k'' (7 :: int) 1 # [Put ''b'' 2 2]) []) ''k'' 30) = Some 7"
  by (rule cache_keeps_recent) simp_all

text \<open>
  a negative \<open>max_entries\<close> makes every write raise KeyError and leaves the cache empty, so that
  no answer is ever served from it.
\<close>

theorem negative_bound_raises:
  "rc_max_entries cfg < 0 \<Longrightarrow> rc_set cfg es key v now = (Inl KeyError, [])"
proof -
  assume "rc_max_entries cfg < 0"
  then have "evict (rc_max_entries cfg) ds = (Inl KeyError, [])" for ds :: "'a entries"
    by (induction ds) auto
  then show ?thesis by (simp add: rc_set_eq)
qed

lemma negative_bound_raises_witness:
  "rc_set \<lparr>rc_ttl_s = 60, rc_max_entries = - 1\<rparr> [] ''k'' (7 :: int) 1 = (Inl KeyError, [])"
  by (rule negative_bound_raises) simp

end
