(* ===== verification/Debug_Capture.thy ===== *)
theory Debug_Capture
  imports Guardrails Interfaces
begin

text \<open>
  \<open>telemetry/debug_capture.py\<close>: PII redaction and the opt-in store of redacted interactions.
  The store's dict is a map from request id to record; each operation takes the reading of the
  store's clock as an argument.
\<close>

section \<open>redact\<close>

text \<open>\<open>_REDACT_PATTERNS\<close>: its own copies of the guardrail's three patterns, each with its tag.\<close>

definition REDACT_PATTERNS :: "(rx \<times> string) list" where
  "REDACT_PATTERNS =
     [(Seq WordB (Seq
         (Seq (Rep digit_rx 3 (Some 3)) (Seq (lit (CHR ''-'')) (Seq (Rep digit_rx 2 (Some 2))
           (Seq (lit (CHR ''-'')) (Rep digit_rx 4 (Some 4)))))) WordB),
       ''[REDACTED_SSN]''),
      (Seq WordB (Seq
         (Rep (Seq digit_rx (Rep (Cls (\<lambda>c. c \<in> set '' -'')) 0 (Some 1))) 13 (Some 16)) WordB),
       ''[REDACTED_CARD]''),
      (Seq WordB (Seq
         (Seq (Rep (Cls email_local_char) 1 None) (Seq (lit (CHR ''@''))
           (Seq (Rep (Cls email_domain_char) 1 None)
             (Seq (lit (CHR ''.'')) (Rep (Cls is_alpha_ascii) 2 None))))) WordB),
       ''[REDACTED_EMAIL]'')]"

definition redact :: "string \<Rightarrow> string" where
  "redact text = foldl (\<lambda>text (pattern, replacement). rx_sub pattern replacement text) text REDACT_PATTERNS"

section \<open>DebugCaptureStore\<close>

record debug_record =
  dbg_request_id :: string
  dbg_tenant_id :: string
  redacted_input :: string
  redacted_output :: string
  captured_at :: py_float

type_synonym debug_store = "string \<rightharpoonup> debug_record"

definition debug_capture ::
  "debug_store \<Rightarrow> string \<Rightarrow> string \<Rightarrow> string \<Rightarrow> string \<Rightarrow> py_float \<Rightarrow> debug_store" where
  "debug_capture records rid tid input_text output_text now =
     (let r = \<lparr>dbg_request_id = rid, dbg_tenant_id = tid, redacted_input = redact input_text,
               redacted_output = redact output_text, captured_at = now\<rparr>
      in records(rid \<mapsto> r))"

definition debug_get ::
  "py_float \<Rightarrow> debug_store \<Rightarrow> string \<Rightarrow> py_float \<Rightarrow> debug_record option \<times> debug_store" where
  "debug_get ttl_s records rid now =
     (case records rid of
        None \<Rightarrow> (None, records)
      | Some r \<Rightarrow>
          if ttl_s \<le> now - captured_at r then (None, records(rid := None)) else (Some r, records))"

section \<open>Redaction is complete\<close>

lemma redact_eq:
  "redact t = rx_sub EMAIL_RE ''[REDACTED_EMAIL]''
     (rx_sub CREDIT_CARD_RE ''[REDACTED_CARD]'' (rx_sub SSN_RE ''[REDACTED_SSN]'' t))"
  by (simp add: redact_def REDACT_PATTERNS_def SSN_RE_def CREDIT_CARD_RE_def EMAIL_RE_def)

lemma is_tag_tags:
  "is_tag ''[REDACTED_SSN]''" "is_tag ''[REDACTED_CARD]''" "is_tag ''[REDACTED_EMAIL]''"
proof -
  have shape: "is_tag (CHR ''['' # m @ [CHR '']''])" if "list_all (\<lambda>c. \<not> is_digit c \<and> c \<noteq> CHR ''@'') m" for m
    using that by (auto simp: is_tag_def list_all_iff is_digit_def)
  show "is_tag ''[REDACTED_SSN]''" "is_tag ''[REDACTED_CARD]''" "is_tag ''[REDACTED_EMAIL]''"
    using shape [of "''REDACTED_SSN''"] shape [of "''REDACTED_CARD''"] shape [of "''REDACTED_EMAIL''"]
    by (simp_all add: is_digit_def)
qed

lemma redact_clean:
  "\<not> rx_search SSN_RE (redact t)" "\<not> rx_search CREDIT_CARD_RE (redact t)" "\<not> rx_search EMAIL_RE (redact t)"
  unfolding redact_eq
  by (intro sub_keeps_clean sub_removes opaque_patterns guarded_patterns is_tag_tags)+

lemma redact_id:
  assumes "\<not> rx_search SSN_RE t" "\<not> rx_search CREDIT_CARD_RE t" "\<not> rx_search EMAIL_RE t"
  shows "redact t = t"
  using assms by (simp add: redact_eq sub_clean_id)

text \<open>
  C33: nothing the store keeps would be blocked as PII by the guardrail: after redaction none of
  the three patterns occurs, whatever the text and however the matches overlapped.
\<close>

theorem redact_passes_pii:
  "category (basic_check (redact t)) \<noteq> Some ''PII''"
proof -
  have "category (if b then x else y) = (if b then category x else category y)" for b and x y :: guardrail_decision
    by simp
  then show ?thesis
    by (auto simp: basic_check_def redact_clean block_decision_def allow_decision_def Let_def
        split: option.splits)
qed

text \<open>
  redaction is idempotent, and it leaves a text without PII untouched.
\<close>

theorem redact_idempotent: "redact (redact t) = redact t"
  by (rule redact_id) (rule redact_clean)+

section \<open>The store keeps its retention contract\<close>

text \<open>\<open>capture\<close> and \<open>get\<close> as the operations of a store with a time to live.\<close>

definition debug_put :: "debug_store \<Rightarrow> string \<Rightarrow> string \<times> string \<times> string \<Rightarrow> py_float \<Rightarrow> debug_store" where
  "debug_put records rid v now = (case v of (tid, i, out) \<Rightarrow> debug_capture records rid tid i out now)"

definition debug_texts :: "string \<times> string \<times> string \<Rightarrow> string \<times> string \<times> string" where
  "debug_texts v = (case v of (tid, i, out) \<Rightarrow> (tid, redact i, redact out))"

definition debug_read ::
  "py_float \<Rightarrow> debug_store \<Rightarrow> string \<Rightarrow> py_float \<Rightarrow> (string \<times> string \<times> string) option \<times> debug_store" where
  "debug_read ttl_s records rid now =
     (let (r, s) = debug_get ttl_s records rid now
      in (map_option (\<lambda>r. (dbg_tenant_id r, redacted_input r, redacted_output r)) r, s))"

lemmas debug_defs = debug_put_def debug_texts_def debug_read_def debug_get_def debug_capture_def

interpretation dbg: ttl_store_exact debug_put "debug_read ttl_s" debug_texts ttl_s Map.empty "\<lambda>_. True" for ttl_s
  by unfold_locales (auto simp: debug_defs Let_def split: option.splits prod.splits if_splits)

text \<open>
  whatever the store answers for a request id is the redacted text of the last capture under
  that id, taken less than \<open>ttl_s\<close> ago, over any sequence of captures and reads.
\<close>

theorem debug_read_provenance:
  "fst (debug_read ttl_s (run_ttl debug_put (debug_read ttl_s) ops Map.empty) rid now) = Some v \<Longrightarrow>
     recent_put ttl_s debug_texts ops rid v now"
  by (rule dbg.get_recent)

theorem debug_read_provenance_witness:
  "recent_put 900 debug_texts [Put ''r1'' (''acme'', ''hi'', ''yo'') 5, Get ''r1'' 7] ''r1''
     (''acme'', redact ''hi'', redact ''yo'') 10"
  by (rule debug_read_provenance) (simp add: debug_defs)

end
