(* ===== verification/Config.thy ===== *)
theory Config
  imports Prelude
begin

text \<open>
  \<open>config.py\<close>: the settings read from the environment. The environment is a map; \<open>float(raw)\<close> is the
  parameter \<open>parse_float\<close> (None is ValueError), \<open>int(raw)\<close> is \<open>int_of_str\<close>.
\<close>

record settings =
  aws_region :: string
  bedrock_model_id :: string
  bedrock_timeout_s :: py_float
  bedrock_max_retries :: int
  host :: string
  port :: int
  service_name :: string
  log_level :: string
  max_input_chars :: int
  oidc_issuer :: string
  oidc_audience :: string
  oidc_jwks_url :: string
  oidc_jwks_cache_ttl_s :: py_float
  dev_jwt_keypair_path :: string
  chat_required_role :: string
  admin_required_role :: string
  iam_tenants_path :: string
  tenant_policy_path :: string
  policy_cache_ttl_s :: py_float
  route_set_config_path :: string
  response_cache_ttl_s :: py_float
  response_cache_max_entries :: int
  circuit_breaker_failure_threshold :: int
  circuit_breaker_reset_timeout_s :: py_float
  otel_exporter_otlp_endpoint :: string
  debug_capture_ttl_s :: py_float

type_synonym environ = "string \<rightharpoonup> string"

definition env_str :: "environ \<Rightarrow> string \<Rightarrow> string \<Rightarrow> string" where
  "env_str env name dflt = (case env name of None \<Rightarrow> dflt | Some v \<Rightarrow> v)"

definition env_num :: "(string \<Rightarrow> 'a option) \<Rightarrow> environ \<Rightarrow> string \<Rightarrow> 'a \<Rightarrow> py_exn + 'a" where
  "env_num parse env name dflt =
     (case env name of
        None \<Rightarrow> Inr dflt
      | Some raw \<Rightarrow>
          if raw = [] then Inr dflt
          else (case parse raw of None \<Rightarrow> Inl ValueError | Some x \<Rightarrow> Inr x))"

definition env_float :: "(string \<Rightarrow> py_float option) \<Rightarrow> environ \<Rightarrow> string \<Rightarrow> py_float \<Rightarrow> py_exn + py_float" where
  "env_float parse_float env name dflt = env_num parse_float env name dflt"

definition env_int :: "environ \<Rightarrow> string \<Rightarrow> int \<Rightarrow> py_exn + int" where
  "env_int env name dflt = env_num int_of_str env name dflt"

definition load_settings :: "(string \<Rightarrow> py_float option) \<Rightarrow> environ \<Rightarrow> py_exn + settings" where
  "load_settings parse_float env =
     bind_r (env_float parse_float env ''BEDROCK_TIMEOUT_S'' 30) (\<lambda>timeout.
     bind_r (env_int env ''BEDROCK_MAX_RETRIES'' 2) (\<lambda>retries.
     bind_r (env_int env ''GATEWAY_PORT'' 8080) (\<lambda>prt.
     bind_r (env_int env ''MAX_INPUT_CHARS'' 32000) (\<lambda>max_chars.
     bind_r (env_float parse_float env ''OIDC_JWKS_CACHE_TTL_S'' 300) (\<lambda>jwks_ttl.
     bind_r (env_float parse_float env ''POLICY_CACHE_TTL_S'' 30) (\<lambda>policy_ttl.
     bind_r (env_float parse_float env ''RESPONSE_CACHE_TTL_S'' 60) (\<lambda>rc_ttl.
     bind_r (env_int env ''RESPONSE_CACHE_MAX_ENTRIES'' 1000) (\<lambda>rc_max.
     bind_r (env_int env ''CIRCUIT_BREAKER_FAILURE_THRESHOLD'' 5) (\<lambda>threshold.
     bind_r (env_float parse_float env ''CIRCUIT_BREAKER_RESET_TIMEOUT_S'' 30) (\<lambda>reset.
     bind_r (env_float parse_float env ''DEBUG_CAPTURE_TTL_S'' 900) (\<lambda>debug_ttl.
     Inr \<lparr>aws_region = env_str env ''AWS_REGION'' ''us-east-1'',
          bedrock_model_id = env_str env ''BEDROCK_MODEL_ID'' ''us.amazon.nova-micro-v1:0'',
          bedrock_timeout_s = timeout,
          bedrock_max_retries = retries,
          host = env_str env ''GATEWAY_HOST'' ''0.0.0.0'',
          port = prt,
          service_name = env_str env ''SERVICE_NAME'' ''gateway-api'',
          log_level = env_str env ''LOG_LEVEL'' ''INFO'',
          max_input_chars = max_chars,
          oidc_issuer = env_str env ''OIDC_ISSUER'' ''https://dev-issuer.local/'',
          oidc_audience = env_str env ''OIDC_AUDIENCE'' ''bedrock-gateway'',
          oidc_jwks_url = env_str env ''OIDC_JWKS_URL'' [],
          oidc_jwks_cache_ttl_s = jwks_ttl,
          dev_jwt_keypair_path = env_str env ''DEV_JWT_KEYPAIR_PATH'' ''.dev/jwt_keypair.json'',
          chat_required_role = env_str env ''CHAT_REQUIRED_ROLE'' ''developer'',
          admin_required_role = env_str env ''ADMIN_REQUIRED_ROLE'' ''platform_admin'',
          iam_tenants_path = env_str env ''IAM_TENANTS_PATH'' ''policies/iam_tenants.yaml'',
          tenant_policy_path = env_str env ''TENANT_POLICY_PATH'' ''policies/tenants.yaml'',
          policy_cache_ttl_s = policy_ttl,
          route_set_config_path = env_str env ''ROUTE_SET_CONFIG_PATH'' ''policies/route_sets.yaml'',
          response_cache_ttl_s = rc_ttl,
          response_cache_max_entries = rc_max,
          circuit_breaker_failure_threshold = threshold,
          circuit_breaker_reset_timeout_s = reset,
          otel_exporter_otlp_endpoint = env_str env ''OTEL_EXPORTER_OTLP_ENDPOINT'' [],
          debug_capture_ttl_s = debug_ttl\<rparr>)))))))))))"

definition FLOAT_VARIABLES :: "string list" where
  "FLOAT_VARIABLES = [''BEDROCK_TIMEOUT_S'', ''OIDC_JWKS_CACHE_TTL_S'', ''POLICY_CACHE_TTL_S'', ''RESPONSE_CACHE_TTL_S'',
     ''CIRCUIT_BREAKER_RESET_TIMEOUT_S'', ''DEBUG_CAPTURE_TTL_S'']"

definition INT_VARIABLES :: "string list" where
  "INT_VARIABLES = [''BEDROCK_MAX_RETRIES'', ''GATEWAY_PORT'', ''MAX_INPUT_CHARS'', ''RESPONSE_CACHE_MAX_ENTRIES'',
     ''CIRCUIT_BREAKER_FAILURE_THRESHOLD'']"

definition readable :: "(string \<Rightarrow> 'a option) \<Rightarrow> environ \<Rightarrow> string \<Rightarrow> bool" where
  "readable parse env name \<longleftrightarrow>
     (case env name of None \<Rightarrow> True | Some raw \<Rightarrow> raw = [] \<or> parse raw \<noteq> None)"

lemma env_num_cases:
  "(readable parse env name \<and> (\<exists>x. env_num parse env name dflt = Inr x)) \<or>
   (\<not> readable parse env name \<and> env_num parse env name dflt = Inl ValueError)"
  by (auto simp: env_num_def readable_def split: option.splits)

lemma env_num_readable:
  "is_ok (env_num parse env name dflt) \<longleftrightarrow> readable parse env name"
  using env_num_cases [of parse env name dflt] by auto

lemma is_ok_bind:
  "(is_ok r \<longleftrightarrow> A) \<Longrightarrow> (\<And>x. is_ok (f x) \<longleftrightarrow> P) \<Longrightarrow> is_ok (bind_r r f) \<longleftrightarrow> A \<and> P"
  by (cases r) auto

text \<open>
  loading the settings succeeds exactly when every numeric variable is unset, empty or a numeral
  of its type.
\<close>

theorem load_settings_ok:
  "is_ok (load_settings pf env) \<longleftrightarrow> list_all (readable pf env) FLOAT_VARIABLES \<and> list_all (readable int_of_str env) INT_VARIABLES"
proof -
  have "is_ok (load_settings pf env) \<longleftrightarrow>
      readable pf env ''BEDROCK_TIMEOUT_S'' \<and> readable int_of_str env ''BEDROCK_MAX_RETRIES'' \<and>
      readable int_of_str env ''GATEWAY_PORT'' \<and> readable int_of_str env ''MAX_INPUT_CHARS'' \<and>
      readable pf env ''OIDC_JWKS_CACHE_TTL_S'' \<and> readable pf env ''POLICY_CACHE_TTL_S'' \<and>
      readable pf env ''RESPONSE_CACHE_TTL_S'' \<and> readable int_of_str env ''RESPONSE_CACHE_MAX_ENTRIES'' \<and>
      readable int_of_str env ''CIRCUIT_BREAKER_FAILURE_THRESHOLD'' \<and>
      readable pf env ''CIRCUIT_BREAKER_RESET_TIMEOUT_S'' \<and> readable pf env ''DEBUG_CAPTURE_TTL_S'' \<and> True"
    unfolding load_settings_def env_float_def env_int_def
    by (rule is_ok_bind env_num_readable is_ok_simps(2) [THEN eqTrueI])+ simp
  then show ?thesis by (auto simp: FLOAT_VARIABLES_def INT_VARIABLES_def)
qed

end
