(* ===== verification/Gateway.thy ===== *)
theory Gateway
  imports Pipeline Streaming Cache_Keys Response_Cache Debug_Capture Config
begin

text \<open>
  The state of the assembled service and its wiring (\<open>create_app\<close> of \<open>main.py\<close>): one field per store, the
  requests and responses, and the world the handlers read and write.

  What the service calls and does not contain is the record \<open>deps\<close>: each call of it is numbered by a
  counter of the world, so that its answers may vary freely from call to call. The trace of the world is
  not in the code: it records the guardrail checks, model calls, cache writes and answers in order,
  for the theorems to speak about.
\<close>

section \<open>State\<close>

record cache_query =
  cq_tenant :: json
  cq_application :: json
  cq_policy :: tenant_policy
  cq_model :: string
  cq_max_tokens :: int
  cq_temperature :: py_float
  cq_messages :: "(string \<times> string) list"

datatype gateway_event =
    GuardIn tenant_policy string "string + guardrail_decision"
  | GuardOut tenant_policy string "string + guardrail_decision"
  | ModelCall tenant_policy string "bedrock_message list"
  | StreamCall tenant_policy string "bedrock_message list"
  | CacheWrite cache_query cached_response
  | Answered cache_query cached_response

record world =
  w_ticks :: nat
  w_sdk_calls :: nat
  w_guard_calls :: nat
  w_trace :: "gateway_event list"

record 'key deps =
  dp_settings :: settings
  dp_clock :: "nat \<Rightarrow> py_float"
  dp_call_clock :: "nat \<Rightarrow> py_float"
  dp_jitter :: "nat \<Rightarrow> py_float"
  dp_sdk :: sdk
  dp_jwt :: "'key jwt_lib"
  dp_static_key :: 'key
  dp_iam :: iam_resolver
  dp_check_input :: "nat \<Rightarrow> string \<Rightarrow> string \<Rightarrow> string + guardrail_decision"
  dp_check_output :: "nat \<Rightarrow> string \<Rightarrow> string \<Rightarrow> string + guardrail_decision"
  dp_route_sets :: route_sets
  dp_pydantic :: pydantic
  dp_float_repr :: "py_float \<Rightarrow> string"
  dp_sha256_hex :: "string \<Rightarrow> string"

record 'key gateway =
  gw_policies :: policy_store
  gw_snapshots :: snapshots
  gw_limiter :: limiter
  gw_verifier :: "'key verifier_state"
  gw_cache :: "cached_response entries"
  gw_breakers :: breakers
  gw_debug :: debug_store
  gw_world :: world
  gw_logs :: "log_record list"

section \<open>Wiring\<close>

definition breaker_cfg :: "settings \<Rightarrow> breaker_config" where
  "breaker_cfg s = \<lparr>failure_threshold = circuit_breaker_failure_threshold s,
     reset_timeout_s = circuit_breaker_reset_timeout_s s\<rparr>"

definition rc_cfg :: "settings \<Rightarrow> rc_config" where
  "rc_cfg s = \<lparr>rc_ttl_s = response_cache_ttl_s s, rc_max_entries = response_cache_max_entries s\<rparr>"

definition bedrock_cfg :: "settings \<Rightarrow> client_config" where
  "bedrock_cfg s = \<lparr>max_retries = bedrock_max_retries s, base_backoff_s = 1 / 4\<rparr>"

definition oidc_cfg :: "settings \<Rightarrow> verifier_config" where
  "oidc_cfg s = \<lparr>jwks_url = oidc_jwks_url s, issuer = oidc_issuer s, audience = oidc_audience s,
     cache_ttl_s = oidc_jwks_cache_ttl_s s\<rparr>"

text \<open>The state of a freshly created app over a loaded policy store.\<close>

definition create_app :: "policy_store \<Rightarrow> 'key gateway" where
  "create_app policies =
     \<lparr>gw_policies = policies, gw_snapshots = Map.empty, gw_limiter = Map.empty,
      gw_verifier = \<lparr>keys_by_kid = [], fetched_at = 0, fetches = 0\<rparr>, gw_cache = [], gw_breakers = Map.empty,
      gw_debug = Map.empty, gw_world = \<lparr>w_ticks = 0, w_sdk_calls = 0, w_guard_calls = 0, w_trace = []\<rparr>, gw_logs = []\<rparr>"

section \<open>The world\<close>

definition tick :: "'key deps \<Rightarrow> world \<Rightarrow> py_float \<times> world" where
  "tick deps w = (dp_clock deps (w_ticks w), w\<lparr>w_ticks := w_ticks w + 1\<rparr>)"

definition emit :: "gateway_event \<Rightarrow> world \<Rightarrow> world" where
  "emit ev w = w\<lparr>w_trace := w_trace w @ [ev]\<rparr>"

definition elapsed_ms :: "py_float \<Rightarrow> py_float \<Rightarrow> py_float" where
  "elapsed_ms start now = py_round ((now - start) * 1000) 2"

definition log_to :: "log_record \<Rightarrow> 'key gateway \<Rightarrow> 'key gateway" where
  "log_to r gw = gw\<lparr>gw_logs := gw_logs gw @ [r]\<rparr>"

text \<open>\<open>_build_default_token_verifier\<close>: JWKS when a URL is configured, else the dev key.\<close>

definition app_verify ::
  "'key deps \<Rightarrow> 'key verifier_state \<times> world \<Rightarrow> string \<Rightarrow>
   (verify_error + (string \<times> json) list) \<times> 'key verifier_state \<times> world" where
  "app_verify deps = (\<lambda>(v, w) token.
     if oidc_jwks_url (dp_settings deps) \<noteq> [] then
       (let (t_check, w) = tick deps w; (t1, w) = tick deps w; (t2, w) = tick deps w;
            (r, v) = jwks_verify (dp_jwt deps) (oidc_cfg (dp_settings deps)) v token t_check t1 t2
        in (r, v, w))
     else
       (static_verify (dp_jwt deps) (oidc_cfg (dp_settings deps)) (dp_static_key deps) token, v, w))"

text \<open>\<open>BedrockClient.converse\<close> as the client of the router; the trace notes for which policy it runs.\<close>

definition bedrock_call ::
  "'key deps \<Rightarrow> tenant_policy \<Rightarrow> bedrock_message list \<Rightarrow> int \<Rightarrow> py_float \<Rightarrow> string \<Rightarrow> world \<Rightarrow>
   (client_error + converse_result) \<times> world" where
  "bedrock_call deps policy messages max_tokens temp model_id w =
     (let (start, w) = tick deps w;
          (out, n, sleeps) = converse (bedrock_cfg (dp_settings deps)) (dp_sdk deps) (dp_call_clock deps)
             (dp_jitter deps) start (w_sdk_calls w) model_id messages max_tokens temp;
          w = emit (ModelCall policy model_id messages) (w\<lparr>w_sdk_calls := n\<rparr>)
      in (case out of Inl e \<Rightarrow> Inl (Invocation e) | Inr r \<Rightarrow> Inr r, w))"

section \<open>Requests and responses\<close>

record http_request =
  hr_authorization :: "string option"
  hr_principal_arn :: "string option"
  hr_account_id :: "string option"
  hr_request_id :: "string option"
  hr_method :: string
  hr_path :: string
  hr_uuid :: string

record stream_job =
  sj_model :: string
  sj_messages :: "bedrock_message list"
  sj_max_tokens :: int
  sj_temperature :: py_float
  sj_request_id :: string
  sj_tenant :: json

text \<open>A response; \<open>Unhandled\<close> is an exception that left the handler.\<close>

datatype http_response =
    Json json_response
  | EventStream stream_job
  | Unhandled string

text \<open>The status a response has on the wire.\<close>

fun status_of :: "http_response \<Rightarrow> int" where
  "status_of (Json j) = status_code j"
| "status_of (EventStream job) = 200"
| "status_of (Unhandled exc) = 500"

fun reject :: "string \<Rightarrow> stage_error \<Rightarrow> http_response" where
  "reject rid (PipelineError status err_code message) = Json (error_response status err_code message rid)"
| "reject rid (Crash t) = Unhandled t"

fun error_attributes :: "stage_error \<Rightarrow> (string \<times> json) list" where
  "error_attributes (PipelineError status err_code message) = [(''status'', JInt status), (''error'', JStr message)]"
| "error_attributes (Crash t) = []"

end
