(* ===== verification/Chat_Handler.thy ===== *)
theory Chat_Handler
  imports Gateway
begin

text \<open>
  The chat handler (\<open>api/routes.py\<close>), a function from the whole mutable state to the whole mutable state. It
  is split at its \<open>await\<close> of the request body: the event loop may run other requests there, and nowhere
  else. A stream is handed to the server as a job; \<open>run_stream\<close> is the server's run of it.
\<close>

section \<open>The chat handler, up to the request body\<close>

definition chat_admit ::
  "'key deps \<Rightarrow> http_request \<Rightarrow> 'key gateway \<Rightarrow> (stage_error + identity \<times> tenant_policy) \<times> 'key gateway" where
  "chat_admit deps req gw =
     (let s = dp_settings deps;
          (auth, v, w) = authenticate (app_verify deps) (gw_verifier gw, gw_world gw) (Some (dp_iam deps))
             (hr_authorization req) (hr_principal_arn req) (hr_account_id req);
          gw = gw\<lparr>gw_verifier := v, gw_world := w\<rparr>
      in case auth of
        Inl e \<Rightarrow> (Inl e, gw)
      | Inr i \<Rightarrow>
         (case authorize i (chat_required_role s) of
            Inl e \<Rightarrow> (Inl e, gw)
          | Inr _ \<Rightarrow>
             (let (t_check, w) = tick deps (gw_world gw); (t_stamp, w) = tick deps w;
                  (resolved, snaps) = resolve_policy (dp_float_repr deps) (policy_cache_ttl_s s)
                     (store_get (gw_policies gw)) (gw_snapshots gw) i t_check t_stamp;
                  gw = gw\<lparr>gw_snapshots := snaps, gw_world := w\<rparr>
              in case resolved of
                Inl e \<Rightarrow> (Inl e, gw)
              | Inr policy \<Rightarrow>
                 (case enforce_kill_switch policy of
                    Inl e \<Rightarrow> (Inl e, gw)
                  | Inr _ \<Rightarrow>
                     (let (now, w) = tick deps (gw_world gw);
                          (quota, limiter) = enforce_rate_limit policy (gw_limiter gw) now;
                          gw = gw\<lparr>gw_limiter := limiter, gw_world := w\<rparr>
                      in case quota of
                        Inl e \<Rightarrow> (Inl e, gw)
                      | Inr _ \<Rightarrow> (Inr (i, policy), gw))))))"

section \<open>The chat handler, from the request body on\<close>

text \<open>What every later part of the handler needs of the request.\<close>

record chat_ctx =
  cx_request_id :: string
  cx_identity :: identity
  cx_policy :: tenant_policy
  cx_span :: span_attributes

type_synonym 'key reply = "(http_response \<times> span_attributes) \<times> 'key gateway"

definition combined_input_text :: "chat_message list \<Rightarrow> string" where
  "combined_input_text messages = join newline (map msg_content messages)"

definition bedrock_messages :: "chat_message list \<Rightarrow> bedrock_message list" where
  "bedrock_messages messages = map (\<lambda>m. \<lparr>bm_role = msg_role m, bm_text = msg_content m\<rparr>) messages"

definition tenant_key :: "identity \<Rightarrow> string" where
  "tenant_key i = the_str (id_tenant_id i)"

text \<open>The fields that every log line of a request after the policy carries.\<close>

definition policy_fields :: "chat_ctx \<Rightarrow> (string \<times> json) list" where
  "policy_fields cx =
     [(''tenant_id'', id_tenant_id (cx_identity cx)), (''policy_epoch'', JInt (policy_epoch (cx_policy cx)))]"

definition chat_failed ::
  "chat_ctx \<Rightarrow> string \<Rightarrow> int \<Rightarrow> string \<Rightarrow> (string \<times> json) list \<Rightarrow> 'key gateway \<Rightarrow> 'key gateway" where
  "chat_failed cx model_id status message extra gw =
     log_to (log_event ''gateway.chat'' ''ERROR'' ''chat request failed'' (JStr (cx_request_id cx)) (JStr message)
       ([(''model'', JStr model_id), (''status'', JInt status)] @ policy_fields cx @ extra)) gw"

definition guardrail_fields :: "chat_ctx \<Rightarrow> string \<Rightarrow> py_float \<Rightarrow> (string \<times> json) list" where
  "guardrail_fields cx act ms =
     [(''guardrail_version'', JStr (guardrail_policy (cx_policy cx))), (''guardrail_action'', JStr act),
      (''guardrail_latency_ms'', JFloat ms)]"

text \<open>Both guardrail calls, timed; the trace notes the check.\<close>

definition input_guardrail ::
  "'key deps \<Rightarrow> tenant_policy \<Rightarrow> string \<Rightarrow> world \<Rightarrow> (stage_error + guardrail_decision) \<times> py_float \<times> world" where
  "input_guardrail deps policy txt w =
     (let (t0, w) = tick deps w;
          check = dp_check_input deps (w_guard_calls w);
          r = check_input_guardrail check txt policy;
          w = emit (GuardIn policy txt (check txt (guardrail_policy policy))) (w\<lparr>w_guard_calls := w_guard_calls w + 1\<rparr>);
          (t1, w) = tick deps w
      in (r, elapsed_ms t0 t1, w))"

definition output_guardrail ::
  "'key deps \<Rightarrow> tenant_policy \<Rightarrow> string \<Rightarrow> world \<Rightarrow> (stage_error + guardrail_decision) \<times> py_float \<times> world" where
  "output_guardrail deps policy txt w =
     (let (t0, w) = tick deps w;
          check = dp_check_output deps (w_guard_calls w);
          r = check_output_guardrail check txt policy;
          w = emit (GuardOut policy txt (check txt (guardrail_policy policy))) (w\<lparr>w_guard_calls := w_guard_calls w + 1\<rparr>);
          (t1, w) = tick deps w
      in (r, elapsed_ms t0 t1, w))"

definition capture_if_enabled ::
  "'key deps \<Rightarrow> chat_ctx \<Rightarrow> string \<Rightarrow> string \<Rightarrow> 'key gateway \<Rightarrow> 'key gateway" where
  "capture_if_enabled deps cx input_text output_text gw =
     (if debug_capture_enabled (cx_policy cx) then
        (let (now, w) = tick deps (gw_world gw) in
         gw\<lparr>gw_debug := debug_capture (gw_debug gw) (cx_request_id cx) (tenant_key (cx_identity cx))
              input_text output_text now,
            gw_world := w\<rparr>)
      else gw)"

text \<open>The telemetry of a completed request; span and log line carry the same values.\<close>

record completion =
  cp_model :: string
  cp_guardrail_ms :: py_float
  cp_input_tokens :: int
  cp_output_tokens :: int
  cp_latency_ms :: py_float
  cp_retry_count :: int
  cp_fallback :: bool
  cp_cache_hit :: bool
  cp_cost :: py_float
  cp_slo_breach :: bool

definition completion_span :: "chat_ctx \<Rightarrow> completion \<Rightarrow> span_attributes" where
  "completion_span cx c =
     set_span_attributes
       ([(''status'', JInt 200), (''model'', JStr (cp_model c))] @ guardrail_fields cx ''ALLOW'' (cp_guardrail_ms c) @
        [(''input_tokens'', JInt (cp_input_tokens c)), (''output_tokens'', JInt (cp_output_tokens c)),
         (''latency_ms'', JFloat (cp_latency_ms c)), (''retry_count'', JInt (cp_retry_count c)),
         (''fallback'', JBool (cp_fallback c)), (''cache_hit'', JBool (cp_cache_hit c)),
         (''estimated_cost'', JFloat (cp_cost c)), (''slo_breach'', JBool (cp_slo_breach c))]) (cx_span cx)"

definition completion_log :: "chat_ctx \<Rightarrow> completion \<Rightarrow> log_record" where
  "completion_log cx c =
     log_event ''gateway.chat'' ''INFO'' ''chat request completed'' (JStr (cx_request_id cx)) JNull
       ([(''model'', JStr (cp_model c))] @ policy_fields cx @ [(''route_set'', opt_str (route_set (cx_policy cx)))] @
        guardrail_fields cx ''ALLOW'' (cp_guardrail_ms c) @
        [(''blocked_reason'', JNull), (''input_tokens'', JInt (cp_input_tokens c)), (''output_tokens'', JInt (cp_output_tokens c)),
         (''ttft_ms'', JNull), (''latency_ms'', JFloat (cp_latency_ms c)), (''retry_count'', JInt (cp_retry_count c)),
         (''fallback'', JBool (cp_fallback c)), (''cache_hit'', JBool (cp_cache_hit c)), (''status'', JInt 200),
         (''estimated_cost'', JFloat (cp_cost c)), (''slo_breach'', JBool (cp_slo_breach c))])"

text \<open>The streaming branch: the breaker gates it, and the stream itself is run by the server later.\<close>

definition chat_stream ::
  "'key deps \<Rightarrow> chat_ctx \<Rightarrow> string \<Rightarrow> chat_request \<Rightarrow> 'key gateway \<Rightarrow> 'key reply" where
  "chat_stream deps cx model_id cr gw =
     (let (now, w) = tick deps (gw_world gw);
          (ok, br) = cb_allow (breaker_cfg (dp_settings deps)) (gw_breakers gw) model_id now;
          gw = gw\<lparr>gw_breakers := br, gw_world := w\<rparr>
      in if \<not> ok then
           ((Json (error_response 503 ''UPSTREAM_UNAVAILABLE''
               (''model '' @ quoted model_id @ '' is temporarily unavailable (circuit open)'') (cx_request_id cx)),
             set_span_attributes [(''status'', JInt 503), (''error'', JStr ''circuit open'')] (cx_span cx)), gw)
         else
           ((EventStream \<lparr>sj_model = model_id, sj_messages = bedrock_messages (rq_messages cr),
               sj_max_tokens = rq_max_tokens cr, sj_temperature = rq_temperature cr,
               sj_request_id = cx_request_id cx, sj_tenant = id_tenant_id (cx_identity cx)\<rparr>,
             set_span_attributes [(''status'', JInt 200), (''stream'', JBool True)] (cx_span cx)),
            gw\<lparr>gw_world := emit (StreamCall (cx_policy cx) model_id (bedrock_messages (rq_messages cr))) (gw_world gw)\<rparr>))"

definition query_of :: "chat_ctx \<Rightarrow> string \<Rightarrow> chat_request \<Rightarrow> cache_query" where
  "query_of cx model_id cr =
     \<lparr>cq_tenant = id_tenant_id (cx_identity cx), cq_application = id_application_id (cx_identity cx),
      cq_policy = cx_policy cx, cq_model = model_id, cq_max_tokens = rq_max_tokens cr,
      cq_temperature = rq_temperature cr, cq_messages = normalize_messages (rq_messages cr)\<rparr>"

definition query_key :: "'key deps \<Rightarrow> cache_query \<Rightarrow> string" where
  "query_key deps q =
     build_cache_key (dp_float_repr deps) (dp_sha256_hex deps) (cq_tenant q) (cq_application q) (cq_policy q)
       (cq_model q) (cq_max_tokens q) (cq_temperature q) (cq_messages q)"

definition chat_response_of :: "chat_ctx \<Rightarrow> cached_response \<Rightarrow> py_float \<Rightarrow> bool \<Rightarrow> bool \<Rightarrow> chat_response" where
  "chat_response_of cx v latency hit fell_back =
     \<lparr>rs_request_id = cx_request_id cx, rs_model = cr_model_id v, rs_output = cr_text v,
      rs_stop_reason = cr_stop_reason v,
      rs_usage = \<lparr>us_input_tokens = cr_input_tokens v, us_output_tokens = cr_output_tokens v\<rparr>,
      rs_latency_ms = latency, rs_cache_hit = hit, rs_fallback = fell_back\<rparr>"

definition ok_json :: "chat_response \<Rightarrow> http_response" where
  "ok_json r = Json \<lparr>status_code = 200, body = model_dump r\<rparr>"

text \<open>A cache hit.\<close>

definition chat_hit ::
  "'key deps \<Rightarrow> chat_ctx \<Rightarrow> cache_query \<Rightarrow> string \<Rightarrow> py_float \<Rightarrow> cached_response \<Rightarrow> 'key gateway \<Rightarrow> 'key reply" where
  "chat_hit deps cx q input_text input_ms cached gw =
     (let cost = estimate_cost None (cr_model_id cached) (cr_input_tokens cached) (cr_output_tokens cached);
          gw = capture_if_enabled deps cx input_text (cr_text cached) gw;
          c = \<lparr>cp_model = cr_model_id cached, cp_guardrail_ms = input_ms, cp_input_tokens = cr_input_tokens cached,
               cp_output_tokens = cr_output_tokens cached, cp_latency_ms = 0, cp_retry_count = 0, cp_fallback = False,
               cp_cache_hit = True, cp_cost = cost, cp_slo_breach = False\<rparr>;
          gw = log_to (completion_log cx c) gw
      in ((ok_json (chat_response_of cx cached 0 True False), completion_span cx c),
          gw\<lparr>gw_world := emit (Answered q cached) (gw_world gw)\<rparr>))"

text \<open>\<open>_ERROR_STATUS_MAP\<close> with its default.\<close>

definition error_status :: "string \<Rightarrow> int \<times> string" where
  "error_status err_code =
     (if err_code = ''ThrottlingException'' then (429, ''UPSTREAM_THROTTLED'')
      else if err_code = ''ServiceUnavailableException'' then (503, ''UPSTREAM_UNAVAILABLE'')
      else if err_code = ''ModelTimeoutException'' then (504, ''UPSTREAM_TIMEOUT'')
      else (502, ''UPSTREAM_ERROR''))"

text \<open>After the model: output guardrail, cache write, capture, telemetry, answer.\<close>

definition chat_finish ::
  "'key deps \<Rightarrow> chat_ctx \<Rightarrow> cache_query \<Rightarrow> string \<Rightarrow> py_float \<Rightarrow> routed_result \<Rightarrow> 'key gateway \<Rightarrow> 'key reply" where
  "chat_finish deps cx q input_text input_ms routed gw =
     (let s = dp_settings deps; policy = cx_policy cx; result = rt_result routed;
          (verdict, output_ms, w) = output_guardrail deps policy (res_text result) (gw_world gw);
          gw = gw\<lparr>gw_world := w\<rparr>; total_ms = py_round (input_ms + output_ms) 2
      in case verdict of
        Inl (Crash t) \<Rightarrow> ((Unhandled t, cx_span cx), gw)
      | Inl (PipelineError status err_code message) \<Rightarrow>
          ((Json (error_response status err_code message (cx_request_id cx)),
            set_span_attributes ([(''status'', JInt status), (''error'', JStr message), (''model'', JStr (rt_model_id routed))] @
              guardrail_fields cx ''BLOCK'' total_ms @ [(''blocked_reason'', JStr message)]) (cx_span cx)),
           chat_failed cx (rt_model_id routed) status message
             (guardrail_fields cx ''BLOCK'' total_ms @ [(''blocked_reason'', JStr message)]) gw)
      | Inr _ \<Rightarrow>
         (let v = \<lparr>cr_text = res_text result, cr_stop_reason = res_stop_reason result,
                   cr_input_tokens = res_input_tokens result, cr_output_tokens = res_output_tokens result,
                   cr_model_id = rt_model_id routed\<rparr>;
              (now, w) = tick deps (gw_world gw);
              (wrote, cache) = rc_set (rc_cfg s) (gw_cache gw) (query_key deps q) v now;
              gw = gw\<lparr>gw_cache := cache, gw_world := emit (CacheWrite q v) w\<rparr>
          in case wrote of
            Inl e \<Rightarrow> ((Unhandled (exn_name e), cx_span cx), gw)
          | Inr _ \<Rightarrow>
             (let gw = capture_if_enabled deps cx input_text (res_text result) gw;
                  cost = estimate_cost None (rt_model_id routed) (res_input_tokens result) (res_output_tokens result);
                  c = \<lparr>cp_model = rt_model_id routed, cp_guardrail_ms = total_ms,
                       cp_input_tokens = res_input_tokens result, cp_output_tokens = res_output_tokens result,
                       cp_latency_ms = res_latency_ms result, cp_retry_count = res_retry_count result,
                       cp_fallback = rt_fallback routed, cp_cache_hit = False, cp_cost = cost,
                       cp_slo_breach = slo_breached policy (res_latency_ms result)\<rparr>;
                  gw = log_to (completion_log cx c) gw
              in ((ok_json (chat_response_of cx v (res_latency_ms result) False (rt_fallback routed)), completion_span cx c),
                  gw\<lparr>gw_world := emit (Answered q v) (gw_world gw)\<rparr>))))"

text \<open>A cache miss: the certified router, then \<open>chat_finish\<close>.\<close>

definition chat_miss ::
  "'key deps \<Rightarrow> chat_ctx \<Rightarrow> cache_query \<Rightarrow> string \<Rightarrow> py_float \<Rightarrow> chat_request \<Rightarrow> 'key gateway \<Rightarrow> 'key reply" where
  "chat_miss deps cx q input_text input_ms cr gw =
     (let s = dp_settings deps; policy = cx_policy cx; model_id = cq_model q;
          (start, w) = tick deps (gw_world gw);
          (out, br, w) = router_converse (breaker_cfg s) (dp_route_sets deps)
             (bedrock_call deps policy (bedrock_messages (rq_messages cr)) (rq_max_tokens cr) (rq_temperature cr))
             (tick deps) model_id (route_set policy) (gw_breakers gw) w;
          gw = gw\<lparr>gw_breakers := br, gw_world := w\<rparr>
      in case out of
        Inl (Failed e) \<Rightarrow>
          (let (status, err_code) = error_status (inv_code e); (now, w) = tick deps (gw_world gw) in
           ((Json (error_response status err_code (inv_message e) (cx_request_id cx)),
             set_span_attributes [(''status'', JInt status), (''error'', JStr (inv_message e))] (cx_span cx)),
            chat_failed cx model_id status (inv_message e)
              [(''latency_ms'', JFloat (elapsed_ms start now))] (gw\<lparr>gw_world := w\<rparr>)))
      | Inl (AllRoutesUnavailable name) \<Rightarrow>
          (let message = all_routes_message name; (now, w) = tick deps (gw_world gw) in
           ((Json (error_response 503 ''ALL_ROUTES_UNAVAILABLE'' message (cx_request_id cx)),
             set_span_attributes [(''status'', JInt 503), (''error'', JStr message)] (cx_span cx)),
            chat_failed cx model_id 503 message
              [(''latency_ms'', JFloat (elapsed_ms start now))] (gw\<lparr>gw_world := w\<rparr>)))
      | Inl (Propagated t) \<Rightarrow> ((Unhandled t, cx_span cx), gw)
      | Inr routed \<Rightarrow> chat_finish deps cx q input_text input_ms routed gw)"

definition chat_cached ::
  "'key deps \<Rightarrow> chat_ctx \<Rightarrow> string \<Rightarrow> string \<Rightarrow> py_float \<Rightarrow> chat_request \<Rightarrow> 'key gateway \<Rightarrow> 'key reply" where
  "chat_cached deps cx model_id input_text input_ms cr gw =
     (let q = query_of cx model_id cr; (now, w) = tick deps (gw_world gw);
          (found, cache) = rc_get (rc_cfg (dp_settings deps)) (gw_cache gw) (query_key deps q) now;
          gw = gw\<lparr>gw_cache := cache, gw_world := w\<rparr>
      in case found of
        Some cached \<Rightarrow> chat_hit deps cx q input_text input_ms cached gw
      | None \<Rightarrow> chat_miss deps cx q input_text input_ms cr gw)"

text \<open>From the validated request: allowlist and input guardrail.\<close>

definition chat_checked :: "'key deps \<Rightarrow> chat_ctx \<Rightarrow> chat_request \<Rightarrow> 'key gateway \<Rightarrow> 'key reply" where
  "chat_checked deps cx cr gw =
     (let policy = cx_policy cx in
      case enforce_model_allowlist policy (rq_model cr) (bedrock_model_id (dp_settings deps)) of
        Inl e \<Rightarrow> ((reject (cx_request_id cx) e, set_span_attributes (error_attributes e) (cx_span cx)), gw)
      | Inr model_id \<Rightarrow>
         (let cx = cx\<lparr>cx_span := set_span_attributes [(''model'', JStr model_id)] (cx_span cx)\<rparr>;
              input_text = combined_input_text (rq_messages cr);
              (verdict, input_ms, w) = input_guardrail deps policy input_text (gw_world gw);
              gw = gw\<lparr>gw_world := w\<rparr>
          in case verdict of
            Inl (Crash t) \<Rightarrow> ((Unhandled t, cx_span cx), gw)
          | Inl (PipelineError status err_code message) \<Rightarrow>
              ((Json (error_response status err_code message (cx_request_id cx)),
                set_span_attributes ([(''status'', JInt status), (''error'', JStr message)] @
                  guardrail_fields cx ''BLOCK'' input_ms @ [(''blocked_reason'', JStr message)]) (cx_span cx)),
               chat_failed cx model_id status message
                 (guardrail_fields cx ''BLOCK'' input_ms @ [(''blocked_reason'', JStr message)]) gw)
          | Inr _ \<Rightarrow>
              (if rq_stream cr then chat_stream deps cx model_id cr gw
               else chat_cached deps cx model_id input_text input_ms cr gw)))"

text \<open>The part after \<open>await request.json()\<close>; \<open>None\<close> is a body that is not JSON.\<close>

definition chat_body :: "'key deps \<Rightarrow> chat_ctx \<Rightarrow> json option \<Rightarrow> 'key gateway \<Rightarrow> 'key reply" where
  "chat_body deps cx request_body gw =
     (case request_body of
        None \<Rightarrow>
          ((Json (error_response 400 ''INVALID_JSON'' ''request body must be valid JSON'' (cx_request_id cx)),
            set_span_attributes [(''status'', JInt 400), (''error'', JStr ''invalid JSON'')] (cx_span cx)), gw)
      | Some v \<Rightarrow>
          (case model_validate (dp_pydantic deps) v of
             Inl msg \<Rightarrow>
               ((Json (error_response 400 ''INVALID_REQUEST'' msg (cx_request_id cx)),
                 set_span_attributes [(''status'', JInt 400), (''error'', JStr msg)] (cx_span cx)), gw)
           | Inr cr \<Rightarrow> chat_checked deps cx cr gw))"

text \<open>The span and context a request has once it is admitted.\<close>

definition admitted_ctx :: "string \<Rightarrow> identity \<Rightarrow> tenant_policy \<Rightarrow> chat_ctx" where
  "admitted_ctx rid i policy =
     \<lparr>cx_request_id = rid, cx_identity = i, cx_policy = policy,
      cx_span = set_span_attributes
        [(''tenant_id'', id_tenant_id i), (''application_id'', id_application_id i),
         (''policy_epoch'', JInt (policy_epoch policy)), (''route_set'', opt_str (route_set policy))]
        (set_span_attributes [(''request_id'', JStr rid)] [])\<rparr>"

text \<open>The handler up to the body: an answer, or the context to go on with.\<close>

definition chat_start ::
  "'key deps \<Rightarrow> string \<Rightarrow> http_request \<Rightarrow> 'key gateway \<Rightarrow> (http_response \<times> span_attributes + chat_ctx) \<times> 'key gateway" where
  "chat_start deps rid req gw =
     (case chat_admit deps req gw of
        (Inl e, gw) \<Rightarrow>
          (Inl (reject rid e, set_span_attributes (error_attributes e)
             (set_span_attributes [(''request_id'', JStr rid)] [])), gw)
      | (Inr (i, policy), gw) \<Rightarrow> (Inr (admitted_ctx rid i policy), gw))"

text \<open>The handler as a whole, when nothing else runs at its \<open>await\<close>.\<close>

definition chat ::
  "'key deps \<Rightarrow> string \<Rightarrow> http_request \<Rightarrow> json option \<Rightarrow> 'key gateway \<Rightarrow> 'key reply" where
  "chat deps rid req request_body gw =
     (case chat_start deps rid req gw of
        (Inl r, gw) \<Rightarrow> (r, gw)
      | (Inr cx, gw) \<Rightarrow> chat_body deps cx request_body gw)"

definition healthz :: json_response where
  "healthz = \<lparr>status_code = 200, body = JObj [(''status'', JStr ''ok'')]\<rparr>"

section \<open>Running a stream\<close>

text \<open>
  The server's run of a stream job: the model's chunks, then the generator's effects on the breaker and
  the log. \<open>dropped\<close> answers the disconnect polls, \<open>cancel\<close> is the suspension point at which the server
  leaves the generator, if it does.
\<close>

definition run_stream ::
  "'key deps \<Rightarrow> stream_job \<Rightarrow> (nat \<Rightarrow> bool) \<Rightarrow> nat option \<Rightarrow> py_float \<Rightarrow> 'key gateway \<Rightarrow> stream_action list \<times> 'key gateway" where
  "run_stream deps job dropped cancel duration_ms gw =
     (let w = gw_world gw;
          (chunks, raised) = converse_stream (dp_sdk deps) (w_sdk_calls w) (sj_model job) (sj_messages job)
             (sj_max_tokens job) (sj_temperature job);
          acts = stream_actions (dp_float_repr deps) dropped
             \<lparr>se_model = sj_model job, se_request_id = sj_request_id job, se_tenant = sj_tenant job,
              se_duration_ms = duration_ms\<rparr>
             chunks (map_option Invocation raised) cancel;
          (now, w) = tick deps (w\<lparr>w_sdk_calls := w_sdk_calls w + 1\<rparr>)
      in (acts,
          gw\<lparr>gw_breakers := breakers_after (breaker_cfg (dp_settings deps)) (sj_model job) now acts (gw_breakers gw),
             gw_world := w,
             gw_logs := gw_logs gw @ concat (map (\<lambda>a. case a of Log r \<Rightarrow> [r] | _ \<Rightarrow> []) acts)\<rparr>))"

end
