(* ===== verification/Admin_Handler.thy ===== *)
theory Admin_Handler
  imports Gateway
begin

text \<open>
  The admin handler (\<open>api/admin_routes.py\<close>), split at its \<open>await\<close> of the request body like the chat handler.
\<close>

definition admin_start ::
  "'key deps \<Rightarrow> string \<Rightarrow> http_request \<Rightarrow> 'key gateway \<Rightarrow> (http_response + identity) \<times> 'key gateway" where
  "admin_start deps rid req gw =
     (let (auth, v, w) = authenticate (app_verify deps) (gw_verifier gw, gw_world gw) (Some (dp_iam deps))
             (hr_authorization req) (hr_principal_arn req) (hr_account_id req);
          gw = gw\<lparr>gw_verifier := v, gw_world := w\<rparr>
      in case auth of
        Inl e \<Rightarrow> (Inl (reject rid e), gw)
      | Inr i \<Rightarrow>
         (case authorize i (admin_required_role (dp_settings deps)) of
            Inl e \<Rightarrow> (Inl (reject rid e), gw)
          | Inr _ \<Rightarrow> (Inr i, gw)))"

definition invalid_state_message :: string where
  "invalid_state_message = quoted ''state'' @ '' must be one of '' @ repr_str_list (map state_value tenant_states)"

text \<open>The part after the body; \<open>tid\<close> is the path parameter.\<close>

definition admin_body ::
  "'key deps \<Rightarrow> string \<Rightarrow> identity \<Rightarrow> string \<Rightarrow> json option \<Rightarrow> 'key gateway \<Rightarrow> http_response \<times> 'key gateway" where
  "admin_body deps rid i tid request_body gw =
     (case request_body of
        None \<Rightarrow> (Json (error_response 400 ''INVALID_JSON'' ''request body must be valid JSON'' rid), gw)
      | Some v \<Rightarrow>
         (let raw_state = (case v of JObj d \<Rightarrow> dict_get d ''state'' | _ \<Rightarrow> JNull) in
          case parse_state raw_state of
            None \<Rightarrow> (Json (error_response 400 ''INVALID_REQUEST'' invalid_state_message rid), gw)
          | Some new_state \<Rightarrow>
             (case store_set_state (gw_policies gw) tid new_state of
                Inl unknown \<Rightarrow> (Json (error_response 404 ''TENANT_NOT_FOUND'' (unknown_tenant_message unknown) rid), gw)
              | Inr (updated, policies) \<Rightarrow>
                  (Json \<lparr>status_code = 200, body = JObj
                     [(''tenant_id'', JStr tid), (''state'', JStr (state_value (state updated))),
                      (''policy_epoch'', JInt (policy_epoch updated))]\<rparr>,
                   log_to (log_event ''gateway.admin'' ''INFO'' ''tenant state changed'' (JStr rid) JNull
                       [(''tenant_id'', JStr tid), (''actor'', id_sub i), (''new_state'', JStr (state_value new_state)),
                        (''policy_epoch'', JInt (policy_epoch updated))])
                     (gw\<lparr>gw_policies := policies, gw_snapshots := pc_invalidate (gw_snapshots gw) tid\<rparr>)))))"

definition set_tenant_state ::
  "'key deps \<Rightarrow> string \<Rightarrow> http_request \<Rightarrow> string \<Rightarrow> json option \<Rightarrow> 'key gateway \<Rightarrow> http_response \<times> 'key gateway" where
  "set_tenant_state deps rid req tid request_body gw =
     (case admin_start deps rid req gw of
        (Inl r, gw) \<Rightarrow> (r, gw)
      | (Inr i, gw) \<Rightarrow> admin_body deps rid i tid request_body gw)"

end
