(* ===== verification/Middleware.thy ===== *)
theory Middleware
  imports Gateway
begin

text \<open>
  The request middleware (\<open>telemetry/middleware.py\<close>) and the last exception handler of \<open>main.py\<close>.
\<close>

definition request_id_of :: "http_request \<Rightarrow> string" where
  "request_id_of req =
     (case hr_request_id req of None \<Rightarrow> hr_uuid req | Some r \<Rightarrow> if r = [] then hr_uuid req else r)"

text \<open>\<open>unhandled_error\<close>: what the caller sees of an exception, and its log line.\<close>

definition unhandled_error :: "string \<Rightarrow> string \<Rightarrow> string \<Rightarrow> json_response \<times> log_record" where
  "unhandled_error rid path exc =
     (error_response 500 ''INTERNAL_ERROR'' ''internal error'' rid,
      log_event ''gateway.main'' ''ERROR'' ''unhandled exception'' (JStr rid) (JStr exc) [(''path'', JStr path)])"

definition access_log :: "http_request \<Rightarrow> int \<Rightarrow> py_float \<Rightarrow> log_record" where
  "access_log req status duration_ms =
     log_event ''gateway.access'' ''INFO'' ''request completed'' (JStr (request_id_of req)) JNull
       [(''method'', JStr (hr_method req)), (''path'', JStr (hr_path req)), (''status'', JInt status),
        (''duration_ms'', JFloat duration_ms)]"

text \<open>
  \<open>dispatch\<close> around a handler's answer: the access log runs for every outcome; an exception passes on to
  \<open>unhandled_error\<close>. The result is the status, the \<open>x-request-id\<close> header if the middleware set it, and the
  state.
\<close>

definition dispatch ::
  "'key deps \<Rightarrow> http_request \<Rightarrow> ('key gateway \<Rightarrow> http_response \<times> 'key gateway) \<Rightarrow> 'key gateway \<Rightarrow>
   http_response \<times> string option \<times> 'key gateway" where
  "dispatch deps req handler gw =
     (let (t0, w) = tick deps (gw_world gw);
          (r, gw) = handler (gw\<lparr>gw_world := w\<rparr>);
          (t1, w) = tick deps (gw_world gw);
          gw = gw\<lparr>gw_world := w\<rparr>
      in case r of
        Json j \<Rightarrow> (r, Some (request_id_of req), log_to (access_log req (status_code j) (elapsed_ms t0 t1)) gw)
      | EventStream job \<Rightarrow> (r, Some (request_id_of req), log_to (access_log req 200 (elapsed_ms t0 t1)) gw)
      | Unhandled exc \<Rightarrow>
          (let (j, record) = unhandled_error (request_id_of req) (hr_path req) exc in
           (Json j, None, log_to record (log_to (access_log req 500 (elapsed_ms t0 t1)) gw))))"

end
