(* ===== verification/Gateway_Safety.thy ===== *)
theory Gateway_Safety
  imports Chat_Handler Admin_Handler Middleware
begin

text \<open>
  The order of events that the handlers of \<open>Gateway\<close> keep: what has to be in the trace before a model
  call, a cache write and an answer, and that every cache entry was written under its query's key.
\<close>

section \<open>The order of events\<close>

definition prompt_text :: "bedrock_message list \<Rightarrow> string" where
  "prompt_text messages = join newline (map bm_text messages)"

text \<open>The models a tenant's policy and its route set admit.\<close>

definition certified :: "route_sets \<Rightarrow> tenant_policy \<Rightarrow> string \<Rightarrow> bool" where
  "certified sets policy m \<longleftrightarrow>
     models policy = [] \<or> List.member (models policy) m \<or> List.member (fallbacks_for sets (route_set policy)) m"

definition input_passed :: "gateway_event list \<Rightarrow> tenant_policy \<Rightarrow> bedrock_message list \<Rightarrow> bool" where
  "input_passed tr policy messages \<longleftrightarrow>
     (\<exists>check. GuardIn policy (prompt_text messages) check \<in> set tr \<and> text_passed policy check)"

fun event_ok :: "'key deps \<Rightarrow> gateway_event list \<Rightarrow> gateway_event \<Rightarrow> bool" where
  "event_ok deps tr (ModelCall policy m messages) \<longleftrightarrow>
     state policy \<notin> BLOCKING_STATES \<and> certified (dp_route_sets deps) policy m \<and> input_passed tr policy messages"
| "event_ok deps tr (StreamCall policy m messages) \<longleftrightarrow>
     state policy \<notin> BLOCKING_STATES \<and> certified (dp_route_sets deps) policy m \<and> input_passed tr policy messages"
| "event_ok deps tr (CacheWrite q v) \<longleftrightarrow>
     (\<exists>check. GuardOut (cq_policy q) (cr_text v) check \<in> set tr \<and> text_passed (cq_policy q) check)"
| "event_ok deps tr (Answered q v) \<longleftrightarrow>
     (\<exists>q'. CacheWrite q' v \<in> set tr \<and> query_key deps q' = query_key deps q)"
| "event_ok deps tr (GuardIn policy t r) \<longleftrightarrow> (\<exists>n. r = dp_check_input deps n t (guardrail_policy policy))"
| "event_ok deps tr (GuardOut policy t r) \<longleftrightarrow> (\<exists>n. r = dp_check_output deps n t (guardrail_policy policy))"

text \<open>Every event was admissible when it happened.\<close>

inductive safe_trace :: "'key deps \<Rightarrow> gateway_event list \<Rightarrow> bool" for deps where
  safe_Nil: "safe_trace deps []"
| safe_snoc: "safe_trace deps tr \<Longrightarrow> event_ok deps tr ev \<Longrightarrow> safe_trace deps (tr @ [ev])"

lemma safe_trace_event:
  "safe_trace deps tr \<Longrightarrow> tr = xs @ ev # ys \<Longrightarrow> event_ok deps xs ev"
proof (induction arbitrary: ys rule: safe_trace.induct)
  case (safe_snoc tr ev')
  then show ?case by (cases ys rule: rev_cases) (auto simp flip: append_Cons append_assoc)
qed simp

abbreviation tr_of :: "'key gateway \<Rightarrow> gateway_event list" where
  "tr_of gw \<equiv> w_trace (gw_world gw)"

text \<open>Every cache entry was written, under the key of the query it was written for.\<close>

definition cache_backed :: "'key deps \<Rightarrow> cached_response entries \<Rightarrow> gateway_event list \<Rightarrow> bool" where
  "cache_backed deps es tr \<longleftrightarrow>
     (\<forall>k t v. (k, (t, v)) \<in> set es \<longrightarrow> (\<exists>q. CacheWrite q v \<in> set tr \<and> query_key deps q = k))"

definition good :: "'key deps \<Rightarrow> 'key gateway \<Rightarrow> bool" where
  "good deps gw \<longleftrightarrow> safe_trace deps (tr_of gw) \<and> cache_backed deps (gw_cache gw) (tr_of gw)"

lemma cache_backed_mono: "cache_backed deps es tr \<Longrightarrow> set tr \<subseteq> set tr' \<Longrightarrow> cache_backed deps es tr'"
  unfolding cache_backed_def by blast

lemma cache_backed_subset: "cache_backed deps es tr \<Longrightarrow> set es' \<subseteq> set es \<Longrightarrow> cache_backed deps es' tr"
  unfolding cache_backed_def by blast

section \<open>The parts of the handlers\<close>

lemma tick_trace [frame, simp]: "w_trace (snd (tick deps w)) = w_trace w"
  by (simp add: tick_def)

lemma tick_traceD: "tick deps w = (t, w') \<Longrightarrow> w_trace w' = w_trace w"
  using tick_trace [of deps w] by simp

lemma emit_trace [simp]: "w_trace (emit ev w) = w_trace w @ [ev]"
  by (simp add: emit_def)

lemma log_to_simps [frame, simp]:
  "gw_world (log_to r gw) = gw_world gw" "gw_cache (log_to r gw) = gw_cache gw"
  "gw_policies (log_to r gw) = gw_policies gw" "gw_snapshots (log_to r gw) = gw_snapshots gw"
  by (simp_all add: log_to_def)

lemma chat_failed_simps [frame, simp]:
  "gw_world (chat_failed cx m st msg ex gw) = gw_world gw" "gw_cache (chat_failed cx m st msg ex gw) = gw_cache gw"
  by (simp_all add: chat_failed_def)

lemma capture_simps [frame, simp]:
  "tr_of (capture_if_enabled deps cx i t gw) = tr_of gw"
  "gw_cache (capture_if_enabled deps cx i t gw) = gw_cache gw"
  by (simp_all add: capture_if_enabled_def split: prod.split) (simp_all add: tick_def)

lemma app_verify_trace [frame]: "w_trace (snd (snd (app_verify deps (v, w) token))) = w_trace w"
  by (auto simp: app_verify_def tick_def Let_def split: prod.split sum.split)

lemma authenticate_frame [frame]:
  "w_trace (snd (snd (authenticate (app_verify deps) (v, w) r h arn acc))) = w_trace w"
  using authenticate_state [of "app_verify deps" "(v, w)" r h arn acc] app_verify_trace [of deps v w] by auto

text \<open>What admission leaves alone, and what it guarantees.\<close>

definition admit_frame :: "'key gateway \<Rightarrow> 'key gateway \<Rightarrow> bool" where
  "admit_frame gw gw' \<longleftrightarrow> tr_of gw' = tr_of gw \<and> gw_cache gw' = gw_cache gw \<and> gw_policies gw' = gw_policies gw \<and>
     gw_breakers gw' = gw_breakers gw"

lemma chat_admit_spec:
  assumes "chat_admit deps req gw = (r, gw')"
  shows "admit_frame gw gw'"
    and "r = Inr (i, policy) \<Longrightarrow> state policy \<notin> BLOCKING_STATES \<and> has_role i (chat_required_role (dp_settings deps))"
proof -
  obtain auth v w where a: "authenticate (app_verify deps) (gw_verifier gw, gw_world gw) (Some (dp_iam deps))
      (hr_authorization req) (hr_principal_arn req) (hr_account_id req) = (auth, v, w)" by (metis prod_cases3)
  with authenticate_frame [of deps "gw_verifier gw" "gw_world gw"] have w: "w_trace w = tr_of gw" by (metis snd_conv)
  obtain t1 w1 where t1: "tick deps w = (t1, w1)" by (cases "tick deps w")
  obtain t2 w2 where t2: "tick deps w1 = (t2, w2)" by (cases "tick deps w1")
  obtain t3 w3 where t3: "tick deps w2 = (t3, w3)" by (cases "tick deps w2")
  note ticks = tick_traceD [OF t1] tick_traceD [OF t2] tick_traceD [OF t3]
  show "admit_frame gw gw'"
    using assms a t1 t2 t3 ticks w
    by (auto simp: chat_admit_def admit_frame_def Let_def split: sum.splits prod.splits)
  show "state policy \<notin> BLOCKING_STATES \<and> has_role i (chat_required_role (dp_settings deps))" if "r = Inr (i, policy)"
    using assms a t1 t2 t3 that
    by (auto simp: chat_admit_def enforce_kill_switch_def authorize_def require_role_def Let_def
        split: sum.splits prod.splits if_splits)
qed

lemma chat_start_spec:
  assumes "chat_start deps rid req gw = (r, gw')"
  shows "admit_frame gw gw'" and "r = Inr cx \<Longrightarrow> state (cx_policy cx) \<notin> BLOCKING_STATES"
  using assms chat_admit_spec [of deps req gw]
  by (auto simp: chat_start_def admitted_ctx_def split: prod.splits sum.splits)

lemma admin_start_frame: "admin_start deps rid req gw = (r, gw') \<Longrightarrow> admit_frame gw gw'"
  using authenticate_frame [of deps "gw_verifier gw" "gw_world gw" "Some (dp_iam deps)" "hr_authorization req"
      "hr_principal_arn req" "hr_account_id req"]
  by (auto simp: admin_start_def admit_frame_def Let_def split: prod.splits sum.splits)

section \<open>Guardrails and the router\<close>

lemma prompt_text_bedrock [simp]: "prompt_text (bedrock_messages ms) = combined_input_text ms"
  by (simp add: prompt_text_def bedrock_messages_def combined_input_text_def comp_def)

lemma input_guardrail_spec:
  assumes "input_guardrail deps policy txt w = (r, ms, w')"
  shows "\<exists>check. w_trace w' = w_trace w @ [GuardIn policy txt check] \<and> (is_ok r \<longleftrightarrow> text_passed policy check) \<and>
    (\<exists>n. check = dp_check_input deps n txt (guardrail_policy policy))"
  using assms by (auto simp: input_guardrail_def tick_def Let_def check_input_ok)

lemma output_guardrail_spec:
  assumes "output_guardrail deps policy txt w = (r, ms, w')"
  shows "\<exists>check. w_trace w' = w_trace w @ [GuardOut policy txt check] \<and> (is_ok r \<longleftrightarrow> text_passed policy check) \<and>
    (\<exists>n. check = dp_check_output deps n txt (guardrail_policy policy))"
  using assms by (auto simp: output_guardrail_def tick_def Let_def check_output_ok)

lemma guardrail_stage_status: "guardrail_stage policy check = Inl (PipelineError st c msg) \<Longrightarrow> st = 503"
  by (auto simp: guardrail_stage_def split: sum.splits)

lemma input_guardrail_status:
  "input_guardrail deps policy txt w = (r, ms, w') \<Longrightarrow> r = Inl (PipelineError st c msg) \<Longrightarrow> st \<noteq> 200"
  by (auto simp: input_guardrail_def check_input_guardrail_def bind_r_Inl_iff Let_def tick_def
      dest: guardrail_stage_status split: if_splits)

lemma output_guardrail_status:
  "output_guardrail deps policy txt w = (r, ms, w') \<Longrightarrow> r = Inl (PipelineError st c msg) \<Longrightarrow> st \<noteq> 200"
  by (auto simp: output_guardrail_def check_output_guardrail_def bind_r_Inl_iff Let_def tick_def
      dest: guardrail_stage_status split: if_splits)

lemma bypassed_output_guardrail:
  assumes "classify_safety (guardrail_policy policy) = LOW_RISK" "allow_guardrail_bypass_on_error policy"
    and "dp_check_output deps (w_guard_calls w) txt (guardrail_policy policy) = Inl exc"
  shows "\<exists>ms w'. output_guardrail deps policy txt w =
    (Inr \<lparr>action = ALLOW, category = None, reason = Some (''guardrail bypassed on error: '' @ exc)\<rparr>, ms, w')"
  using assms
  by (simp add: output_guardrail_def tick_def Let_def check_output_guardrail_def guardrail_stage_def run_guardrail_check_def)

text \<open>The models called so far, as the router's contract wants them.\<close>

fun called_model :: "gateway_event \<Rightarrow> string list" where
  "called_model (ModelCall policy m messages) = [m]"
| "called_model _ = []"

definition model_calls :: "world \<Rightarrow> string list" where
  "model_calls w = concat (map called_model (w_trace w))"

lemma bedrock_call_trace:
  "w_trace (snd (bedrock_call deps policy messages mt temp m w)) = w_trace w @ [ModelCall policy m messages]"
  by (auto simp: bedrock_call_def tick_def Let_def split: prod.split)

interpretation bedrock: model_client "bedrock_call deps policy messages mt temp" "tick deps" model_calls
  for deps policy messages mt temp
  by unfold_locales (simp_all add: model_calls_def bedrock_call_trace)

lemma candidates_certified:
  assumes "enforce_model_allowlist policy requested dflt = Inr p" "m \<in> set (candidates sets p (route_set policy))"
  shows "certified sets policy m"
proof (cases "m = p")
  case True
  with assms(1) show ?thesis
    by (auto simp: enforce_model_allowlist_def certified_def split: option.splits if_splits)
next
  case False
  with assms(2) show ?thesis by (auto simp: candidates_def certified_def)
qed

text \<open>The condition under which the router may run, which its calls keep.\<close>

definition cleared :: "'key deps \<Rightarrow> tenant_policy \<Rightarrow> bedrock_message list \<Rightarrow> gateway_event list \<Rightarrow> world \<Rightarrow> bool" where
  "cleared deps policy messages tr w \<longleftrightarrow>
     safe_trace deps (w_trace w) \<and> input_passed (w_trace w) policy messages \<and> set tr \<subseteq> set (w_trace w)"

lemma cleared_tick: "cleared deps policy messages tr w \<Longrightarrow> cleared deps policy messages tr (snd (tick deps w))"
  by (simp add: cleared_def)

lemma cleared_call:
  assumes "cleared deps policy messages tr w" "state policy \<notin> BLOCKING_STATES" "certified (dp_route_sets deps) policy m"
  shows "cleared deps policy messages tr (snd (bedrock_call deps policy messages mt temp m w))"
  using assms unfolding cleared_def bedrock_call_trace
  by (auto intro!: safe_snoc simp: input_passed_def)

lemma router_cleared:
  assumes "cleared deps policy messages tr w" "state policy \<notin> BLOCKING_STATES"
    and "enforce_model_allowlist policy requested dflt = Inr p"
    and "router_converse cfg (dp_route_sets deps) (bedrock_call deps policy messages mt temp) (tick deps) p
           (route_set policy) br w = (out, br', w')"
  shows "cleared deps policy messages tr w'"
proof -
  have "cleared deps policy messages tr (snd (snd (router_converse cfg (dp_route_sets deps)
      (bedrock_call deps policy messages mt temp) (tick deps) p (route_set policy) br w)))"
    by (rule router_converse_keeps)
      (use assms(1-3) in \<open>auto intro: cleared_call cleared_tick candidates_certified\<close>)
  with assms(4) show ?thesis by simp
qed

section \<open>The chat handler keeps the order of events\<close>

lemma rc_get_subset: "set (snd (rc_get cfg es k now)) \<subseteq> set es"
proof -
  have "set (move_to_end k es) \<subseteq> set es"
    using AList.delete_eq by (auto simp: move_to_end_def AList.delete_eq split: option.split dest: map_of_SomeD)
  then show ?thesis by (auto simp: rc_get_def AList.delete_eq split: option.split)
qed

lemma rc_get_found: "fst (rc_get cfg es k now) = Some v \<Longrightarrow> \<exists>t. (k, (t, v)) \<in> set es"
  by (auto simp: rc_get_Some_iff dest: map_of_SomeD)

lemma rc_set_subset: "set (snd (rc_set cfg es k v now)) \<subseteq> insert (k, (now, v)) (set es)"
proof -
  obtain pre where "AList.delete k es @ [(k, (now, v))] = pre @ snd (rc_set cfg es k v now)"
    unfolding rc_set_eq using evict_suffix by blast
  then have "set (snd (rc_set cfg es k v now)) \<subseteq> set (AList.delete k es @ [(k, (now, v))])" by (metis Un_upper2 set_append)
  then show ?thesis by (auto simp: AList.delete_eq)
qed

lemma good_cong: "tr_of gw' = tr_of gw \<Longrightarrow> gw_cache gw' = gw_cache gw \<Longrightarrow> good deps gw \<Longrightarrow> good deps gw'"
  by (simp add: good_def)

lemma good_emit:
  assumes "good deps gw" "tr_of gw' = tr_of gw @ [ev]" "event_ok deps (tr_of gw) ev" "gw_cache gw' = gw_cache gw"
  shows "good deps gw'"
  using assms cache_backed_mono [of deps "gw_cache gw" "tr_of gw" "tr_of gw'"]
  unfolding good_def by (auto intro: safe_snoc)

text \<open>What every part of the handler promises: the invariant, and that nothing is forgotten.\<close>

definition keeps :: "'key deps \<Rightarrow> 'key gateway \<Rightarrow> 'key gateway \<Rightarrow> bool" where
  "keeps deps gw gw' \<longleftrightarrow> (good deps gw \<longrightarrow> good deps gw') \<and> set (tr_of gw) \<subseteq> set (tr_of gw')"

lemma keeps_trans [trans]: "keeps deps gw gw' \<Longrightarrow> keeps deps gw' gw'' \<Longrightarrow> keeps deps gw gw''"
  unfolding keeps_def by blast

lemma keeps_same: "tr_of gw' = tr_of gw \<Longrightarrow> gw_cache gw' = gw_cache gw \<Longrightarrow> keeps deps gw gw'"
  using good_cong [of gw' gw deps] unfolding keeps_def by simp

lemma keeps_emit:
  assumes "tr_of gw' = tr_of gw @ [ev]" "event_ok deps (tr_of gw) ev" "gw_cache gw' = gw_cache gw"
  shows "keeps deps gw gw'"
  unfolding keeps_def using good_emit [OF _ assms] assms(1) by auto

lemma keeps_admit: "admit_frame gw gw' \<Longrightarrow> keeps deps gw gw'"
  by (simp add: admit_frame_def keeps_same)

text \<open>The answer of a completed request is in the trace.\<close>

definition answered :: "chat_ctx \<Rightarrow> cache_query \<Rightarrow> http_response \<Rightarrow> 'key gateway \<Rightarrow> bool" where
  "answered cx q r gw \<longleftrightarrow> (\<exists>v ms hit fb. Answered q v \<in> set (tr_of gw) \<and> r = ok_json (chat_response_of cx v ms hit fb))"

lemma chat_hit_keeps:
  assumes "chat_hit deps cx q txt ms v gw = ((r, sp), gw')"
    and "CacheWrite q' v \<in> set (tr_of gw)" "query_key deps q' = query_key deps q"
  shows "keeps deps gw gw'" and "answered cx q r gw'"
proof -
  from assms(1) have tr: "tr_of gw' = tr_of gw @ [Answered q v]" and "gw_cache gw' = gw_cache gw"
    and r: "r = ok_json (chat_response_of cx v 0 True False)"
    by (auto simp: chat_hit_def Let_def)
  then show "keeps deps gw gw'" using assms(2, 3) by (intro keeps_emit) auto
  show "answered cx q r gw'" unfolding answered_def tr r by (auto intro!: exI [of _ v])
qed

lemma cache_write_keeps:
  assumes "GuardOut (cq_policy q) (cr_text v) check \<in> set (tr_of gw)" "text_passed (cq_policy q) check"
    and "rc_set cfg (gw_cache gw) (query_key deps q) v now = (res, cache)"
    and "tr_of gw' = tr_of gw @ [CacheWrite q v]" "gw_cache gw' = cache"
  shows "keeps deps gw gw'"
proof -
  have "good deps gw'" if g: "good deps gw"
  proof -
    have ok: "event_ok deps (tr_of gw) (CacheWrite q v)" using assms(1, 2) by auto
    have sub: "set cache \<subseteq> insert (query_key deps q, (now, v)) (set (gw_cache gw))"
      using rc_set_subset [of cfg "gw_cache gw" "query_key deps q" v now] assms(3) by simp
    have backed: "cache_backed deps (gw_cache gw) (tr_of gw @ [CacheWrite q v])"
      using g unfolding good_def by (auto intro: cache_backed_mono)
    have "cache_backed deps cache (tr_of gw @ [CacheWrite q v])"
      unfolding cache_backed_def
    proof (intro allI impI)
      fix k t u assume "(k, (t, u)) \<in> set cache"
      with sub consider "k = query_key deps q" "u = v" | "(k, (t, u)) \<in> set (gw_cache gw)" by blast
      then show "\<exists>q'. CacheWrite q' u \<in> set (tr_of gw @ [CacheWrite q v]) \<and> query_key deps q' = k"
        using backed unfolding cache_backed_def by cases auto
    qed
    with g safe_snoc [OF _ ok] show ?thesis unfolding good_def assms(4, 5) by blast
  qed
  then show ?thesis unfolding keeps_def by (simp add: assms(4)) blast
qed

lemma good_tick: "good deps (gw\<lparr>gw_world := w\<rparr>) \<longleftrightarrow> good deps gw" if "w_trace w = tr_of gw"
  using that by (simp add: good_def)

lemma chat_finish_keeps:
  assumes "chat_finish deps cx q txt ms routed gw = ((r, sp), gw')" and "cq_policy q = cx_policy cx"
  shows "keeps deps gw gw'" and "r = Json j \<Longrightarrow> status_code j = 200 \<Longrightarrow> answered cx q r gw'"
proof -
  define v where "v = \<lparr>cr_text = res_text (rt_result routed), cr_stop_reason = res_stop_reason (rt_result routed),
     cr_input_tokens = res_input_tokens (rt_result routed), cr_output_tokens = res_output_tokens (rt_result routed),
     cr_model_id = rt_model_id routed\<rparr>"
  obtain verdict oms w where g: "output_guardrail deps (cx_policy cx) (res_text (rt_result routed)) (gw_world gw) = (verdict, oms, w)"
    by (metis prod_cases3)
  from output_guardrail_spec [OF g] obtain check where
    w: "w_trace w = tr_of gw @ [GuardOut (cx_policy cx) (cr_text v) check]" and ok: "is_ok verdict \<longleftrightarrow> text_passed (cx_policy cx) check"
    and real: "\<exists>n. check = dp_check_output deps n (cr_text v) (guardrail_policy (cx_policy cx))"
    by (auto simp: v_def)
  define gw1 where "gw1 = gw\<lparr>gw_world := w\<rparr>"
  have k1: "keeps deps gw gw1"
    by (rule keeps_emit [where ev = "GuardOut (cx_policy cx) (cr_text v) check"]) (simp_all add: gw1_def w real)
  obtain now w2 where t: "tick deps w = (now, w2)" by (cases "tick deps w")
  obtain res cache where rc: "rc_set (rc_cfg (dp_settings deps)) (gw_cache gw) (query_key deps q) v now = (res, cache)"
    by (cases "rc_set (rc_cfg (dp_settings deps)) (gw_cache gw) (query_key deps q) v now")
  define gw2 where "gw2 = gw1\<lparr>gw_cache := cache, gw_world := emit (CacheWrite q v) w2\<rparr>"
  have tr2: "tr_of gw2 = tr_of gw1 @ [CacheWrite q v]" using tick_traceD [OF t] by (simp add: gw2_def gw1_def)
  have k2: "keeps deps gw1 gw2" if "text_passed (cx_policy cx) check"
    by (rule cache_write_keeps [of q v check _ "rc_cfg (dp_settings deps)" deps now res cache])
      (use that rc tr2 in \<open>simp_all add: gw2_def gw1_def w assms(2)\<close>)
  consider (rejected) e where "verdict = Inl e" | (failed) d e where "verdict = Inr d" "res = Inl e"
    | (stored) d where "verdict = Inr d" "res = Inr ()" by (cases verdict; cases res) auto
  then have "keeps deps gw gw' \<and> (r = Json j \<longrightarrow> status_code j = 200 \<longrightarrow> answered cx q r gw')"
  proof cases
    case rejected
    with assms(1) g output_guardrail_status [OF g]
    have "tr_of gw' = tr_of gw1" "gw_cache gw' = gw_cache gw1" "r = Json j \<Longrightarrow> status_code j \<noteq> 200"
      by (auto simp: chat_finish_def Let_def gw1_def error_response_def split: stage_error.splits)
    then show ?thesis using keeps_trans [OF k1 keeps_same [of gw' gw1 deps]] by blast
  next
    case failed
    with assms(1) g t rc have "gw' = gw2" "r = Unhandled (exn_name e)"
      by (simp_all add: chat_finish_def Let_def v_def gw1_def gw2_def)
    with keeps_trans [OF k1 k2] failed ok show ?thesis by simp
  next
    case stored
    define gw3 where "gw3 = capture_if_enabled deps cx txt (res_text (rt_result routed)) gw2"
    from stored assms(1) g t rc have tr: "tr_of gw' = tr_of gw3 @ [Answered q v]" and c: "gw_cache gw' = gw_cache gw3"
      and r: "r = ok_json (chat_response_of cx v (res_latency_ms (rt_result routed)) False (rt_fallback routed))"
      by (auto simp: chat_finish_def Let_def v_def gw1_def gw2_def gw3_def)
    have "keeps deps gw2 gw3" by (rule keeps_same) (simp_all add: gw3_def)
    moreover have "keeps deps gw3 gw'"
      by (rule keeps_emit [OF tr _ c]) (auto simp: gw3_def tr2 intro: exI [of _ q])
    moreover have "answered cx q r gw'" unfolding answered_def r tr by (auto intro!: exI [of _ v])
    ultimately show ?thesis using k1 k2 stored ok by (auto intro: keeps_trans)
  qed
  then show "keeps deps gw gw'" "r = Json j \<Longrightarrow> status_code j = 200 \<Longrightarrow> answered cx q r gw'" by blast+
qed

lemma router_grows:
  assumes "router_converse cfg sets (bedrock_call deps policy messages mt temp) (tick deps) p n br w = (out, br', w')"
  shows "set (w_trace w) \<subseteq> set (w_trace w')"
proof -
  have "set (w_trace w) \<subseteq> set (w_trace (snd (snd (router_converse cfg sets (bedrock_call deps policy messages mt temp)
      (tick deps) p n br w))))"
    by (rule router_converse_keeps) (auto simp: bedrock_call_trace)
  with assms show ?thesis by simp
qed

lemma error_status_not_200: "error_status c = (st, e) \<Longrightarrow> st \<noteq> 200"
  by (auto simp: error_status_def split: if_splits)

lemma chat_miss_keeps:
  assumes "chat_miss deps cx q txt ms cr gw = ((r, sp), gw')" and "cq_policy q = cx_policy cx"
    and "state (cx_policy cx) \<notin> BLOCKING_STATES"
    and "enforce_model_allowlist (cx_policy cx) requested dflt = Inr (cq_model q)"
    and "input_passed (tr_of gw) (cx_policy cx) (bedrock_messages (rq_messages cr))"
  shows "keeps deps gw gw'" and "r = Json j \<Longrightarrow> status_code j = 200 \<Longrightarrow> answered cx q r gw'"
proof -
  define msgs where "msgs = bedrock_messages (rq_messages cr)"
  obtain t0 w0 where t0: "tick deps (gw_world gw) = (t0, w0)" by (cases "tick deps (gw_world gw)")
  obtain out br w where rt: "router_converse (breaker_cfg (dp_settings deps)) (dp_route_sets deps)
      (bedrock_call deps (cx_policy cx) msgs (rq_max_tokens cr) (rq_temperature cr)) (tick deps) (cq_model q)
      (route_set (cx_policy cx)) (gw_breakers gw) w0 = (out, br, w)" by (metis prod_cases3)
  define gw1 where "gw1 = gw\<lparr>gw_breakers := br, gw_world := w\<rparr>"
  have routed: "cleared deps (cx_policy cx) msgs (tr_of gw) w" if "safe_trace deps (tr_of gw)"
    by (rule router_cleared [OF _ assms(3, 4) rt])
      (use that assms(5) tick_traceD [OF t0] in \<open>simp add: cleared_def msgs_def\<close>)
  have grew: "set (tr_of gw) \<subseteq> set (w_trace w)" using router_grows [OF rt] tick_traceD [OF t0] by simp
  have k1: "keeps deps gw gw1"
    using routed grew cache_backed_mono [of deps "gw_cache gw" "tr_of gw" "w_trace w"]
    unfolding keeps_def good_def gw1_def cleared_def by simp
  have fin: "keeps deps gw gw' \<and> (r = Json j \<longrightarrow> status_code j = 200 \<longrightarrow> answered cx q r gw')"
    if "tr_of gw' = tr_of gw1" "gw_cache gw' = gw_cache gw1" "r = Json j \<Longrightarrow> status_code j \<noteq> 200"
    using keeps_trans [OF k1 keeps_same [of gw' gw1 deps]] that by blast
  obtain t1 w1 where t1: "tick deps w = (t1, w1)" by (cases "tick deps w")
  note run = t0 rt [unfolded msgs_def] t1 tick_traceD [OF t1]
  consider (failed) e where "out = Inl (Failed e)" | (unavailable) n where "out = Inl (AllRoutesUnavailable n)"
    | (propagated) t where "out = Inl (Propagated t)" | (routed) rr where "out = Inr rr"
    by (metis sum.exhaust route_error.exhaust)
  then have "keeps deps gw gw' \<and> (r = Json j \<longrightarrow> status_code j = 200 \<longrightarrow> answered cx q r gw')"
  proof cases
    case failed
    obtain st c where "error_status (inv_code e) = (st, c)" by (cases "error_status (inv_code e)")
    with error_status_not_200 [OF this] failed assms(1) run show ?thesis
      by (intro fin) (auto simp: chat_miss_def Let_def gw1_def error_response_def)
  next
    case unavailable
    with assms(1) run show ?thesis
      by (intro fin) (auto simp: chat_miss_def Let_def gw1_def error_response_def)
  next
    case propagated
    with assms(1) run show ?thesis by (intro fin) (auto simp: chat_miss_def Let_def gw1_def)
  next
    case (routed rr)
    with assms(1) run have "chat_finish deps cx q txt ms rr gw1 = ((r, sp), gw')"
      by (simp add: chat_miss_def Let_def gw1_def)
    from chat_finish_keeps [OF this assms(2)] keeps_trans [OF k1] show ?thesis by blast
  qed
  then show "keeps deps gw gw'" "r = Json j \<Longrightarrow> status_code j = 200 \<Longrightarrow> answered cx q r gw'" by blast+
qed

lemma chat_cached_keeps:
  assumes "chat_cached deps cx m txt ms cr gw = ((r, sp), gw')"
    and "state (cx_policy cx) \<notin> BLOCKING_STATES"
    and "enforce_model_allowlist (cx_policy cx) requested dflt = Inr m"
    and "input_passed (tr_of gw) (cx_policy cx) (bedrock_messages (rq_messages cr))" and "good deps gw"
  shows "keeps deps gw gw'" and "r = Json j \<Longrightarrow> status_code j = 200 \<Longrightarrow> answered cx (query_of cx m cr) r gw'"
proof -
  let ?q = "query_of cx m cr"
  obtain now w where t: "tick deps (gw_world gw) = (now, w)" by (cases "tick deps (gw_world gw)")
  obtain found cache where g: "rc_get (rc_cfg (dp_settings deps)) (gw_cache gw) (query_key deps ?q) now = (found, cache)"
    by (cases "rc_get (rc_cfg (dp_settings deps)) (gw_cache gw) (query_key deps ?q) now")
  define gw1 where "gw1 = gw\<lparr>gw_cache := cache, gw_world := w\<rparr>"
  have tr: "tr_of gw1 = tr_of gw" using tick_traceD [OF t] by (simp add: gw1_def)
  have "set cache \<subseteq> set (gw_cache gw)"
    using rc_get_subset [of "rc_cfg (dp_settings deps)" "gw_cache gw" "query_key deps ?q" now] g by simp
  then have k1: "keeps deps gw gw1"
    using cache_backed_subset tr unfolding keeps_def good_def by (fastforce simp: gw1_def)
  have q: "cq_policy ?q = cx_policy cx" "cq_model ?q = m" by (simp_all add: query_of_def)
  have "keeps deps gw gw' \<and> (r = Json j \<longrightarrow> status_code j = 200 \<longrightarrow> answered cx ?q r gw')"
  proof (cases found)
    case None
    with assms(1) t g have "chat_miss deps cx ?q txt ms cr gw1 = ((r, sp), gw')"
      by (simp add: chat_cached_def Let_def gw1_def)
    from chat_miss_keeps [OF this q(1) assms(2)] assms(3, 4) q(2) tr keeps_trans [OF k1] show ?thesis by simp
  next
    case (Some v)
    with g rc_get_found [of "rc_cfg (dp_settings deps)" "gw_cache gw" "query_key deps ?q" now v]
    obtain ts where "(query_key deps ?q, (ts, v)) \<in> set (gw_cache gw)" by auto
    with assms(5) obtain q' where q': "CacheWrite q' v \<in> set (tr_of gw1)" "query_key deps q' = query_key deps ?q"
      unfolding good_def cache_backed_def tr by blast
    from Some assms(1) t g have "chat_hit deps cx ?q txt ms v gw1 = ((r, sp), gw')"
      by (simp add: chat_cached_def Let_def gw1_def)
    from chat_hit_keeps [OF this q'] keeps_trans [OF k1] show ?thesis by blast
  qed
  then show "keeps deps gw gw'" "r = Json j \<Longrightarrow> status_code j = 200 \<Longrightarrow> answered cx ?q r gw'" by blast+
qed

lemma chat_stream_keeps:
  assumes "chat_stream deps cx m cr gw = ((r, sp), gw')"
    and "state (cx_policy cx) \<notin> BLOCKING_STATES"
    and "enforce_model_allowlist (cx_policy cx) requested dflt = Inr m"
    and "input_passed (tr_of gw) (cx_policy cx) (bedrock_messages (rq_messages cr))"
  shows "keeps deps gw gw'" and "r = Json j \<Longrightarrow> status_code j \<noteq> 200"
proof -
  obtain now w where t: "tick deps (gw_world gw) = (now, w)" by (cases "tick deps (gw_world gw)")
  obtain ok br where al: "cb_allow (breaker_cfg (dp_settings deps)) (gw_breakers gw) m now = (ok, br)"
    by (cases "cb_allow (breaker_cfg (dp_settings deps)) (gw_breakers gw) m now")
  have cert: "certified (dp_route_sets deps) (cx_policy cx) m"
    using candidates_certified [OF assms(3), of m] by (simp add: candidates_def)
  have "keeps deps gw gw' \<and> (r = Json j \<longrightarrow> status_code j \<noteq> 200)"
  proof (cases ok)
    case True
    with assms(1) t al have tr: "tr_of gw' = tr_of gw @ [StreamCall (cx_policy cx) m (bedrock_messages (rq_messages cr))]"
      and c: "gw_cache gw' = gw_cache gw" and "\<exists>job. r = EventStream job"
      using tick_traceD [OF t] by (auto simp: chat_stream_def Let_def)
    moreover have "keeps deps gw gw'" by (rule keeps_emit [OF tr _ c]) (use assms cert in simp)
    ultimately show ?thesis by auto
  next
    case False
    with assms(1) t al have "tr_of gw' = tr_of gw" "gw_cache gw' = gw_cache gw" "r = Json j \<longrightarrow> status_code j \<noteq> 200"
      using tick_traceD [OF t] by (auto simp: chat_stream_def Let_def error_response_def)
    with keeps_same [of gw' gw deps] show ?thesis by blast
  qed
  then show "keeps deps gw gw'" "r = Json j \<Longrightarrow> status_code j \<noteq> 200" by blast+
qed

text \<open>The query a context and a request of the handler stand for.\<close>

definition asks :: "'key deps \<Rightarrow> chat_ctx \<Rightarrow> chat_request \<Rightarrow> cache_query \<Rightarrow> bool" where
  "asks deps cx cr q \<longleftrightarrow>
     (\<exists>m. enforce_model_allowlist (cx_policy cx) (rq_model cr) (bedrock_model_id (dp_settings deps)) = Inr m \<and>
        q = query_of cx m cr)"

lemma chat_checked_keeps:
  assumes "chat_checked deps cx cr gw = ((r, sp), gw')" and "state (cx_policy cx) \<notin> BLOCKING_STATES" and "good deps gw"
  shows "keeps deps gw gw' \<and> (r = Json j \<longrightarrow> status_code j = 200 \<longrightarrow> (\<exists>q. asks deps cx cr q \<and> answered cx q r gw'))"
proof (cases "enforce_model_allowlist (cx_policy cx) (rq_model cr) (bedrock_model_id (dp_settings deps))")
  case (Inl e)
  then have "\<exists>msg. e = PipelineError 403 ''MODEL_NOT_ALLOWED'' msg"
    by (auto simp: enforce_model_allowlist_def split: option.splits if_splits)
  with assms(1) Inl have "gw' = gw" "r = Json j \<Longrightarrow> status_code j \<noteq> 200"
    by (auto simp: chat_checked_def Let_def error_response_def)
  then show ?thesis by (auto simp: keeps_def)
next
  case (Inr m)
  define cx1 where "cx1 = cx\<lparr>cx_span := set_span_attributes [(''model'', JStr m)] (cx_span cx)\<rparr>"
  have cx1: "cx_policy cx1 = cx_policy cx" "query_of cx1 m cr = query_of cx m cr" "answered cx1 q r gw' = answered cx q r gw'" for q r
    by (simp_all add: cx1_def query_of_def answered_def chat_response_of_def)
  let ?txt = "combined_input_text (rq_messages cr)"
  obtain verdict ms w where g: "input_guardrail deps (cx_policy cx) ?txt (gw_world gw) = (verdict, ms, w)"
    by (metis prod_cases3)
  from input_guardrail_spec [OF g] obtain check where
    w: "w_trace w = tr_of gw @ [GuardIn (cx_policy cx) ?txt check]" and ok: "is_ok verdict \<longleftrightarrow> text_passed (cx_policy cx) check"
    and real: "\<exists>n. check = dp_check_input deps n ?txt (guardrail_policy (cx_policy cx))"
    by auto
  define gw1 where "gw1 = gw\<lparr>gw_world := w\<rparr>"
  have k1: "keeps deps gw gw1"
    by (rule keeps_emit [where ev = "GuardIn (cx_policy cx) ?txt check"]) (simp_all add: gw1_def w real)
  then have good1: "good deps gw1" using assms(3) by (simp add: keeps_def)
  have passed: "input_passed (tr_of gw1) (cx_policy cx1) (bedrock_messages (rq_messages cr))" if "is_ok verdict"
    using that ok w by (auto simp: input_passed_def gw1_def cx1_def)
  note run = assms(1) Inr g
  show ?thesis
  proof (cases verdict)
    case (Inl e)
    with run input_guardrail_status [OF g] have "tr_of gw' = tr_of gw1" "gw_cache gw' = gw_cache gw1"
      "r = Json j \<Longrightarrow> status_code j \<noteq> 200"
      by (auto simp: chat_checked_def Let_def gw1_def error_response_def split: stage_error.splits)
    then show ?thesis using keeps_trans [OF k1 keeps_same [of gw' gw1 deps]] by blast
  next
    case (Inr d)
    show ?thesis
    proof (cases "rq_stream cr")
      case True
      with run Inr have "chat_stream deps cx1 m cr gw1 = ((r, sp), gw')"
        by (simp add: chat_checked_def Let_def gw1_def cx1_def)
      from chat_stream_keeps [OF this, of "rq_model cr" "bedrock_model_id (dp_settings deps)"] passed Inr
        assms(2) cx1 \<open>enforce_model_allowlist _ _ _ = Inr m\<close> keeps_trans [OF k1]
      show ?thesis by auto
    next
      case False
      with run Inr have "chat_cached deps cx1 m ?txt ms cr gw1 = ((r, sp), gw')"
        by (simp add: chat_checked_def Let_def gw1_def cx1_def)
      from chat_cached_keeps [OF this, of "rq_model cr" "bedrock_model_id (dp_settings deps)"] passed Inr good1
        assms(2) cx1 \<open>enforce_model_allowlist _ _ _ = Inr m\<close> keeps_trans [OF k1]
      show ?thesis unfolding asks_def by auto
    qed
  qed
qed

lemma chat_body_keeps:
  assumes "chat_body deps cx b gw = ((r, sp), gw')" and "state (cx_policy cx) \<notin> BLOCKING_STATES" and "good deps gw"
  shows "keeps deps gw gw'" and "r = Json j \<Longrightarrow> status_code j = 200 \<Longrightarrow>
     \<exists>v cr q. b = Some v \<and> model_validate (dp_pydantic deps) v = Inr cr \<and> asks deps cx cr q \<and> answered cx q r gw'"
proof -
  have "keeps deps gw gw' \<and> (r = Json j \<longrightarrow> status_code j = 200 \<longrightarrow>
      (\<exists>v cr q. b = Some v \<and> model_validate (dp_pydantic deps) v = Inr cr \<and> asks deps cx cr q \<and> answered cx q r gw'))"
  proof (cases "\<exists>v cr. b = Some v \<and> model_validate (dp_pydantic deps) v = Inr cr")
    case True
    then obtain v cr where b: "b = Some v" "model_validate (dp_pydantic deps) v = Inr cr" by blast
    with assms(1) have "chat_checked deps cx cr gw = ((r, sp), gw')" by (simp add: chat_body_def)
    from chat_checked_keeps [OF this assms(2, 3), of j] b show ?thesis by blast
  next
    case False
    with assms(1) have "gw' = gw" "r = Json j \<Longrightarrow> status_code j \<noteq> 200"
      by (auto simp: chat_body_def error_response_def split: option.splits sum.splits)
    then show ?thesis by (auto simp: keeps_def)
  qed
  then show "keeps deps gw gw'" "r = Json j \<Longrightarrow> status_code j = 200 \<Longrightarrow>
     \<exists>v cr q. b = Some v \<and> model_validate (dp_pydantic deps) v = Inr cr \<and> asks deps cx cr q \<and> answered cx q r gw'" by blast+
qed

end
