(* ===== verification/Event_Loop.thy ===== *)
theory Event_Loop
  imports Gateway_Safety
begin

text \<open>
  The service as a transition system: the event loop interleaves requests at the \<open>await\<close> of their bodies
  and runs streams in between; the middleware reads the clock and logs. Everything else is atomic, because handlers are coroutines of one
  thread. The invariants of the reachable states: the order of events (\<open>good\<close>), the snapshot cache agrees
  with the store, and what waits was admitted.
\<close>

datatype pending =
    AwaitChat chat_ctx
  | AwaitAdmin string identity string
  | Streaming stream_job

type_synonym 'key system = "'key gateway \<times> pending list"

fun started :: "http_response \<Rightarrow> pending list" where
  "started (EventStream job) = [Streaming job]"
| "started _ = []"

inductive step :: "'key deps \<Rightarrow> 'key system \<Rightarrow> 'key system \<Rightarrow> bool" for deps where
  chat_admitted:
    "chat_start deps rid req gw = (Inr cx, gw') \<Longrightarrow> step deps (gw, ps) (gw', AwaitChat cx # ps)"
| chat_rejected:
    "chat_start deps rid req gw = (Inl r, gw') \<Longrightarrow> step deps (gw, ps) (gw', ps)"
| chat_continues:
    "AwaitChat cx \<in> set ps \<Longrightarrow> chat_body deps cx b gw = ((r, sp), gw') \<Longrightarrow>
       step deps (gw, ps) (gw', started r @ remove1 (AwaitChat cx) ps)"
| admin_admitted:
    "admin_start deps rid req gw = (Inr i, gw') \<Longrightarrow> step deps (gw, ps) (gw', AwaitAdmin rid i tid # ps)"
| admin_rejected:
    "admin_start deps rid req gw = (Inl r, gw') \<Longrightarrow> step deps (gw, ps) (gw', ps)"
| admin_continues:
    "AwaitAdmin rid i tid \<in> set ps \<Longrightarrow> admin_body deps rid i tid b gw = (r, gw') \<Longrightarrow>
       step deps (gw, ps) (gw', remove1 (AwaitAdmin rid i tid) ps)"
| stream_runs:
    "Streaming job \<in> set ps \<Longrightarrow> run_stream deps job dropped cancel d gw = (acts, gw') \<Longrightarrow>
       step deps (gw, ps) (gw', remove1 (Streaming job) ps)"
| clock_read:
    "step deps (gw, ps) (gw\<lparr>gw_world := snd (tick deps (gw_world gw))\<rparr>, ps)"
| line_logged:
    "step deps (gw, ps) (log_to r gw, ps)"

inductive_cases stepE: "step deps (gw, ps) (gw', ps')"

inductive reachable :: "'key deps \<Rightarrow> policy_store \<Rightarrow> 'key system \<Rightarrow> bool" for deps policies where
  reach_init: "reachable deps policies (create_app policies, [])"
| reach_step: "reachable deps policies s \<Longrightarrow> step deps s s' \<Longrightarrow> reachable deps policies s'"

section \<open>Invariants\<close>

definition snapshots_agree :: "'key gateway \<Rightarrow> bool" where
  "snapshots_agree gw \<longleftrightarrow>
     (\<forall>tid s. gw_snapshots gw tid = Some s \<longrightarrow> gw_policies gw tid = Some (snap_policy s))"

fun pending_ok :: "'key deps \<Rightarrow> pending \<Rightarrow> bool" where
  "pending_ok deps (AwaitChat cx) \<longleftrightarrow>
     state (cx_policy cx) \<notin> BLOCKING_STATES \<and> has_role (cx_identity cx) (chat_required_role (dp_settings deps)) \<and>
     is_str (id_tenant_id (cx_identity cx))"
| "pending_ok deps (AwaitAdmin rid i tid) \<longleftrightarrow> has_role i (admin_required_role (dp_settings deps))"
| "pending_ok deps (Streaming job) \<longleftrightarrow> True"

definition sys_ok :: "'key deps \<Rightarrow> 'key system \<Rightarrow> bool" where
  "sys_ok deps = (\<lambda>(gw, ps). good deps gw \<and> snapshots_agree gw \<and> list_all (pending_ok deps) ps)"

text \<open>Which parts of the state each operation leaves alone.\<close>

lemma pc_get_agrees:
  assumes "pc_get ttl (store_get policies) snaps tid tc ts = (r, snaps')"
    and "\<And>t s. snaps t = Some s \<Longrightarrow> policies t = Some (snap_policy s)"
  shows "snaps' t = Some s \<Longrightarrow> policies t = Some (snap_policy s)" and "r = Inr p \<Longrightarrow> policies tid = Some p"
  using assms by (auto simp: pc_defs store_get_def split: option.splits sum.splits if_splits)

lemma resolve_policy_agrees:
  assumes "resolve_policy fr ttl (store_get policies) snaps i tc ts = (r, snaps')"
    and "\<And>t s. snaps t = Some s \<Longrightarrow> policies t = Some (snap_policy s)"
  shows "snaps' t = Some s \<Longrightarrow> policies t = Some (snap_policy s)"
    and "r = Inr p \<Longrightarrow> \<exists>tid. id_tenant_id i = JStr tid \<and> policies tid = Some p"
proof -
  have "(snaps' t = Some s \<longrightarrow> policies t = Some (snap_policy s)) \<and>
      (r = Inr p \<longrightarrow> (\<exists>tid. id_tenant_id i = JStr tid \<and> policies tid = Some p))"
  proof (cases "\<exists>tid. id_tenant_id i = JStr tid")
    case True
    then obtain tid where tid: "id_tenant_id i = JStr tid" by blast
    obtain r1 sn1 where g: "pc_get ttl (store_get policies) snaps tid tc ts = (r1, sn1)"
      by (cases "pc_get ttl (store_get policies) snaps tid tc ts")
    from pc_get_agrees [OF g assms(2)] assms(1) tid g show ?thesis
      by (auto simp: resolve_policy_def split: sum.splits)
  next
    case False
    with assms show ?thesis by (cases "id_tenant_id i") (auto simp: resolve_policy_def)
  qed
  then show "snaps' t = Some s \<Longrightarrow> policies t = Some (snap_policy s)"
    "r = Inr p \<Longrightarrow> \<exists>tid. id_tenant_id i = JStr tid \<and> policies tid = Some p" by blast+
qed

lemma chat_admit_agrees:
  assumes "chat_admit deps req gw = (r, gw')" and "snapshots_agree gw"
  shows "snapshots_agree gw'"
    and "r = Inr (i, policy) \<Longrightarrow> \<exists>tid. id_tenant_id i = JStr tid \<and> gw_policies gw tid = Some policy"
proof -
  obtain auth v w where a: "authenticate (app_verify deps) (gw_verifier gw, gw_world gw) (Some (dp_iam deps))
      (hr_authorization req) (hr_principal_arn req) (hr_account_id req) = (auth, v, w)" by (metis prod_cases3)
  obtain t1 w1 where t1: "tick deps w = (t1, w1)" by (cases "tick deps w")
  obtain t2 w2 where t2: "tick deps w1 = (t2, w2)" by (cases "tick deps w1")
  have agree: "\<And>t s. gw_snapshots gw t = Some s \<Longrightarrow> gw_policies gw t = Some (snap_policy s)"
    using assms(2) by (simp add: snapshots_agree_def)
  have "snapshots_agree gw' \<and>
      (r = Inr (i, policy) \<longrightarrow> (\<exists>tid. id_tenant_id i = JStr tid \<and> gw_policies gw tid = Some policy))"
  proof (cases "\<exists>i0. auth = Inr i0 \<and> authorize i0 (chat_required_role (dp_settings deps)) = Inr ()")
    case False
    with assms a show ?thesis by (auto simp: chat_admit_def snapshots_agree_def Let_def split: sum.splits)
  next
    case True
    then obtain i0 where i0: "auth = Inr i0" "authorize i0 (chat_required_role (dp_settings deps)) = Inr ()" by blast
    obtain res sn where g: "resolve_policy (dp_float_repr deps) (policy_cache_ttl_s (dp_settings deps))
        (store_get (gw_policies gw)) (gw_snapshots gw) i0 t1 t2 = (res, sn)" by fastforce
    note g' = resolve_policy_agrees [OF g agree]
    have "gw_snapshots gw' = sn \<and> gw_policies gw' = gw_policies gw \<and> (r = Inr (i, policy) \<longrightarrow> i = i0 \<and> res = Inr policy)"
      using assms(1) a t1 t2 i0 g
      by (auto simp: chat_admit_def Let_def split: sum.splits prod.splits)
    then show ?thesis using g' unfolding snapshots_agree_def by metis
  qed
  then show "snapshots_agree gw'"
    "r = Inr (i, policy) \<Longrightarrow> \<exists>tid. id_tenant_id i = JStr tid \<and> gw_policies gw tid = Some policy" by blast+
qed

section \<open>Past the body, the policy store is not consulted\<close>

definition with_policies :: "policy_store \<Rightarrow> snapshots \<Rightarrow> 'key gateway \<Rightarrow> 'key gateway" where
  "with_policies policies snaps gw = gw\<lparr>gw_policies := policies, gw_snapshots := snaps\<rparr>"

lemma with_policies_sel [simp]:
  "gw_policies (with_policies p s gw) = p" "gw_snapshots (with_policies p s gw) = s"
  "gw_world (with_policies p s gw) = gw_world gw" "gw_cache (with_policies p s gw) = gw_cache gw"
  "gw_breakers (with_policies p s gw) = gw_breakers gw" "gw_debug (with_policies p s gw) = gw_debug gw"
  "gw_limiter (with_policies p s gw) = gw_limiter gw" "gw_verifier (with_policies p s gw) = gw_verifier gw"
  "gw_logs (with_policies p s gw) = gw_logs gw"
  by (simp_all add: with_policies_def)

lemma with_policies_upd [simp]:
  "gw_world_update f (with_policies p s gw) = with_policies p s (gw_world_update f gw)"
  "gw_cache_update g (with_policies p s gw) = with_policies p s (gw_cache_update g gw)"
  "gw_breakers_update h (with_policies p s gw) = with_policies p s (gw_breakers_update h gw)"
  "gw_debug_update k (with_policies p s gw) = with_policies p s (gw_debug_update k gw)"
  "gw_logs_update l (with_policies p s gw) = with_policies p s (gw_logs_update l gw)"
  by (simp_all add: with_policies_def)

lemma with_policies_self [simp]: "with_policies (gw_policies gw) (gw_snapshots gw) gw = gw"
  by (simp add: with_policies_def)

lemma with_policies_log [simp]: "log_to r (with_policies p s gw) = with_policies p s (log_to r gw)"
  "chat_failed cx m st msg ex (with_policies p s gw) = with_policies p s (chat_failed cx m st msg ex gw)"
  by (simp_all add: log_to_def chat_failed_def)

lemma with_policies_capture [simp]:
  "capture_if_enabled deps cx i t (with_policies p s gw) = with_policies p s (capture_if_enabled deps cx i t gw)"
  by (simp add: capture_if_enabled_def split: prod.split)

lemma with_policies_hit:
  "chat_hit deps cx q txt ms v (with_policies p s gw) = map_prod id (with_policies p s) (chat_hit deps cx q txt ms v gw)"
  by (simp add: chat_hit_def Let_def)

lemma with_policies_finish:
  "chat_finish deps cx q txt ms r (with_policies p s gw) = map_prod id (with_policies p s) (chat_finish deps cx q txt ms r gw)"
  by (simp add: chat_finish_def Let_def split: prod.split sum.split stage_error.split)

lemma with_policies_miss:
  "chat_miss deps cx q txt ms cr (with_policies p s gw) = map_prod id (with_policies p s) (chat_miss deps cx q txt ms cr gw)"
  by (simp add: chat_miss_def Let_def with_policies_finish split: prod.split sum.split route_error.split)

lemma with_policies_cached:
  "chat_cached deps cx m txt ms cr (with_policies p s gw) = map_prod id (with_policies p s) (chat_cached deps cx m txt ms cr gw)"
  by (simp add: chat_cached_def Let_def with_policies_hit with_policies_miss split: prod.split option.split)

lemma with_policies_stream:
  "chat_stream deps cx m cr (with_policies p s gw) = map_prod id (with_policies p s) (chat_stream deps cx m cr gw)"
  by (simp add: chat_stream_def Let_def split: prod.split)

lemma with_policies_checked:
  "chat_checked deps cx cr (with_policies p s gw) = map_prod id (with_policies p s) (chat_checked deps cx cr gw)"
  by (simp add: chat_checked_def Let_def with_policies_cached with_policies_stream
      split: prod.split sum.split stage_error.split)

lemma with_policies_body:
  "chat_body deps cx b (with_policies p s gw) = map_prod id (with_policies p s) (chat_body deps cx b gw)"
  by (simp add: chat_body_def with_policies_checked split: option.split sum.split)

lemma chat_body_policies [frame]:
  assumes "chat_body deps cx b gw = (r, gw')"
  shows "gw_policies gw' = gw_policies gw" "gw_snapshots gw' = gw_snapshots gw"
proof -
  have "chat_body deps cx b gw = map_prod id (with_policies (gw_policies gw) (gw_snapshots gw)) (chat_body deps cx b gw)"
    using with_policies_body [of deps cx b "gw_policies gw" "gw_snapshots gw" gw] by simp
  with assms have "gw' = with_policies (gw_policies gw) (gw_snapshots gw) gw'" by simp
  then show "gw_policies gw' = gw_policies gw" "gw_snapshots gw' = gw_snapshots gw"
    by (metis with_policies_sel(1), metis with_policies_sel(2))
qed

section \<open>Every reachable state satisfies the invariants\<close>

lemma list_all_remove1: "list_all P xs \<Longrightarrow> list_all P (remove1 x xs)"
  by (meson list_all_iff notin_set_remove1)

lemma started_ok: "list_all (pending_ok deps) (started r)"
  by (cases r) auto

lemma admin_body_frame:
  assumes "admin_body deps rid i tid b gw = (r, gw')"
  shows "tr_of gw' = tr_of gw" "gw_cache gw' = gw_cache gw" "snapshots_agree gw \<Longrightarrow> snapshots_agree gw'"
proof -
  show "tr_of gw' = tr_of gw" "gw_cache gw' = gw_cache gw"
    using assms by (auto simp: admin_body_def Let_def split: option.splits sum.splits)
  show "snapshots_agree gw'" if "snapshots_agree gw"
    using that assms
    by (auto simp: admin_body_def Let_def snapshots_agree_def pc_invalidate_def store_set_state_def store_get_def
        split: option.splits sum.splits if_splits)
qed

lemma run_stream_frame:
  assumes "run_stream deps job dropped c d gw = (acts, gw')"
  shows "tr_of gw' = tr_of gw" "gw_cache gw' = gw_cache gw" "gw_policies gw' = gw_policies gw" "gw_snapshots gw' = gw_snapshots gw"
  using assms by (auto simp: run_stream_def tick_def Let_def split: prod.splits)

lemma admin_start_state:
  assumes "admin_start deps rid req gw = (r, gw')"
  shows "gw_policies gw' = gw_policies gw" "gw_snapshots gw' = gw_snapshots gw"
    and "r = Inr i \<Longrightarrow> has_role i (admin_required_role (dp_settings deps))"
  using assms by (auto simp: admin_start_def authorize_def require_role_def Let_def split: prod.splits sum.splits if_splits)

lemma chat_start_state:
  assumes "chat_start deps rid req gw = (r, gw')" "snapshots_agree gw"
  shows "snapshots_agree gw'" "admit_frame gw gw'"
    and "r = Inr cx \<Longrightarrow> pending_ok deps (AwaitChat cx) \<and>
      (\<exists>tid. id_tenant_id (cx_identity cx) = JStr tid \<and> gw_policies gw tid = Some (cx_policy cx))"
proof -
  obtain out gw1 where a: "chat_admit deps req gw = (out, gw1)" by (cases "chat_admit deps req gw")
  then have gw1: "gw' = gw1" using assms(1) by (auto simp: chat_start_def split: sum.splits prod.splits)
  from chat_admit_agrees(1) [OF a assms(2)] chat_admit_spec(1) [OF a]
  show "snapshots_agree gw'" "admit_frame gw gw'" by (simp_all add: gw1)
  show "pending_ok deps (AwaitChat cx) \<and>
      (\<exists>tid. id_tenant_id (cx_identity cx) = JStr tid \<and> gw_policies gw tid = Some (cx_policy cx))" if "r = Inr cx"
  proof -
    from that a assms(1) obtain i policy where "out = Inr (i, policy)" "cx = admitted_ctx rid i policy"
      by (auto simp: chat_start_def split: sum.splits prod.splits)
    with chat_admit_spec(2) [OF a, of i policy] chat_admit_agrees(2) [OF a assms(2), of i policy]
    show ?thesis by (auto simp: admitted_ctx_def)
  qed
qed

lemma step_ok:
  assumes "step deps s s'" "sys_ok deps s"
  shows "sys_ok deps s'"
  using assms
proof (induction rule: step.induct)
  case (chat_admitted rid req gw cx gw' ps)
  with chat_start_state [OF chat_admitted(1)] keeps_admit [of gw gw' deps] show ?case
    by (auto simp: sys_ok_def keeps_def)
next
  case (chat_rejected rid req gw r gw' ps)
  with chat_start_state [OF chat_rejected(1)] keeps_admit [of gw gw' deps] show ?case
    by (auto simp: sys_ok_def keeps_def)
next
  case (chat_continues cx ps b gw r sp gw')
  then have ok: "good deps gw" "snapshots_agree gw" "list_all (pending_ok deps) ps" by (simp_all add: sys_ok_def)
  with chat_continues(1) have nb: "state (cx_policy cx) \<notin> BLOCKING_STATES" by (auto simp: list_all_iff)
  from chat_body_keeps(1) [OF chat_continues(2) nb ok(1)] ok(1) have "good deps gw'" by (simp add: keeps_def)
  moreover from chat_body_policies [OF chat_continues(2)] ok(2) have "snapshots_agree gw'"
    by (simp add: snapshots_agree_def)
  ultimately show ?case using ok(3) by (simp add: sys_ok_def started_ok list_all_remove1)
next
  case (admin_admitted rid req gw i gw' ps tid)
  with admin_start_state [OF admin_admitted(1)] keeps_admit [OF admin_start_frame [OF admin_admitted(1)], of deps]
  show ?case by (simp add: sys_ok_def keeps_def snapshots_agree_def)
next
  case (admin_rejected rid req gw r gw' ps)
  with admin_start_state [OF admin_rejected(1)] keeps_admit [OF admin_start_frame [OF admin_rejected(1)], of deps]
  show ?case by (simp add: sys_ok_def keeps_def snapshots_agree_def)
next
  case (admin_continues rid i tid ps b gw r gw')
  with admin_body_frame [OF admin_continues(2)] good_cong [of gw' gw deps] show ?case
    by (simp add: sys_ok_def list_all_remove1)
next
  case (stream_runs job ps dropped c d gw acts gw')
  with run_stream_frame [OF stream_runs(2)] good_cong [of gw' gw deps] show ?case
    by (simp add: sys_ok_def list_all_remove1 snapshots_agree_def)
next
  case (clock_read gw ps)
  then show ?case by (simp add: sys_ok_def snapshots_agree_def good_def)
next
  case (line_logged gw ps r)
  then show ?case by (simp add: sys_ok_def snapshots_agree_def good_def)
qed

lemma init_ok: "sys_ok deps (create_app policies, [])"
  by (auto simp: sys_ok_def create_app_def good_def cache_backed_def snapshots_agree_def intro: safe_Nil)

lemma reachable_ok: "reachable deps policies s \<Longrightarrow> sys_ok deps s"
  by (induction rule: reachable.induct) (auto intro: init_ok step_ok)

section \<open>Where an answer comes from\<close>

definition output_passed :: "gateway_event list \<Rightarrow> cache_query \<Rightarrow> cached_response \<Rightarrow> bool" where
  "output_passed tr q v \<longleftrightarrow> CacheWrite q v \<in> set tr \<and>
     (\<exists>check. GuardOut (cq_policy q) (cr_text v) check \<in> set tr \<and> text_passed (cq_policy q) check)"

lemma written_passed:
  assumes "safe_trace deps tr" "CacheWrite q v \<in> set tr"
  shows "output_passed tr q v"
proof -
  from assms(2) obtain xs ys where tr: "tr = xs @ CacheWrite q v # ys" by (auto dest: split_list)
  from safe_trace_event [OF assms(1) tr] assms(2) show ?thesis by (auto simp: output_passed_def tr)
qed

lemma answered_written:
  assumes "safe_trace deps tr" "Answered q v \<in> set tr"
  shows "\<exists>q'. output_passed tr q' v \<and> query_key deps q' = query_key deps q"
proof -
  from assms(2) obtain xs ys where tr: "tr = xs @ Answered q v # ys" by (auto dest: split_list)
  from safe_trace_event [OF assms(1) tr] obtain q' where "CacheWrite q' v \<in> set tr" "query_key deps q' = query_key deps q"
    by (auto simp: tr)
  with written_passed [OF assms(1)] show ?thesis by blast
qed

lemma answer_provenance:
  assumes "reachable deps policies (gw, ps)" and "AwaitChat cx \<in> set ps"
    and "chat_body deps cx b gw = ((Json j, sp), gw')" and "status_code j = 200"
  shows "\<exists>v cr m body' q' ms hit fb.
     b = Some body' \<and> model_validate (dp_pydantic deps) body' = Inr cr \<and>
     enforce_model_allowlist (cx_policy cx) (rq_model cr) (bedrock_model_id (dp_settings deps)) = Inr m \<and>
     Json j = ok_json (chat_response_of cx v ms hit fb) \<and>
     query_key deps q' = query_key deps (query_of cx m cr) \<and> output_passed (tr_of gw') q' v \<and>
     Answered (query_of cx m cr) v \<in> set (tr_of gw')"
proof -
  from reachable_ok [OF assms(1)] assms(2) have ok: "good deps gw" "state (cx_policy cx) \<notin> BLOCKING_STATES"
    by (auto simp: sys_ok_def list_all_iff)
  from chat_body_keeps(2) [OF assms(3) ok(2, 1) refl assms(4)] obtain body' cr q where
    b: "b = Some body'" "model_validate (dp_pydantic deps) body' = Inr cr" "asks deps cx cr q"
    and an: "answered cx q (Json j) gw'" by blast
  from an obtain v ms hit fb where v: "Answered q v \<in> set (tr_of gw')"
    "Json j = ok_json (chat_response_of cx v ms hit fb)" by (auto simp: answered_def)
  from chat_body_keeps(1) [OF assms(3) ok(2, 1)] ok(1) have "safe_trace deps (tr_of gw')"
    by (simp add: keeps_def good_def)
  from answered_written [OF this v(1)] b v show ?thesis unfolding asks_def by blast
qed

text \<open>
  A request answered with 200: a stream the client asked for, of the model it is admitted to and of the
  prompt that passed the input check, or a JSON answer.
\<close>

lemma stream_answered:
  assumes "chat_stream deps cx m cr gw = ((r, sp), gw')" and "status_of r = 200"
  shows "\<exists>job. r = EventStream job \<and> sj_model job = m \<and> sj_messages job = bedrock_messages (rq_messages cr) \<and>
     tr_of gw' = tr_of gw @ [StreamCall (cx_policy cx) m (bedrock_messages (rq_messages cr))]"
  using assms
  by (auto simp: chat_stream_def error_response_def Let_def tick_def emit_def split: prod.splits if_splits)

lemma answered_kind:
  assumes "chat_body deps cx b gw = ((r, sp), gw')" and "status_of r = 200"
  shows "\<exists>body' cr m. b = Some body' \<and> model_validate (dp_pydantic deps) body' = Inr cr \<and>
     enforce_model_allowlist (cx_policy cx) (rq_model cr) (bedrock_model_id (dp_settings deps)) = Inr m \<and>
     (if rq_stream cr
      then \<exists>job check. r = EventStream job \<and> sj_model job = m \<and> sj_messages job = bedrock_messages (rq_messages cr) \<and>
        GuardIn (cx_policy cx) (combined_input_text (rq_messages cr)) check \<in> set (tr_of gw') \<and>
        text_passed (cx_policy cx) check
      else \<exists>j. r = Json j)"
proof -
  from assms obtain body' cr where b: "b = Some body'" "model_validate (dp_pydantic deps) body' = Inr cr"
    and c: "chat_checked deps cx cr gw = ((r, sp), gw')"
    by (auto simp: chat_body_def error_response_def split: option.splits sum.splits)
  obtain m where m: "enforce_model_allowlist (cx_policy cx) (rq_model cr) (bedrock_model_id (dp_settings deps)) = Inr m"
    using c assms(2)
    by (cases "enforce_model_allowlist (cx_policy cx) (rq_model cr) (bedrock_model_id (dp_settings deps))")
      (auto simp: chat_checked_def enforce_model_allowlist_def error_response_def split: option.splits if_splits)
  obtain verdict ms w where g: "input_guardrail deps (cx_policy cx) (combined_input_text (rq_messages cr)) (gw_world gw) = (verdict, ms, w)"
    by (metis prod_cases3)
  from input_guardrail_spec [OF g] obtain check where check:
    "w_trace w = tr_of gw @ [GuardIn (cx_policy cx) (combined_input_text (rq_messages cr)) check]"
    "is_ok verdict \<longleftrightarrow> text_passed (cx_policy cx) check" by blast
  have passed: "\<exists>d. verdict = Inr d"
    using c m g assms(2) input_guardrail_status [OF g]
    by (cases verdict) (auto simp: chat_checked_def error_response_def Let_def split: stage_error.splits)
  let ?cx = "cx\<lparr>cx_span := set_span_attributes [(''model'', JStr m)] (cx_span cx)\<rparr>"
  have kind: "(if rq_stream cr
      then \<exists>job check. r = EventStream job \<and> sj_model job = m \<and> sj_messages job = bedrock_messages (rq_messages cr) \<and>
        GuardIn (cx_policy cx) (combined_input_text (rq_messages cr)) check \<in> set (tr_of gw') \<and>
        text_passed (cx_policy cx) check
      else \<exists>j. r = Json j)"
  proof (cases "rq_stream cr")
    case True
    with c m g passed have "chat_stream deps ?cx m cr (gw\<lparr>gw_world := w\<rparr>) = ((r, sp), gw')"
      by (auto simp: chat_checked_def Let_def)
    from stream_answered [OF this assms(2)] check passed True show ?thesis
      by (auto simp: is_ok_def intro!: exI [of _ check])
  next
    case False
    with c m g passed have "chat_cached deps ?cx m (combined_input_text (rq_messages cr)) ms cr (gw\<lparr>gw_world := w\<rparr>) = ((r, sp), gw')"
      by (auto simp: chat_checked_def Let_def)
    then have "\<exists>j. r = Json j"
      using assms(2)
      by (auto simp: chat_cached_def chat_hit_def chat_miss_def chat_finish_def ok_json_def Let_def
          split: prod.splits option.splits sum.splits route_error.splits stage_error.splits)
    with False show ?thesis by simp
  qed
  from b m kind show ?thesis by blast
qed

text \<open>The canonical text whose digest is a query's key.\<close>

definition query_text :: "'key deps \<Rightarrow> cache_query \<Rightarrow> string" where
  "query_text deps q =
     dumps_canonical (dp_float_repr deps) (cache_payload (cq_tenant q) (cq_application q) (cq_policy q)
       (cq_model q) (cq_max_tokens q) (cq_temperature q) (cq_messages q))"

text \<open>The queries of a run: those that were written to the cache and those that were answered.\<close>

definition queries_of :: "gateway_event list \<Rightarrow> cache_query set" where
  "queries_of tr = {q. \<exists>v. CacheWrite q v \<in> set tr \<or> Answered q v \<in> set tr}"

lemma query_key_eq:
  assumes "float_text (dp_float_repr deps)" "inj_on (dp_sha256_hex deps) (query_text deps ` qs)" "q \<in> qs" "q' \<in> qs"
    and "query_key deps q = query_key deps q'"
  shows "key_fields (cq_tenant q) (cq_application q) (cq_policy q) (cq_model q) (cq_max_tokens q) (cq_temperature q) (cq_messages q) =
     key_fields (cq_tenant q') (cq_application q') (cq_policy q') (cq_model q') (cq_max_tokens q') (cq_temperature q') (cq_messages q')"
proof -
  have "dp_sha256_hex deps (query_text deps q) = dp_sha256_hex deps (query_text deps q')"
    using assms(5) by (simp add: query_key_def build_cache_key_def query_text_def)
  then have "query_text deps q = query_text deps q'" using assms(2-4) by (auto dest: inj_onD)
  from dumps_canonical_inject [OF assms(1) this [unfolded query_text_def]] show ?thesis by (simp add: payload_fields)
qed

lemma sort_keys_str: "is_str v \<Longrightarrow> sort_keys w = sort_keys v \<longleftrightarrow> w = v"
  by (cases v; cases w) auto

lemma query_key_fields:
  assumes "float_text (dp_float_repr deps)" "inj_on (dp_sha256_hex deps) (query_text deps ` qs)" "q' \<in> qs" "query_of cx m cr \<in> qs"
    and "query_key deps q' = query_key deps (query_of cx m cr)" and "is_str (id_tenant_id (cx_identity cx))"
  shows "cq_tenant q' = id_tenant_id (cx_identity cx)"
    "sort_keys (cq_application q') = sort_keys (id_application_id (cx_identity cx))"
    "policy_epoch (cq_policy q') = policy_epoch (cx_policy cx)"
    "guardrail_policy (cq_policy q') = guardrail_policy (cx_policy cx)"
    "cq_model q' = m" "cq_max_tokens q' = rq_max_tokens cr" "cq_temperature q' = rq_temperature cr"
    "cq_messages q' = normalize_messages (rq_messages cr)"
  using query_key_eq [OF assms(1-5)] sort_keys_str [OF assms(6)] by (simp_all add: key_fields_def query_of_def)

lemma pending_tenant:
  assumes "reachable deps policies (gw, ps)" and "AwaitChat cx \<in> set ps"
  shows "is_str (id_tenant_id (cx_identity cx))"
proof -
  from reachable_ok [OF assms(1)] assms(2) have "pending_ok deps (AwaitChat cx)"
    unfolding sys_ok_def list_all_iff by blast
  then show ?thesis by simp
qed

lemma chat_start_policies: "chat_start deps rid req gw = (r, gw') \<Longrightarrow> gw_policies gw' = gw_policies gw"
  using chat_start_spec(1) by (fastforce simp: admit_frame_def)

lemma admin_body_other_tenant:
  assumes "admin_body deps rid i tid b gw = (r, gw')" and "gw_policies gw' t \<noteq> gw_policies gw t"
  shows "t = tid"
  using assms
  by (auto simp: admin_body_def Let_def store_set_state_def store_get_def split: option.splits sum.splits if_splits)

lemma step_policies:
  assumes "step deps (gw, ps) (gw', ps')" and "gw_policies gw' t \<noteq> gw_policies gw t"
  shows "\<exists>rid i. AwaitAdmin rid i t \<in> set ps"
  using assms(1)
proof (rule stepE)
  fix cx b r sp assume "chat_body deps cx b gw = ((r, sp), gw')"
  with chat_body_policies(1) assms(2) show ?thesis by metis
next
  fix rid i tid b r assume "AwaitAdmin rid i tid \<in> set ps" "admin_body deps rid i tid b gw = (r, gw')"
  with admin_body_other_tenant [OF _ assms(2)] show ?thesis by blast
next
  fix job dropped cancel d acts assume "run_stream deps job dropped cancel d gw = (acts, gw')"
  with run_stream_frame(3) assms(2) show ?thesis by metis
qed (use assms(2) in \<open>auto simp: log_to_def dest: chat_start_policies admin_start_state(1)\<close>)

section \<open>A sample run\<close>

text \<open>One tenant, an IAM caller, a guardrail that allows, a model that answers: a first chat request to its end.\<close>

definition sample_settings :: settings where
  "sample_settings =
     \<lparr>aws_region = ''us-east-1'', bedrock_model_id = ''m'', bedrock_timeout_s = 30, bedrock_max_retries = 2,
      host = [], port = 8080, service_name = ''gateway-api'', log_level = ''INFO'', max_input_chars = 32000,
      oidc_issuer = [], oidc_audience = [], oidc_jwks_url = [], oidc_jwks_cache_ttl_s = 300, dev_jwt_keypair_path = [],
      chat_required_role = ''developer'', admin_required_role = ''platform_admin'', iam_tenants_path = [],
      tenant_policy_path = [], policy_cache_ttl_s = 30, route_set_config_path = [], response_cache_ttl_s = 60,
      response_cache_max_entries = 10, circuit_breaker_failure_threshold = 5, circuit_breaker_reset_timeout_s = 30,
      otel_exporter_otlp_endpoint = [], debug_capture_ttl_s = 900\<rparr>"

definition sample_grant :: iam_grant where
  "sample_grant = \<lparr>grant_tenant_id = ''acme'', grant_application_id = ''app'', grant_roles = [''developer'', ''platform_admin'']\<rparr>"

definition sample_deps :: "(string \<Rightarrow> string) \<Rightarrow> (string \<Rightarrow> string + guardrail_decision) \<Rightarrow> unit deps" where
  "sample_deps sha check =
     \<lparr>dp_settings = sample_settings, dp_clock = \<lambda>_. 0, dp_call_clock = \<lambda>_. 0, dp_jitter = \<lambda>_. 0,
      dp_sdk = \<lparr>sdk_converse = \<lambda>_ _ _ _. Inr \<lparr>response_output = Some (Some [Some ''hello'']), response_usage = None, stopReason = None\<rparr>,
                sdk_stream = \<lambda>_ _ _ _. Inr ([], None)\<rparr>,
      dp_jwt = sample_jwks [], dp_static_key = (), dp_iam = \<lparr>exact = [(''arn'', sample_grant)], prefixes = []\<rparr>,
      dp_check_input = \<lambda>_ t _. check t, dp_check_output = \<lambda>_ t _. check t,
      dp_route_sets = Map.empty, dp_pydantic = strict_pydantic, dp_float_repr = fraction_text, dp_sha256_hex = sha\<rparr>"

definition sample_request :: http_request where
  "sample_request = \<lparr>hr_authorization = None, hr_principal_arn = Some ''arn'', hr_account_id = None,
     hr_request_id = Some ''r1'', hr_method = ''POST'', hr_path = ''/v1/chat'', hr_uuid = ''u''\<rparr>"

definition sample_caller :: identity where
  "sample_caller = \<lparr>id_sub = JStr ''arn'', id_tenant_id = JStr ''acme'', id_application_id = JStr ''app'',
     id_roles = [''developer'', ''platform_admin''], id_auth_type = ''aws_iam'', id_account_id = None\<rparr>"

abbreviation sample_policies :: policy_store where
  "sample_policies \<equiv> [''acme'' \<mapsto> sample_policy]"

definition sample_start :: "(string \<Rightarrow> string) \<Rightarrow> (string \<Rightarrow> string + guardrail_decision) \<Rightarrow> unit gateway" where
  "sample_start sha check = snd (chat_start (sample_deps sha check) ''r1'' sample_request (create_app sample_policies))"

lemma sample_admitted_over:
  assumes "policies ''acme'' = Some sample_policy"
  shows "\<exists>gw. chat_start (sample_deps sha check) ''r1'' sample_request (create_app policies) =
    (Inr (admitted_ctx ''r1'' sample_caller sample_policy), gw)"
  using assms
  by (simp add: chat_start_def chat_admit_def authenticate_def authenticate_iam_def sample_request_def sample_deps_def
      iam_resolve_def sample_grant_def authorize_def require_role_def has_role_def sample_settings_def tick_def
      resolve_policy_def pc_defs store_get_def create_app_def sample_policy_def enforce_kill_switch_def BLOCKING_STATES_def
      enforce_rate_limit_def effective_limit_def rl_allow_def capacity_def refill_def sample_caller_def Let_def)

lemma sample_admitted:
  "chat_start (sample_deps sha check) ''r1'' sample_request (create_app sample_policies) =
     (Inr (admitted_ctx ''r1'' sample_caller sample_policy), sample_start sha check)"
  using sample_admitted_over [of sample_policies sha check] by (auto simp: sample_start_def)

lemma sample_start_sel [simp]:
  "gw_cache (sample_start sha check) = []" "gw_breakers (sample_start sha check) = Map.empty"
  "gw_world (sample_start sha check) = \<lparr>w_ticks = 3, w_sdk_calls = 0, w_guard_calls = 0, w_trace = []\<rparr>"
  by (simp_all add: sample_start_def chat_start_def chat_admit_def authenticate_def authenticate_iam_def sample_request_def
      sample_deps_def iam_resolve_def sample_grant_def authorize_def require_role_def has_role_def sample_settings_def
      tick_def resolve_policy_def pc_defs store_get_def create_app_def sample_policy_def enforce_kill_switch_def
      BLOCKING_STATES_def enforce_rate_limit_def effective_limit_def rl_allow_def capacity_def refill_def Let_def)

definition sample_query :: cache_query where
  "sample_query = \<lparr>cq_tenant = JStr ''acme'', cq_application = JStr ''app'', cq_policy = sample_policy, cq_model = ''m'',
     cq_max_tokens = 16, cq_temperature = 7 / 10, cq_messages = [(''user'', ''hi'')]\<rparr>"

definition sample_answer :: cached_response where
  "sample_answer = \<lparr>cr_text = ''hello'', cr_stop_reason = None, cr_input_tokens = 0, cr_output_tokens = 0, cr_model_id = ''m''\<rparr>"

definition sample_end :: "(string \<Rightarrow> string) \<Rightarrow> (string \<Rightarrow> string + guardrail_decision) \<Rightarrow> unit gateway" where
  "sample_end sha check = snd (chat_body (sample_deps sha check) (admitted_ctx ''r1'' sample_caller sample_policy)
     (Some sample_body) (sample_start sha check))"

lemma sample_valid:
  "model_validate strict_pydantic sample_body =
     Inr \<lparr>rq_model = None, rq_messages = [\<lparr>msg_role = ''user'', msg_content = ''hi''\<rparr>],
       rq_max_tokens = 16, rq_temperature = 7 / 10, rq_stream = False\<rparr>"
  by (simp add: model_validate_def fields_of_def model_field_def messages_field_def last_message_is_user_def
      bounded_field_def strict_pydantic_def sample_body_def)

lemma sample_routed:
  "router_converse cfg Map.empty (bedrock_call (sample_deps sha check) policy ms mt temp) (tick (sample_deps sha check)) ''m'' None
      Map.empty w =
   (Inr \<lparr>rt_result = \<lparr>res_text = ''hello'', res_input_tokens = 0, res_output_tokens = 0, res_stop_reason = None,
      res_latency_ms = 0, res_retry_count = 0\<rparr>, rt_model_id = ''m'', rt_fallback = False\<rparr>,
    cb_record_success [''m'' \<mapsto> new_breaker] ''m'',
    w\<lparr>w_ticks := w_ticks w + 2, w_sdk_calls := w_sdk_calls w + 1, w_trace := w_trace w @ [ModelCall policy ''m'' ms]\<rparr>)"
  by (simp add: router_converse_def candidates_def fallbacks_for_def cb_allow_def cb_slot_def new_breaker_def tick_def
      bedrock_call_def converse_def converse_loop.simps attempt_result_def sample_deps_def sample_settings_def
      read_response_def usage_count_def emit_def Let_def)

lemma sample_deps_sel [simp]:
  "dp_settings (sample_deps sha check) = sample_settings" "dp_pydantic (sample_deps sha check) = strict_pydantic"
  "dp_route_sets (sample_deps sha check) = Map.empty" "dp_check_input (sample_deps sha check) = (\<lambda>_ t _. check t)"
  "dp_check_output (sample_deps sha check) = (\<lambda>_ t _. check t)" "dp_clock (sample_deps sha check) = (\<lambda>_. 0)"
  by (simp_all add: sample_deps_def)

lemma sample_settings_sel [simp]:
  "bedrock_model_id sample_settings = ''m''" "response_cache_max_entries sample_settings = 10"
  "response_cache_ttl_s sample_settings = 60"
  by (simp_all add: sample_settings_def)

lemma sample_run:
  assumes "check ''hi'' = Inr allow_decision" "check ''hello'' = Inr allow_decision"
  shows "fst (fst (chat_body (sample_deps sha check) (admitted_ctx ''r1'' sample_caller sample_policy)
      (Some sample_body) (sample_start sha check))) =
    ok_json (chat_response_of (admitted_ctx ''r1'' sample_caller sample_policy) sample_answer 0 False False) \<and>
   w_trace (gw_world (sample_end sha check)) =
     [GuardIn sample_policy ''hi'' (Inr allow_decision),
      ModelCall sample_policy ''m'' [\<lparr>bm_role = ''user'', bm_text = ''hi''\<rparr>],
      GuardOut sample_policy ''hello'' (Inr allow_decision),
      CacheWrite sample_query sample_answer, Answered sample_query sample_answer]"
  using assms
  by (simp add: sample_end_def chat_body_def sample_valid chat_checked_def enforce_model_allowlist_def admitted_ctx_def
      sample_policy_def input_guardrail_def check_input_guardrail_def guardrail_stage_def run_guardrail_check_def
      allow_decision_def combined_input_text_def tick_def Let_def chat_cached_def query_of_def rc_get_def rc_cfg_def
      chat_miss_def sample_routed chat_finish_def output_guardrail_def check_output_guardrail_def rc_set_eq
      capture_if_enabled_def chat_response_of_def sample_answer_def sample_query_def sample_caller_def normalize_messages_def
      bedrock_messages_def emit_def log_to_def elapsed_ms_def set_span_attributes_def)

abbreviation allow_all :: "string \<Rightarrow> string + guardrail_decision" where
  "allow_all \<equiv> \<lambda>_. Inr allow_decision"

lemma sample_reachable:
  "reachable (sample_deps sha check) sample_policies
     (sample_start sha check, [AwaitChat (admitted_ctx ''r1'' sample_caller sample_policy)])"
  by (rule reach_step [OF reach_init chat_admitted [OF sample_admitted]])

lemma sample_reachable_end:
  "\<exists>ps. reachable (sample_deps sha check) sample_policies (sample_end sha check, ps)"
proof -
  obtain r sp gw where c: "chat_body (sample_deps sha check) (admitted_ctx ''r1'' sample_caller sample_policy)
      (Some sample_body) (sample_start sha check) = ((r, sp), gw)" by (metis prod.exhaust)
  then have "gw = sample_end sha check" by (simp add: sample_end_def)
  with reach_step [OF sample_reachable chat_continues [OF _ c]] show ?thesis by auto
qed

text \<open>The answer of the sample run, as an equation to instantiate the properties with.\<close>

lemma sample_ok_json:
  "\<exists>j. ok_json (chat_response_of cx v ms hit fb) = Json j \<and> status_code j = 200"
  by (simp add: ok_json_def)

lemma sample_answered:
  assumes "check ''hi'' = Inr allow_decision" "check ''hello'' = Inr allow_decision"
  shows "\<exists>j sp. Json j = ok_json (chat_response_of (admitted_ctx ''r1'' sample_caller sample_policy) sample_answer 0 False False) \<and>
    status_code j = 200 \<and>
    chat_body (sample_deps sha check) (admitted_ctx ''r1'' sample_caller sample_policy) (Some sample_body) (sample_start sha check) =
      ((Json j, sp), sample_end sha check)"
proof -
  obtain j where j: "ok_json (chat_response_of (admitted_ctx ''r1'' sample_caller sample_policy) sample_answer 0 False False) = Json j"
    "status_code j = 200" using sample_ok_json by blast
  obtain r sp gw where c: "chat_body (sample_deps sha check) (admitted_ctx ''r1'' sample_caller sample_policy)
      (Some sample_body) (sample_start sha check) = ((r, sp), gw)" by (metis prod.exhaust)
  with sample_run [OF assms, of sha] j(1) have "r = Json j" by simp
  moreover from c have "gw = sample_end sha check" by (simp add: sample_end_def)
  ultimately show ?thesis using c j by metis
qed

text \<open>An administrator who suspends the tenant.\<close>

definition sample_admin_start :: "unit gateway" where
  "sample_admin_start = snd (admin_start (sample_deps id allow_all) ''r1'' sample_request (create_app sample_policies))"

definition suspend_body :: json where
  "suspend_body = JObj [(''state'', JStr ''SUSPENDED'')]"

definition sample_suspended :: "unit gateway" where
  "sample_suspended = snd (admin_body (sample_deps id allow_all) ''r1'' sample_caller ''acme'' (Some suspend_body) sample_admin_start)"

lemma sample_admin_admitted:
  "admin_start (sample_deps id allow_all) ''r1'' sample_request (create_app sample_policies) = (Inr sample_caller, sample_admin_start)"
proof -
  have "\<exists>gw. admin_start (sample_deps id allow_all) ''r1'' sample_request (create_app sample_policies) = (Inr sample_caller, gw)"
    by (simp add: admin_start_def authenticate_def authenticate_iam_def sample_request_def sample_deps_def
        iam_resolve_def sample_grant_def authorize_def require_role_def has_role_def sample_settings_def sample_caller_def Let_def)
  then show ?thesis by (auto simp: sample_admin_start_def)
qed

lemma sample_admin_reachable:
  "reachable (sample_deps id allow_all) sample_policies (sample_admin_start, [AwaitAdmin ''r1'' sample_caller ''acme''])"
  by (rule reach_step [OF reach_init admin_admitted [OF sample_admin_admitted]])

lemma sample_admin_step:
  "step (sample_deps id allow_all) (sample_admin_start, [AwaitAdmin ''r1'' sample_caller ''acme'']) (sample_suspended, [])"
proof -
  obtain r gw where c: "admin_body (sample_deps id allow_all) ''r1'' sample_caller ''acme'' (Some suspend_body) sample_admin_start = (r, gw)"
    by (metis prod.exhaust)
  then have "gw = sample_suspended" by (simp add: sample_suspended_def)
  with admin_continues [OF _ c, of "[AwaitAdmin ''r1'' sample_caller ''acme'']"] show ?thesis by simp
qed

lemma sample_admin_policies:
  "gw_policies sample_admin_start ''acme'' = Some sample_policy"
  "gw_policies sample_suspended ''acme'' = Some (sample_policy\<lparr>state := SUSPENDED, policy_epoch := 2\<rparr>)"
proof -
  show p: "gw_policies sample_admin_start ''acme'' = Some sample_policy"
    using admin_start_state(1) [OF sample_admin_admitted] by (simp add: create_app_def)
  show "gw_policies sample_suspended ''acme'' = Some (sample_policy\<lparr>state := SUSPENDED, policy_epoch := 2\<rparr>)"
    using p by (simp add: sample_suspended_def admin_body_def suspend_body_def store_set_state_def store_get_def Let_def
        dict_get_def tenant_states_def log_to_def sample_policy_def)
qed

end
