(* ===== verification/Dev_Keys.thy ===== *)
theory Dev_Keys
  imports Jwt_Verifier Config
begin

text \<open>
  \<open>auth/devkeys.py\<close> and \<open>scripts/generate_dev_token.py\<close>: the key file that the server and the token
  script share, and the tokens minted from it. The RSA generator and PyJWT are parameters; the key file
  is its parsed content, absent (\<open>None\<close>), unparsable (\<open>Some None\<close>) or a document. The directory that
  \<open>makedirs\<close> prepares is not modelled.
\<close>

section \<open>devkeys.py\<close>

type_synonym key_file = "json option option"

text \<open>\<open>fresh\<close> is the pair that \<open>generate_dev_keypair\<close> would return in this call.\<close>

definition load_or_create_dev_keypair ::
  "string \<times> string \<Rightarrow> key_file \<Rightarrow> (py_exn + json \<times> json) \<times> key_file" where
  "load_or_create_dev_keypair fresh key_file =
     (case key_file of
        Some content \<Rightarrow>
          (case content of
             None \<Rightarrow> (Inl ValueError, key_file)
           | Some data \<Rightarrow>
               (bind_r (subscript data ''private_key'') (\<lambda>priv.
                bind_r (subscript data ''public_key'') (\<lambda>pub. Inr (priv, pub))), key_file))
      | None \<Rightarrow>
          (Inr (JStr (fst fresh), JStr (snd fresh)),
           Some (Some (JObj [(''private_key'', JStr (fst fresh)), (''public_key'', JStr (snd fresh))]))))"

text \<open>\<open>int(x)\<close> of a float.\<close>

definition int_of_float :: "py_float \<Rightarrow> int" where
  "int_of_float x = (if 0 \<le> x then \<lfloor>x\<rfloor> else \<lceil>x\<rceil>)"

definition dev_claims ::
  "string \<Rightarrow> string \<Rightarrow> string \<Rightarrow> string \<Rightarrow> string \<Rightarrow> string list \<Rightarrow> py_float \<Rightarrow> py_float \<Rightarrow> (string \<times> json) list" where
  "dev_claims iss aud sub tid aid roles ttl_s time =
     (let now = int_of_float time in
      [(''sub'', JStr sub), (''iss'', JStr iss), (''aud'', JStr aud), (''iat'', JInt now),
       (''exp'', JInt (now + int_of_float ttl_s)), (''tenant_id'', JStr tid), (''application_id'', JStr aid),
       (''roles'', JArr (map JStr roles))])"

text \<open>\<open>encode\<close> is \<open>jwt.encode\<close> with RS256; it can refuse the key.\<close>

definition mint_dev_token ::
  "((string \<times> json) list \<Rightarrow> json \<Rightarrow> string \<Rightarrow> py_exn + string) \<Rightarrow> json \<Rightarrow> string \<Rightarrow> string \<Rightarrow> string \<Rightarrow> string \<Rightarrow> string \<Rightarrow>
   string list \<Rightarrow> py_float \<Rightarrow> py_float \<Rightarrow> py_exn + string" where
  "mint_dev_token encode private_key_pem iss aud sub tid aid roles ttl_s time =
     encode (dev_claims iss aud sub tid aid roles ttl_s time) private_key_pem ''RS256''"

section \<open>generate\_dev\_token.py\<close>

record token_args =
  arg_sub :: string
  arg_tenant_id :: string
  arg_application_id :: string
  arg_roles :: "string list"
  arg_ttl_s :: py_float
  arg_quiet :: bool

definition default_token_args :: "settings \<Rightarrow> token_args" where
  "default_token_args s =
     \<lparr>arg_sub = ''dev-user'', arg_tenant_id = ''finance'', arg_application_id = ''risk-chat'',
      arg_roles = [chat_required_role s], arg_ttl_s = 3600, arg_quiet = False\<rparr>"

record script_output =
  out_lines :: "string list"
  err_lines :: "string list"

definition jwks_warning :: string where
  "jwks_warning = ''warning: OIDC_JWKS_URL is set -- the running server verifies against a '' @
     ''real provider, so this locally-signed dev token will be rejected.''"

text \<open>\<open>main\<close> after argument parsing: what it prints, the exception it ends with, if any, and the key file.\<close>

definition generate_dev_token ::
  "((string \<times> json) list \<Rightarrow> json \<Rightarrow> string \<Rightarrow> py_exn + string) \<Rightarrow> settings \<Rightarrow> token_args \<Rightarrow> string \<times> string \<Rightarrow> py_float \<Rightarrow> key_file \<Rightarrow>
   (script_output \<times> py_exn option) \<times> key_file" where
  "generate_dev_token encode s args fresh time key_file =
     (let err = (if oidc_jwks_url s \<noteq> [] then [jwks_warning] else []);
          (keys, key_file) = load_or_create_dev_keypair fresh key_file;
          result = bind_r keys (\<lambda>(private_pem, _).
            mint_dev_token encode private_pem (oidc_issuer s) (oidc_audience s) (arg_sub args) (arg_tenant_id args)
              (arg_application_id args) (arg_roles args) (arg_ttl_s args) time)
      in case result of
        Inl e \<Rightarrow> ((\<lparr>out_lines = [], err_lines = err\<rparr>, Some e), key_file)
      | Inr token \<Rightarrow>
          ((\<lparr>out_lines =
               (if arg_quiet args then []
                else [''tenant_id='' @ arg_tenant_id args @ '' application_id='' @ arg_application_id args @
                      '' roles='' @ repr_str_list (arg_roles args)]) @ [token],
             err_lines = err\<rparr>, None), key_file))"

section \<open>A minted token authenticates\<close>

text \<open>
  What PyJWT documents of a key pair: it decodes a token it encoded, under the other key of the pair,
  if it was encoded with an algorithm that the call allows, issuer and audience are the expected ones, no
  required claim is missing and the token is neither expired nor issued in the future; it gives the
  claims back. \<open>later\<close> is the time of the decoding.
\<close>

definition pair_round_trips ::
  "((string \<times> json) list \<Rightarrow> json \<Rightarrow> string \<Rightarrow> py_exn + string) \<Rightarrow> 'key jwt_lib \<Rightarrow> json \<Rightarrow> 'key \<Rightarrow> int \<Rightarrow> bool" where
  "pair_round_trips encode lib priv pub later \<longleftrightarrow>
     (\<forall>claims alg token opts issued expires.
        encode claims priv alg = Inr token \<and> alg \<in> set (algorithms opts) \<and>
        dict_get claims ''iss'' = JStr (expected_issuer opts) \<and> dict_get claims ''aud'' = JStr (expected_audience opts) \<and>
        list_all (\<lambda>c. dict_get claims c \<noteq> JNull) (required_claims opts) \<and>
        dict_get claims ''iat'' = JInt issued \<and> dict_get claims ''exp'' = JInt expires \<and> issued \<le> later \<and> later < expires \<longrightarrow>
        jwt_decode lib token pub opts = Inr claims)"

lemma decode_args_simps [simp]:
  "algorithms (decode_args iss aud) = [''RS256'']" "expected_issuer (decode_args iss aud) = iss"
  "expected_audience (decode_args iss aud) = aud" "required_claims (decode_args iss aud) = [''exp'', ''iat'']"
  by (simp_all add: decode_args_def)

lemma keypair_stable:
  "load_or_create_dev_keypair fresh key_file = (Inr pair, key_file') \<Longrightarrow>
     load_or_create_dev_keypair fresh' key_file' = (Inr pair, key_file')"
  by (auto simp: load_or_create_dev_keypair_def split: option.splits)

lemma dev_claims_get [simp]:
  "dict_get (dev_claims iss aud sub tid aid roles ttl_s time) ''iss'' = JStr iss"
  "dict_get (dev_claims iss aud sub tid aid roles ttl_s time) ''aud'' = JStr aud"
  "dict_get (dev_claims iss aud sub tid aid roles ttl_s time) ''iat'' = JInt (int_of_float time)"
  "dict_get (dev_claims iss aud sub tid aid roles ttl_s time) ''exp'' = JInt (int_of_float time + int_of_float ttl_s)"
  "dict_get (dev_claims iss aud sub tid aid roles ttl_s time) ''sub'' = JStr sub"
  "dict_get (dev_claims iss aud sub tid aid roles ttl_s time) ''tenant_id'' = JStr tid"
  "dict_get (dev_claims iss aud sub tid aid roles ttl_s time) ''application_id'' = JStr aid"
  "dict_get (dev_claims iss aud sub tid aid roles ttl_s time) ''roles'' = JArr (map JStr roles)"
  by (simp_all add: dev_claims_def dict_get_def Let_def)

lemma dev_claims_identity:
  assumes "sub \<noteq> []" "tid \<noteq> []" "aid \<noteq> []"
  shows "identity_from_claims (dev_claims iss aud sub tid aid roles ttl_s time) =
    Inr \<lparr>id_sub = JStr sub, id_tenant_id = JStr tid, id_application_id = JStr aid, id_roles = roles,
      id_auth_type = ''jwt'', id_account_id = None\<rparr>"
  using assms by (cases roles) (auto simp: identity_from_claims_def missing_claims_def roles_claim_def Let_def list_all_iff comp_def)

text \<open>A token of the claims the dev tools make decodes until it expires.\<close>

lemma dev_claims_decode:
  assumes "pair_round_trips encode lib priv key later"
    and "encode (dev_claims iss aud sub tid aid roles ttl_s time) priv ''RS256'' = Inr token"
    and "int_of_float time \<le> later" "later < int_of_float time + int_of_float ttl_s"
  shows "jwt_decode lib token key (decode_args iss aud) = Inr (dev_claims iss aud sub tid aid roles ttl_s time)"
  using assms(1) [unfolded pair_round_trips_def, rule_format,
      of "dev_claims iss aud sub tid aid roles ttl_s time" "''RS256''" token "decode_args iss aud"
        "int_of_float time" "int_of_float time + int_of_float ttl_s"] assms(2-4)
  by simp

text \<open>What the script prints last, from the file that the first of the two left.\<close>

lemma minted_token:
  assumes "load_or_create_dev_keypair fresh key_file = (Inr (priv, pub), key_file')"
    and "generate_dev_token encode s args fresh' time key_file' = ((printed, None), key_file'')"
    and "pair_round_trips encode lib priv key later"
    and "int_of_float time \<le> later" and "later < int_of_float time + int_of_float (arg_ttl_s args)"
  shows "key_file'' = key_file'"
    and "jwt_decode lib (last (out_lines printed)) key (decode_args (oidc_issuer s) (oidc_audience s)) =
      Inr (dev_claims (oidc_issuer s) (oidc_audience s) (arg_sub args) (arg_tenant_id args) (arg_application_id args)
        (arg_roles args) (arg_ttl_s args) time)"
proof -
  let ?claims = "dev_claims (oidc_issuer s) (oidc_audience s) (arg_sub args) (arg_tenant_id args) (arg_application_id args)
    (arg_roles args) (arg_ttl_s args) time"
  from assms(2) keypair_stable [OF assms(1), of fresh'] obtain token
    where t: "encode ?claims priv ''RS256'' = Inr token" "last (out_lines printed) = token" and f: "key_file'' = key_file'"
    by (auto simp: generate_dev_token_def mint_dev_token_def Let_def split: sum.splits)
  from f show "key_file'' = key_file'" .
  from dev_claims_decode [OF assms(3) t(1) assms(4, 5)] t(2)
  show "jwt_decode lib (last (out_lines printed)) key (decode_args (oidc_issuer s) (oidc_audience s)) = Inr ?claims" by simp
qed

text \<open>
  dev tokens work. Whoever comes first, the server or the script, creates the key file and the other
  reads the same pair; the token the script prints last then verifies against the server's
  \<open>StaticKeyVerifier\<close> until it expires and authenticates exactly the subject, tenant, application and roles
  that were asked for.
\<close>

theorem dev_token_round_trip:
  assumes "load_or_create_dev_keypair fresh key_file = (Inr (priv, JStr pub), key_file')"
    and "generate_dev_token encode s args fresh' time key_file' = ((printed, None), key_file'')"
    and "pair_round_trips encode lib priv pub later"
    and "int_of_float time \<le> later" and "later < int_of_float time + int_of_float (arg_ttl_s args)"
    and "issuer cfg = oidc_issuer s" and "audience cfg = oidc_audience s"
    and "arg_sub args \<noteq> []" and "arg_tenant_id args \<noteq> []" and "arg_application_id args \<noteq> []"
  shows "key_file'' = key_file' \<and>
    (\<exists>claims. static_verify lib cfg pub (last (out_lines printed)) = Inr claims \<and>
       identity_from_claims claims =
         Inr \<lparr>id_sub = JStr (arg_sub args), id_tenant_id = JStr (arg_tenant_id args),
           id_application_id = JStr (arg_application_id args), id_roles = arg_roles args,
           id_auth_type = ''jwt'', id_account_id = None\<rparr>)"
proof -
  note minted = minted_token [OF assms(1-5)]
  from minted(2) assms(6, 7) show ?thesis
    using minted(1) dev_claims_identity [OF assms(8-10)] by (auto simp: static_verify_def decode_token_Inr)
qed

definition sample_dev_settings :: settings where
  "sample_dev_settings =
     \<lparr>aws_region = [], bedrock_model_id = ''m'', bedrock_timeout_s = 30, bedrock_max_retries = 2,
      host = [], port = 8080, service_name = [], log_level = ''INFO'', max_input_chars = 32000,
      oidc_issuer = ''i'', oidc_audience = ''a'', oidc_jwks_url = [], oidc_jwks_cache_ttl_s = 300, dev_jwt_keypair_path = ''k'',
      chat_required_role = ''developer'', admin_required_role = ''platform_admin'', iam_tenants_path = [],
      tenant_policy_path = [], policy_cache_ttl_s = 30, route_set_config_path = [], response_cache_ttl_s = 60,
      response_cache_max_entries = 10, circuit_breaker_failure_threshold = 5, circuit_breaker_reset_timeout_s = 30,
      otel_exporter_otlp_endpoint = [], debug_capture_ttl_s = 900\<rparr>"

text \<open>A token library that knows the one token the script mints by default at time 100.\<close>

definition sample_claims_at_100 :: "(string \<times> json) list" where
  "sample_claims_at_100 = dev_claims ''i'' ''a'' ''dev-user'' ''finance'' ''risk-chat'' [''developer''] 3600 100"

definition sample_encode :: "(string \<times> json) list \<Rightarrow> json \<Rightarrow> string \<Rightarrow> py_exn + string" where
  "sample_encode claims priv alg =
     (if claims = sample_claims_at_100 \<and> priv = JStr ''priv'' \<and> alg = ''RS256'' then Inr ''tok'' else Inl ValueError)"

definition sample_signer :: "string jwt_lib" where
  "sample_signer = \<lparr>unverified_kid = \<lambda>_. Inr None, from_jwk = \<lambda>_. Inl ValueError,
     jwt_decode = \<lambda>t k opts. if t = ''tok'' \<and> k = ''pub'' \<and> ''RS256'' \<in> set (algorithms opts) \<and>
         expected_issuer opts = ''i'' \<and> expected_audience opts = ''a''
       then Inr sample_claims_at_100 else Inl (InvalidToken ''bad''), fetch_jwks = \<lambda>_. Inl ''none''\<rparr>"

lemma sample_signer_round_trips: "pair_round_trips sample_encode sample_signer (JStr ''priv'') ''pub'' 200"
  by (auto simp: pair_round_trips_def sample_encode_def sample_signer_def sample_claims_at_100_def split: if_splits)

lemma dev_token_round_trip_witness:
  "\<exists>claims. static_verify sample_signer \<lparr>jwks_url = [], issuer = ''i'', audience = ''a'', cache_ttl_s = 300\<rparr> ''pub'' ''tok'' = Inr claims \<and>
     identity_from_claims claims =
       Inr \<lparr>id_sub = JStr ''dev-user'', id_tenant_id = JStr ''finance'', id_application_id = JStr ''risk-chat'',
         id_roles = [''developer''], id_auth_type = ''jwt'', id_account_id = None\<rparr>"
proof -
  let ?file = "Some (Some (JObj [(''private_key'', JStr ''priv''), (''public_key'', JStr ''pub'')]))"
  have server: "load_or_create_dev_keypair (''priv'', ''pub'') None = (Inr (JStr ''priv'', JStr ''pub''), ?file)"
    by (simp add: load_or_create_dev_keypair_def)
  have script: "generate_dev_token sample_encode sample_dev_settings (default_token_args sample_dev_settings) (''x'', ''y'') 100 ?file =
      ((\<lparr>out_lines = [''tenant_id=finance application_id=risk-chat roles=['' @ repr_str ''developer'' @ '']'', ''tok''], err_lines = []\<rparr>,
        None), ?file)"
    by (simp add: generate_dev_token_def mint_dev_token_def load_or_create_dev_keypair_def default_token_args_def
        sample_dev_settings_def sample_encode_def sample_claims_at_100_def repr_str_list_def Let_def)
  from dev_token_round_trip [OF server script sample_signer_round_trips, of "\<lparr>jwks_url = [], issuer = ''i'', audience = ''a'', cache_ttl_s = 300\<rparr>"]
  show ?thesis by (simp add: default_token_args_def sample_dev_settings_def int_of_float_def)
qed

end
