(* ===== verification/Default_App.thy ===== *)
theory Default_App
  imports Event_Loop Dev_Keys
begin

text \<open>
  The app as it is started in production: \<open>create_app\<close> with nothing injected (\<open>main.py\<close>). The IAM grants,
  the tenant policies and the route sets come from their parsed YAML files, any of which can stop the
  start-up, as can a log level that \<open>logging\<close> does not know; the bearer tokens are verified with the dev key
  file when no provider is configured. The guardrail client is the built-in one, so what it promises of a
  text holds of every prompt sent and every answer given.
\<close>

text \<open>
  \<open>_build_default_token_verifier\<close>: the JWKS verifier when a provider is configured (\<open>None\<close>), otherwise the
  static key of the dev key file. \<open>pem\<close> is what PyJWT makes of the public key's PEM.
\<close>

definition build_default_token_verifier ::
  "(json \<Rightarrow> 'key) \<Rightarrow> settings \<Rightarrow> string \<times> string \<Rightarrow> key_file \<Rightarrow> (py_exn + 'key option) \<times> key_file" where
  "build_default_token_verifier pem s fresh key_file =
     (if oidc_jwks_url s \<noteq> [] then (Inr None, key_file)
      else
        (let (keys, key_file) = load_or_create_dev_keypair fresh key_file
         in (bind_r keys (\<lambda>(_, public_pem). Inr (Some (pem public_pem))), key_file)))"

text \<open>
  \<open>ext\<close> brings what the code imports (SDK, PyJWT, clocks, SHA-256); the files are parsed documents, the
  IAM file absent when the path does not exist. The key file is the one that the start-up may write.
\<close>

definition default_app ::
  "(json \<Rightarrow> 'key) \<Rightarrow> 'key deps \<Rightarrow> settings \<Rightarrow> string \<times> string \<Rightarrow> key_file \<Rightarrow> json option \<Rightarrow> json \<Rightarrow> json \<Rightarrow>
   (py_exn + 'key deps \<times> policy_store) \<times> key_file" where
  "default_app pem ext s fresh key_file iam_file tenants_file routes_file =
     (case check_level (log_level s) of
        Inl e \<Rightarrow> (Inl e, key_file)
      | Inr _ \<Rightarrow>
         (let (verifier, key_file) = build_default_token_verifier pem s fresh key_file in
          (bind_r verifier (\<lambda>key.
           bind_r (iam_resolver_init iam_file) (\<lambda>resolver.
           bind_r (file_store_init tenants_file) (\<lambda>store.
           bind_r (load_route_sets routes_file) (\<lambda>route_sets.
           Inr (ext\<lparr>dp_settings := s, dp_iam := resolver, dp_check_input := \<lambda>_. basic_check_input,
                    dp_check_output := \<lambda>_. basic_check_output, dp_route_sets := route_sets,
                    dp_static_key := (case key of None \<Rightarrow> dp_static_key ext | Some k \<Rightarrow> k)\<rparr>,
                backing store))))), key_file)))"

text \<open>The module-level \<open>app\<close>: None when the construction raises.\<close>

definition module_app ::
  "(json \<Rightarrow> 'key) \<Rightarrow> 'key deps \<Rightarrow> settings \<Rightarrow> string \<times> string \<Rightarrow> key_file \<Rightarrow> json option \<Rightarrow> json \<Rightarrow> json \<Rightarrow>
   ('key deps \<times> 'key gateway) option" where
  "module_app pem ext s fresh key_file iam_file tenants_file routes_file =
     (case fst (default_app pem ext s fresh key_file iam_file tenants_file routes_file) of
        Inl _ \<Rightarrow> None
      | Inr (deps, policies) \<Rightarrow> Some (deps, create_app policies))"

text \<open>An app that came up runs from a reachable state.\<close>

lemma module_app_reachable:
  "module_app pem ext s fresh kf i t r = Some (deps, gw) \<Longrightarrow>
     \<exists>policies kf'. default_app pem ext s fresh kf i t r = (Inr (deps, policies), kf') \<and> reachable deps policies (gw, [])"
  by (cases "default_app pem ext s fresh kf i t r") (auto simp: module_app_def intro: reach_init split: sum.splits)

lemma default_app_parts:
  assumes "default_app pem ext s fresh kf iam_file tenants_file routes_file = (Inr (deps, policies), kf')"
  shows "dp_check_input deps = (\<lambda>_. basic_check_input)" "dp_check_output deps = (\<lambda>_. basic_check_output)"
    "load_policies tenants_file = Inr policies" "dp_settings deps = s" "dp_jwt deps = dp_jwt ext"
  using assms
  by (auto simp: default_app_def file_store_init_def bind_r_def Let_def split: sum.splits prod.splits)


section \<open>What the built-in guardrail promises of every run\<close>

lemma guard_in_clean:
  assumes "default_app pem ext s fresh kf i t r = (Inr (deps, policies), kf')" and "safe_trace deps tr"
    and "GuardIn policy txt check \<in> set tr" and "text_passed policy check"
  shows "clean_text txt"
proof -
  from assms(3) obtain xs ys where "tr = xs @ GuardIn policy txt check # ys" by (auto dest: split_list)
  from safe_trace_event [OF assms(2) this] have "check = Inr (basic_check txt)"
    by (auto simp: default_app_parts [OF assms(1)] basic_check_input_def)
  with assms(4) show ?thesis by (simp add: text_passed_def basic_check_allows)
qed

lemma guard_out_clean:
  assumes "default_app pem ext s fresh kf i t r = (Inr (deps, policies), kf')" and "safe_trace deps tr"
    and "GuardOut policy txt check \<in> set tr" and "text_passed policy check"
  shows "clean_text txt"
proof -
  from assms(3) obtain xs ys where "tr = xs @ GuardOut policy txt check # ys" by (auto dest: split_list)
  from safe_trace_event [OF assms(2) this] have "check = Inr (basic_check txt)"
    by (auto simp: default_app_parts [OF assms(1)] basic_check_output_def)
  with assms(4) show ?thesis by (simp add: text_passed_def basic_check_allows)
qed

lemma reachable_safe: "reachable deps policies (gw, ps) \<Longrightarrow> safe_trace deps (tr_of gw)"
  using reachable_ok [of deps policies "(gw, ps)"] by (simp add: sys_ok_def good_def)

lemma model_call_prompt:
  assumes "safe_trace deps tr" and "ModelCall p m ms \<in> set tr \<or> StreamCall p m ms \<in> set tr"
  shows "\<exists>check. GuardIn p (prompt_text ms) check \<in> set tr \<and> text_passed p check"
proof -
  from assms(2) obtain xs ev ys where tr: "tr = xs @ ev # ys" "ev = ModelCall p m ms \<or> ev = StreamCall p m ms"
    by (auto dest: split_list)
  from safe_trace_event [OF assms(1) tr(1)] tr(2) have "input_passed xs p ms" by auto
  then show ?thesis by (auto simp: input_passed_def tr(1))
qed

text \<open>
  C3: With the built-in guardrail every prompt that reached a model, streamed or not, is free of the
  personal data and the denylisted phrases the client looks for.
\<close>

theorem default_prompts_clean:
  assumes "default_app pem ext s fresh key_file iam_file tenants_file routes_file = (Inr (deps, policies), key_file')"
    and "reachable deps policies (gw, ps)"
    and "ModelCall p m ms \<in> set (w_trace (gw_world gw)) \<or> StreamCall p m ms \<in> set (w_trace (gw_world gw))"
  shows "clean_text (join newline (map bm_text ms))"
proof -
  note safe = reachable_safe [OF assms(2)]
  from model_call_prompt [OF safe assms(3)] guard_in_clean [OF assms(1) safe] show ?thesis
    by (auto simp: prompt_text_def)
qed

text \<open>
  C6: With the built-in guardrail every text that a chat request is answered with, as JSON, is free of them
  too, whether the model or the cache gave it. The only other 200 is the stream of a request that asked for
  one: there the prompt it was started with is, and the model's text is not checked.
\<close>

theorem default_answers_clean:
  assumes "default_app pem ext s fresh key_file iam_file tenants_file routes_file = (Inr (deps, policies), key_file')"
    and "reachable deps policies (gw, ps)" and "List.member ps (AwaitChat cx)"
    and "chat_body deps cx b gw = ((r, sp), gw')" and "status_of r = 200"
  shows "case r of
       Json j \<Rightarrow> \<exists>v ms hit fb. r = ok_json (chat_response_of cx v ms hit fb) \<and> clean_text (cr_text v)
     | EventStream job \<Rightarrow> (\<exists>body' cr. b = Some body' \<and> model_validate (dp_pydantic deps) body' = Inr cr \<and> rq_stream cr \<and>
         sj_messages job = bedrock_messages (rq_messages cr)) \<and> clean_text (join newline (map bm_text (sj_messages job)))
     | Unhandled exc \<Rightarrow> False"
proof -
  from assms(3) have p: "AwaitChat cx \<in> set ps" by simp
  from reach_step [OF assms(2) chat_continues [OF p assms(4)]] have safe: "safe_trace deps (tr_of gw')"
    by (rule reachable_safe)
  show ?thesis
  proof (cases r)
    case (Json j)
    from answer_provenance [OF assms(2) p assms(4) [unfolded Json]] assms(5) Json obtain v q' ms hit fb
      where a: "Json j = ok_json (chat_response_of cx v ms hit fb)" "output_passed (tr_of gw') q' v" by auto
    from guard_out_clean [OF assms(1) safe] a(2) have "clean_text (cr_text v)" by (auto simp: output_passed_def)
    with a(1) show ?thesis unfolding Json http_response.case by blast
  next
    case (EventStream job)
    from answered_kind [OF assms(4, 5)] EventStream obtain body' cr check where
      b: "b = Some body'" "model_validate (dp_pydantic deps) body' = Inr cr" "rq_stream cr"
        "sj_messages job = bedrock_messages (rq_messages cr)"
        "GuardIn (cx_policy cx) (combined_input_text (rq_messages cr)) check \<in> set (tr_of gw')"
        "text_passed (cx_policy cx) check" by (auto split: if_splits)
    have "map bm_text (sj_messages job) = map msg_content (rq_messages cr)"
      by (simp add: b(4) bedrock_messages_def)
    with guard_in_clean [OF assms(1) safe b(5, 6)] b(1-4) EventStream show ?thesis
      by (auto simp: combined_input_text_def)
  qed (use assms(5) in simp)
qed

section \<open>The token script and the server agree\<close>


section \<open>A sample deployment\<close>

definition sample_iam_file :: json where
  "sample_iam_file = JObj [(''iam_principals'', JObj [(''arn'', JObj [(''tenant_id'', JStr ''acme''),
     (''application_id'', JStr ''app''), (''roles'', JArr [JStr ''developer'', JStr ''platform_admin''])])])]"

definition sample_tenants_file :: json where
  "sample_tenants_file = JObj [(''tenants'', JObj [(''acme'', JObj [(''state'', JStr ''ACTIVE''), (''models'', JArr []),
     (''rpm_limit'', JInt 60), (''guardrail_policy'', JStr ''standard-v1''), (''policy_epoch'', JInt 1)])])]"

lemma sample_iam: "iam_resolver_init (Some sample_iam_file) = Inr \<lparr>exact = [(''arn'', sample_grant)], prefixes = []\<rparr>"
  by (simp add: iam_resolver_init_def sample_iam_file_def load_grant_def add_grant_def sample_grant_def dict_get_def
      or_empty_def dict_get_default_def bind_r_def suffix_def)

lemma sample_tenants: "load_policies sample_tenants_file = Inr sample_policies"
  by (simp add: sample_tenants_file_def sample_policy_def load_defs)

lemma sample_level: "map upper_char (log_level sample_settings) = ''INFO''"
  by (simp add: sample_settings_def upper_char_def is_lower_ascii_def)

lemma sample_no_provider: "oidc_jwks_url sample_settings = []"
  by (simp add: sample_settings_def)

lemma sample_app:
  "default_app (\<lambda>_. ()) (sample_deps sha allow_all) sample_settings (''priv'', ''pub'') None
     (Some sample_iam_file) sample_tenants_file JNull =
     (Inr (sample_deps sha (\<lambda>t. Inr (basic_check t)), sample_policies),
      Some (Some (JObj [(''private_key'', JStr ''priv''), (''public_key'', JStr ''pub'')])))"
  by (simp add: default_app_def build_default_token_verifier_def load_or_create_dev_keypair_def file_store_init_def
      check_level_def sample_level sample_iam sample_tenants bind_r_def load_route_sets_def sample_deps_def or_empty_def
      sample_no_provider dict_get_def basic_check_input_def basic_check_output_def fun_eq_iff)

lemma sample_texts: "basic_check ''hi'' = allow_decision" "basic_check ''hello'' = allow_decision"
  by code_simp+

lemma default_prompts_clean_witness:
  "clean_text (join newline (map bm_text [\<lparr>bm_role = ''user'', bm_text = ''hi''\<rparr>]))"
proof -
  obtain ps where r: "reachable (sample_deps id (\<lambda>t. Inr (basic_check t))) sample_policies
      (sample_end id (\<lambda>t. Inr (basic_check t)), ps)" using sample_reachable_end by blast
  from sample_run [of "\<lambda>t. Inr (basic_check t)" id] show ?thesis
    by (intro default_prompts_clean [OF sample_app r, of sample_policy "''m''"]) (simp add: sample_texts)
qed

lemma default_answers_clean_witness:
  "\<exists>v ms hit fb. ok_json (chat_response_of (admitted_ctx ''r1'' sample_caller sample_policy) sample_answer 0 False False) =
     ok_json (chat_response_of (admitted_ctx ''r1'' sample_caller sample_policy) v ms hit fb) \<and> clean_text (cr_text v)"
proof -
  from sample_answered [of "\<lambda>t. Inr (basic_check t)" id] sample_texts obtain j sp
    where j: "Json j = ok_json (chat_response_of (admitted_ctx ''r1'' sample_caller sample_policy) sample_answer 0 False False)"
      "status_code j = 200"
      "chat_body (sample_deps id (\<lambda>t. Inr (basic_check t))) (admitted_ctx ''r1'' sample_caller sample_policy) (Some sample_body)
        (sample_start id (\<lambda>t. Inr (basic_check t))) = ((Json j, sp), sample_end id (\<lambda>t. Inr (basic_check t)))" by auto
  from default_answers_clean [OF sample_app sample_reachable _ j(3)] j(2)
  have "\<exists>v ms hit fb. Json j = ok_json (chat_response_of (admitted_ctx ''r1'' sample_caller sample_policy) v ms hit fb) \<and>
      clean_text (cr_text v)" by simp
  then show ?thesis unfolding j(1) .
qed





end
