(* ===== verification/Gateway_Stores.thy ===== *)
theory Gateway_Stores
  imports Event_Loop
begin

text \<open>
  The stores of the running service keep their invariants, whatever handlers ran in whatever order:
  breakers stay below their threshold while closed, buckets do not go negative, the response cache stays
  within its bound, and the debug store holds only redacted text.
\<close>

section \<open>The invariants of the stores\<close>

definition breakers_ok :: "settings \<Rightarrow> breakers \<Rightarrow> bool" where
  "breakers_ok s br \<longleftrightarrow> (\<forall>m. cb_inv (breaker_cfg s) (cb_slot br m))"

definition cache_ok :: "settings \<Rightarrow> 'v entries \<Rightarrow> bool" where
  "cache_ok s es \<longleftrightarrow> keys_distinct es \<and> int (length es) \<le> response_cache_max_entries s"

definition redacted :: "string \<Rightarrow> bool" where
  "redacted t \<longleftrightarrow> \<not> rx_search SSN_RE t \<and> \<not> rx_search CREDIT_CARD_RE t \<and> \<not> rx_search EMAIL_RE t"

definition debug_ok :: "debug_store \<Rightarrow> bool" where
  "debug_ok records \<longleftrightarrow>
     (\<forall>rid r. records rid = Some r \<longrightarrow> redacted (redacted_input r) \<and> redacted (redacted_output r))"

definition stores_ok :: "'key deps \<Rightarrow> 'key gateway \<Rightarrow> bool" where
  "stores_ok deps gw \<longleftrightarrow> breakers_ok (dp_settings deps) (gw_breakers gw) \<and> limiter_inv (gw_limiter gw) \<and>
     cache_ok (dp_settings deps) (gw_cache gw) \<and> debug_ok (gw_debug gw)"

text \<open>The settings under which the stores can keep them.\<close>

definition sane :: "settings \<Rightarrow> bool" where
  "sane s \<longleftrightarrow> 0 < circuit_breaker_failure_threshold s \<and> 0 \<le> response_cache_max_entries s"

section \<open>Every operation of a store keeps its invariant\<close>

lemma breakers_ok_allow [inv_intros]:
  "breakers_ok s br \<Longrightarrow> breakers_ok s (snd (cb_allow (breaker_cfg s) br m now))"
  by (auto simp: breakers_ok_def cb_allow_def cb_slot_def cb_inv_def Let_def split: if_splits breaker_state.splits)

lemma breakers_ok_success [inv_intros]:
  "breakers_ok s br \<Longrightarrow> sane s \<Longrightarrow> breakers_ok s (cb_record_success br m)"
  by (auto simp: breakers_ok_def cb_record_success_def cb_slot_def cb_inv_def sane_def breaker_cfg_def Let_def)

lemma breakers_ok_failure [inv_intros]:
  "breakers_ok s br \<Longrightarrow> breakers_ok s (cb_record_failure (breaker_cfg s) br m now)"
  unfolding breakers_ok_def cb_record_failure_def cb_inv_def Let_def
  by (auto simp: cb_slot_def split: option.split)

lemma breakers_ok_try [inv_intros]:
  assumes "breakers_ok s br" "sane s"
  shows "breakers_ok s (fst (snd (try_candidates (breaker_cfg s) client clock n i ms le br w)))"
  using assms(1)
proof (induction ms arbitrary: i le br w)
  case (Cons m ms)
  obtain now w1 where clk: "clock w = (now, w1)" by (cases "clock w")
  obtain ok br1 where al: "cb_allow (breaker_cfg s) br m now = (ok, br1)" by (cases "cb_allow (breaker_cfg s) br m now")
  with breakers_ok_allow [OF Cons.prems, of m now] have br1: "breakers_ok s br1" by simp
  obtain answer w2 where cl: "client m w1 = (answer, w2)" by (cases "client m w1")
  obtain now' w3 where clk': "clock w2 = (now', w3)" by (cases "clock w2")
  show ?case
    using Cons.IH br1 breakers_ok_failure [OF br1] breakers_ok_success [OF br1 assms(2)]
    by (auto simp: Let_def clk al cl clk' split: sum.split client_error.split)
qed (simp split: option.split)

lemma breakers_ok_router [inv_intros]:
  "breakers_ok s br \<Longrightarrow> sane s \<Longrightarrow> breakers_ok s (fst (snd (router_converse (breaker_cfg s) sets client clock p n br w)))"
  unfolding router_converse_def by (rule breakers_ok_try)

lemma breakers_ok_after [inv_intros]:
  "breakers_ok s br \<Longrightarrow> sane s \<Longrightarrow> breakers_ok s (breakers_after (breaker_cfg s) m now acts br)"
  unfolding breakers_after_def
proof (induction acts arbitrary: br)
  case (Cons a acts)
  from Cons.prems have "breakers_ok s (breaker_effect (breaker_cfg s) m now a br)"
    by (cases a) (auto intro: inv_intros)
  from Cons.IH [OF this Cons.prems(2)] show ?case by simp
qed simp

lemma cache_ok_get [inv_intros]: "cache_ok s es \<Longrightarrow> cache_ok s (snd (rc_get cfg es k now))"
  using rc_get_length [of cfg es k now] rc_get_distinct [of es cfg k now] by (auto simp: cache_ok_def)

lemma cache_ok_set [inv_intros]: "cache_ok s es \<Longrightarrow> sane s \<Longrightarrow> cache_ok s (snd (rc_set (rc_cfg s) es k v now))"
  using rc_set_distinct [of es "rc_cfg s" k v now] evict_length [of "response_cache_max_entries s"]
  by (auto simp: cache_ok_def sane_def rc_set_eq rc_cfg_def)

lemma debug_ok_capture [inv_intros]: "debug_ok d \<Longrightarrow> debug_ok (debug_capture d rid tid i out now)"
  by (auto simp: debug_ok_def debug_capture_def redacted_def redact_clean)

section \<open>Every handler keeps the invariants\<close>

lemma stores_ok_sel [simp]:
  "stores_ok deps (log_to r gw) = stores_ok deps gw"
  "stores_ok deps (chat_failed cx m st msg ex gw) = stores_ok deps gw"
  "stores_ok deps (gw\<lparr>gw_world := w\<rparr>) = stores_ok deps gw"
  "stores_ok deps (gw\<lparr>gw_policies := p\<rparr>) = stores_ok deps gw"
  "stores_ok deps (gw\<lparr>gw_snapshots := sn\<rparr>) = stores_ok deps gw"
  "stores_ok deps (gw\<lparr>gw_verifier := v\<rparr>) = stores_ok deps gw"
  "stores_ok deps (gw\<lparr>gw_logs := l\<rparr>) = stores_ok deps gw"
  by (simp_all add: stores_ok_def log_to_def chat_failed_def)

lemma stores_ok_upd:
  assumes "stores_ok deps gw"
  shows "breakers_ok (dp_settings deps) br \<Longrightarrow> stores_ok deps (gw\<lparr>gw_breakers := br\<rparr>)"
    and "limiter_inv l \<Longrightarrow> stores_ok deps (gw\<lparr>gw_limiter := l\<rparr>)"
    and "cache_ok (dp_settings deps) c \<Longrightarrow> stores_ok deps (gw\<lparr>gw_cache := c\<rparr>)"
    and "debug_ok d \<Longrightarrow> stores_ok deps (gw\<lparr>gw_debug := d\<rparr>)"
  using assms by (simp_all add: stores_ok_def)

lemma stores_ok_capture:
  "stores_ok deps gw \<Longrightarrow> stores_ok deps (capture_if_enabled deps cx i t gw)"
  by (auto simp: capture_if_enabled_def stores_ok_def intro: debug_ok_capture split: prod.split)

lemma stores_ok_hit:
  "chat_hit deps cx q txt ms v gw = (r, gw') \<Longrightarrow> stores_ok deps gw \<Longrightarrow> stores_ok deps gw'"
  by (auto simp: chat_hit_def Let_def stores_ok_capture)

lemma stores_ok_set:
  assumes "rc_set (rc_cfg (dp_settings deps)) (gw_cache gw) k v now = (res, cache)" "stores_ok deps gw" "sane (dp_settings deps)"
  shows "stores_ok deps (gw\<lparr>gw_cache := cache\<rparr>)"
  using cache_ok_set [of "dp_settings deps" "gw_cache gw" k v now] assms by (simp add: stores_ok_def)

lemma stores_ok_finish:
  assumes "chat_finish deps cx q txt ms routed gw = (r, gw')" "stores_ok deps gw" "sane (dp_settings deps)"
  shows "stores_ok deps gw'"
proof -
  define v where "v = \<lparr>cr_text = res_text (rt_result routed), cr_stop_reason = res_stop_reason (rt_result routed),
     cr_input_tokens = res_input_tokens (rt_result routed), cr_output_tokens = res_output_tokens (rt_result routed),
     cr_model_id = rt_model_id routed\<rparr>"
  obtain verdict oms w where g: "output_guardrail deps (cx_policy cx) (res_text (rt_result routed)) (gw_world gw) = (verdict, oms, w)"
    by (metis prod_cases3)
  obtain now w2 where t: "tick deps w = (now, w2)" by (cases "tick deps w")
  obtain res cache where c: "rc_set (rc_cfg (dp_settings deps)) (gw_cache gw) (query_key deps q) v now = (res, cache)"
    by (cases "rc_set (rc_cfg (dp_settings deps)) (gw_cache gw) (query_key deps q) v now")
  from stores_ok_set [OF c assms(2, 3)] have cache: "stores_ok deps (gw\<lparr>gw_cache := cache\<rparr>)" .
  then have "stores_ok deps (gw\<lparr>gw_cache := cache, gw_world := emit (CacheWrite q v) w2\<rparr>)"
    "stores_ok deps (capture_if_enabled deps cx txt (res_text (rt_result routed))
       (gw\<lparr>gw_cache := cache, gw_world := emit (CacheWrite q v) w2\<rparr>))"
    by (simp_all add: stores_ok_capture)
  with assms(1, 2) g t c show ?thesis
    by (cases verdict) (auto simp: chat_finish_def Let_def v_def [symmetric] split: stage_error.splits sum.splits)
qed

lemma stores_ok_miss:
  assumes "chat_miss deps cx q txt ms cr gw = (r, gw')" "stores_ok deps gw" "sane (dp_settings deps)"
  shows "stores_ok deps gw'"
proof -
  obtain start w where t: "tick deps (gw_world gw) = (start, w)" by (cases "tick deps (gw_world gw)")
  obtain out br w2 where ro: "router_converse (breaker_cfg (dp_settings deps)) (dp_route_sets deps)
      (bedrock_call deps (cx_policy cx) (bedrock_messages (rq_messages cr)) (rq_max_tokens cr) (rq_temperature cr))
      (tick deps) (cq_model q) (route_set (cx_policy cx)) (gw_breakers gw) w = (out, br, w2)" by (metis prod_cases3)
  have "breakers_ok (dp_settings deps) (gw_breakers gw)" using assms(2) by (simp add: stores_ok_def)
  from breakers_ok_router [OF this assms(3), of "dp_route_sets deps"] ro have "breakers_ok (dp_settings deps) br"
    by (metis fst_conv snd_conv)
  then have ok: "stores_ok deps (gw\<lparr>gw_breakers := br, gw_world := w2\<rparr>)" using stores_ok_upd(1) [OF assms(2)] by simp
  show ?thesis
    using assms(1) t ro ok stores_ok_upd(1) [OF assms(2) \<open>breakers_ok (dp_settings deps) br\<close>]
    by (auto simp: chat_miss_def Let_def split: sum.splits route_error.splits prod.splits
        dest: stores_ok_finish [OF _ ok assms(3)])
qed

lemma stores_ok_cached:
  assumes "chat_cached deps cx m txt ms cr gw = (r, gw')" "stores_ok deps gw" "sane (dp_settings deps)"
  shows "stores_ok deps gw'"
proof -
  obtain now w where t: "tick deps (gw_world gw) = (now, w)" by (cases "tick deps (gw_world gw)")
  obtain found cache where c: "rc_get (rc_cfg (dp_settings deps)) (gw_cache gw) (query_key deps (query_of cx m cr)) now = (found, cache)"
    by (cases "rc_get (rc_cfg (dp_settings deps)) (gw_cache gw) (query_key deps (query_of cx m cr)) now")
  have "cache_ok (dp_settings deps) (gw_cache gw)" using assms(2) by (simp add: stores_ok_def)
  from cache_ok_get [OF this, of "rc_cfg (dp_settings deps)" "query_key deps (query_of cx m cr)" now]
  have ok: "stores_ok deps (gw\<lparr>gw_cache := cache, gw_world := w\<rparr>)" using stores_ok_upd(3) [OF assms(2)] c by simp
  show ?thesis
  proof (cases found)
    case None
    with assms(1) t c have "chat_miss deps cx (query_of cx m cr) txt ms cr (gw\<lparr>gw_cache := cache, gw_world := w\<rparr>) = (r, gw')"
      by (simp add: chat_cached_def Let_def)
    from stores_ok_miss [OF this ok assms(3)] show ?thesis .
  next
    case (Some v)
    with assms(1) t c have "chat_hit deps cx (query_of cx m cr) txt ms v (gw\<lparr>gw_cache := cache, gw_world := w\<rparr>) = (r, gw')"
      by (simp add: chat_cached_def Let_def)
    from stores_ok_hit [OF this ok] show ?thesis .
  qed
qed

lemma stores_ok_stream:
  assumes "chat_stream deps cx m cr gw = (r, gw')" "stores_ok deps gw"
  shows "stores_ok deps gw'"
proof -
  obtain now w where t: "tick deps (gw_world gw) = (now, w)" by (cases "tick deps (gw_world gw)")
  obtain ok br where a: "cb_allow (breaker_cfg (dp_settings deps)) (gw_breakers gw) m now = (ok, br)"
    by (cases "cb_allow (breaker_cfg (dp_settings deps)) (gw_breakers gw) m now")
  have "breakers_ok (dp_settings deps) (gw_breakers gw)" using assms(2) by (simp add: stores_ok_def)
  from breakers_ok_allow [OF this, of m now] a have "stores_ok deps (gw\<lparr>gw_breakers := br\<rparr>)"
    using stores_ok_upd(1) [OF assms(2)] by simp
  then show ?thesis using assms(1) t a by (auto simp: chat_stream_def Let_def split: if_splits)
qed

lemma stores_ok_checked:
  assumes "chat_checked deps cx cr gw = (r, gw')" "stores_ok deps gw" "sane (dp_settings deps)"
  shows "stores_ok deps gw'"
proof -
  obtain verdict ms w where g: "input_guardrail deps (cx_policy cx) (combined_input_text (rq_messages cr)) (gw_world gw) = (verdict, ms, w)"
    by (metis prod_cases3)
  have ok: "stores_ok deps (gw\<lparr>gw_world := w\<rparr>)" using assms(2) by simp
  show ?thesis
    using assms(1, 2) g ok
    by (auto simp: chat_checked_def Let_def split: sum.splits stage_error.splits if_splits
        dest: stores_ok_stream [OF _ ok] stores_ok_cached [OF _ ok assms(3)])
qed

lemma stores_ok_body:
  "chat_body deps cx b gw = (r, gw') \<Longrightarrow> stores_ok deps gw \<Longrightarrow> sane (dp_settings deps) \<Longrightarrow> stores_ok deps gw'"
  by (auto simp: chat_body_def stores_ok_checked split: option.splits sum.splits)

section \<open>Every step keeps them\<close>

lemma stores_ok_admit:
  assumes "chat_admit deps req gw = (r, gw')" "stores_ok deps gw"
  shows "stores_ok deps gw'"
proof -
  have "gw_breakers gw' = gw_breakers gw" "gw_cache gw' = gw_cache gw"
    using chat_admit_spec(1) [OF assms(1)] by (simp_all add: admit_frame_def)
  moreover have "gw_debug gw' = gw_debug gw \<and> (gw_limiter gw' = gw_limiter gw \<or>
      (\<exists>p now. gw_limiter gw' = snd (enforce_rate_limit p (gw_limiter gw) now)))"
    using assms(1) by (auto simp: chat_admit_def Let_def split: prod.splits sum.splits) (metis snd_conv)+
  moreover have "limiter_inv (snd (enforce_rate_limit p (gw_limiter gw) now))" for p now
    using assms(2) rl_allow_inv by (auto simp: stores_ok_def enforce_rate_limit_def Let_def split: prod.split) (metis snd_conv)+
  ultimately show ?thesis using assms(2) unfolding stores_ok_def by auto
qed

lemma stores_ok_start:
  "chat_start deps rid req gw = (r, gw') \<Longrightarrow> stores_ok deps gw \<Longrightarrow> stores_ok deps gw'"
  by (auto simp: chat_start_def split: prod.splits sum.splits dest: stores_ok_admit)

lemma stores_ok_admin_start:
  "admin_start deps rid req gw = (r, gw') \<Longrightarrow> stores_ok deps gw \<Longrightarrow> stores_ok deps gw'"
  by (auto simp: admin_start_def Let_def split: prod.splits sum.splits)

lemma stores_ok_admin_body:
  "admin_body deps rid i tid b gw = (r, gw') \<Longrightarrow> stores_ok deps gw \<Longrightarrow> stores_ok deps gw'"
  by (auto simp: admin_body_def Let_def split: option.splits sum.splits prod.splits)

lemma stores_ok_run_stream:
  assumes "run_stream deps job dropped c d gw = (acts, gw')" "stores_ok deps gw" "sane (dp_settings deps)"
  shows "stores_ok deps gw'"
proof -
  have "gw_breakers gw' = breakers_after (breaker_cfg (dp_settings deps)) (sj_model job)
      (dp_clock deps (w_ticks (gw_world gw))) acts (gw_breakers gw)"
    "gw_limiter gw' = gw_limiter gw" "gw_cache gw' = gw_cache gw" "gw_debug gw' = gw_debug gw"
    using assms(1) by (auto simp: run_stream_def tick_def Let_def split: prod.splits)
  with assms(2, 3) breakers_ok_after show ?thesis by (auto simp: stores_ok_def)
qed

lemma stores_ok_step:
  assumes "step deps s s'" "stores_ok deps (fst s)" "sane (dp_settings deps)"
  shows "stores_ok deps (fst s')"
  using assms
  by (induction rule: step.induct)
    (auto dest: stores_ok_start stores_ok_body stores_ok_admin_start stores_ok_admin_body stores_ok_run_stream)

lemma stores_ok_reachable:
  assumes "reachable deps policies s" "sane (dp_settings deps)"
  shows "stores_ok deps (fst s)"
  using assms
proof (induction rule: reachable.induct)
  case reach_init
  then show ?case
    by (auto simp: create_app_def stores_ok_def breakers_ok_def cb_slot_def new_breaker_def cb_inv_def sane_def
        breaker_cfg_def limiter_inv_empty cache_ok_def keys_distinct_def debug_ok_def)
qed (blast intro: stores_ok_step)

end
