(* ===== verification/Request_Lifecycle.thy ===== *)
theory Request_Lifecycle
  imports Gateway_Safety
begin

text \<open>
  The life of one admitted request: a finite automaton over the events of \<open>chat_body\<close>, the abstract
  specification of the handler. \<open>advance\<close> says which event may follow in which phase and what it has to
  be about (the text that was checked, the answer that was checked, the entry that was written);
  \<open>ends_with\<close> says which response a request gets that stops in a phase. \<open>body_lifecycle\<close>: the handler
  implements the automaton from the phase \<open>Received\<close>.
\<close>

section \<open>The automaton\<close>

datatype phase =
    Received
  | Blocked
  | Screened string
  | Streamed
  | Called string
  | Withheld
  | Vetted string
  | Stored cache_query cached_response
  | Replied cached_response

definition may_call :: "'key deps \<Rightarrow> tenant_policy \<Rightarrow> string \<Rightarrow> tenant_policy \<Rightarrow> string \<Rightarrow> bedrock_message list \<Rightarrow> bool" where
  "may_call deps policy t p m messages \<longleftrightarrow>
     p = policy \<and> prompt_text messages = t \<and> certified (dp_route_sets deps) policy m"

text \<open>The earlier write of the same key that makes an answer from the cache legitimate.\<close>

definition cached_before :: "'key deps \<Rightarrow> gateway_event list \<Rightarrow> cache_query \<Rightarrow> cached_response \<Rightarrow> bool" where
  "cached_before deps prior q v \<longleftrightarrow> (\<exists>q'. CacheWrite q' v \<in> set prior \<and> query_key deps q' = query_key deps q)"

text \<open>A recorded check is one the guardrail client answered for that text and policy.\<close>

definition real_in :: "'key deps \<Rightarrow> tenant_policy \<Rightarrow> string \<Rightarrow> string + guardrail_decision \<Rightarrow> bool" where
  "real_in deps policy t c \<longleftrightarrow> (\<exists>n. c = dp_check_input deps n t (guardrail_policy policy))"

definition real_out :: "'key deps \<Rightarrow> tenant_policy \<Rightarrow> string \<Rightarrow> string + guardrail_decision \<Rightarrow> bool" where
  "real_out deps policy t c \<longleftrightarrow> (\<exists>n. c = dp_check_output deps n t (guardrail_policy policy))"

fun advance :: "'key deps \<Rightarrow> gateway_event list \<Rightarrow> tenant_policy \<Rightarrow> phase \<Rightarrow> gateway_event \<Rightarrow> phase option" where
  "advance deps prior policy Received (GuardIn p t c) =
     (if p = policy \<and> real_in deps policy t c then Some (if text_passed policy c then Screened t else Blocked) else None)"
| "advance deps prior policy (Screened t) (StreamCall p m messages) =
     (if may_call deps policy t p m messages then Some Streamed else None)"
| "advance deps prior policy (Screened t) (ModelCall p m messages) =
     (if may_call deps policy t p m messages then Some (Called t) else None)"
| "advance deps prior policy (Screened t) (Answered q v) =
     (if cq_policy q = policy \<and> cached_before deps prior q v then Some (Replied v) else None)"
| "advance deps prior policy (Called t) (ModelCall p m messages) =
     (if may_call deps policy t p m messages then Some (Called t) else None)"
| "advance deps prior policy (Called t) (GuardOut p x c) =
     (if p = policy \<and> real_out deps policy x c then Some (if text_passed policy c then Vetted x else Withheld) else None)"
| "advance deps prior policy (Vetted x) (CacheWrite q v) =
     (if cq_policy q = policy \<and> cr_text v = x then Some (Stored q v) else None)"
| "advance deps prior policy (Stored q v) (Answered q' v') =
     (if q' = q \<and> v' = v then Some (Replied v) else None)"
| "advance deps prior policy _ _ = None"

primrec run_phases :: "'key deps \<Rightarrow> gateway_event list \<Rightarrow> tenant_policy \<Rightarrow> phase \<Rightarrow> gateway_event list \<Rightarrow> phase option" where
  "run_phases deps prior policy ph [] = Some ph"
| "run_phases deps prior policy ph (ev # evs) =
     (case advance deps prior policy ph ev of
        None \<Rightarrow> None
      | Some ph' \<Rightarrow> run_phases deps prior policy ph' evs)"

fun status_in :: "int set \<Rightarrow> http_response \<Rightarrow> bool" where
  "status_in S (Json j) \<longleftrightarrow> status_code j \<in> S"
| "status_in S _ \<longleftrightarrow> False"

text \<open>
  The response of a request that stops in a phase. A request ends in \<open>Stored\<close> only by a crash: the cache
  write of a cache with a negative capacity.
\<close>

fun ends_with :: "settings \<Rightarrow> chat_ctx \<Rightarrow> phase \<Rightarrow> http_response \<Rightarrow> bool" where
  "ends_with s cx Received r \<longleftrightarrow> status_in {400, 403} r"
| "ends_with s cx Blocked r \<longleftrightarrow> status_in {400, 503} r"
| "ends_with s cx (Screened t) r \<longleftrightarrow> status_in {503} r"
| "ends_with s cx Streamed r \<longleftrightarrow> (\<exists>job. r = EventStream job)"
| "ends_with s cx (Called t) r \<longleftrightarrow> status_in {429, 502, 503, 504} r"
| "ends_with s cx Withheld r \<longleftrightarrow> status_in {502, 503} r"
| "ends_with s cx (Vetted x) r \<longleftrightarrow> False"
| "ends_with s cx (Stored q v) r \<longleftrightarrow> response_cache_max_entries s < 0 \<and> r = Unhandled ''KeyError''"
| "ends_with s cx (Replied v) r \<longleftrightarrow> (\<exists>ms hit fb. r = ok_json (chat_response_of cx v ms hit fb))"

section \<open>Segments\<close>

text \<open>The handler appended a run of the automaton from \<open>ph\<close> and answered as its last phase wants.\<close>

definition segment ::
  "'key deps \<Rightarrow> gateway_event list \<Rightarrow> chat_ctx \<Rightarrow> phase \<Rightarrow> http_response \<Rightarrow> 'key gateway \<Rightarrow> 'key gateway \<Rightarrow> bool" where
  "segment deps prior cx ph r gw gw' \<longleftrightarrow>
     (\<exists>evs ph'. tr_of gw' = tr_of gw @ evs \<and> run_phases deps prior (cx_policy cx) ph evs = Some ph' \<and>
        ends_with (dp_settings deps) cx ph' r)"

lemma segment_stop:
  "tr_of gw' = tr_of gw \<Longrightarrow> ends_with (dp_settings deps) cx ph r \<Longrightarrow> segment deps prior cx ph r gw gw'"
  unfolding segment_def by (intro exI [of _ "[]"]) simp

lemma segment_event:
  assumes "tr_of gw1 = tr_of gw @ [ev]" "advance deps prior (cx_policy cx) ph ev = Some ph1"
    and "segment deps prior cx ph1 r gw1 gw'"
  shows "segment deps prior cx ph r gw gw'"
proof -
  from assms(3) obtain evs ph' where "tr_of gw' = tr_of gw1 @ evs" "run_phases deps prior (cx_policy cx) ph1 evs = Some ph'"
    "ends_with (dp_settings deps) cx ph' r" unfolding segment_def by blast
  with assms(1, 2) show ?thesis unfolding segment_def by (intro exI [of _ "ev # evs"]) simp
qed

lemma segment_quiet:
  "tr_of gw1 = tr_of gw \<Longrightarrow> segment deps prior cx ph r gw1 gw' \<Longrightarrow> segment deps prior cx ph r gw gw'"
  by (simp add: segment_def)

lemma segment_last:
  assumes "tr_of gw' = tr_of gw @ [ev]" "advance deps prior (cx_policy cx) ph ev = Some ph1"
    and "ends_with (dp_settings deps) cx ph1 r"
  shows "segment deps prior cx ph r gw gw'"
  by (rule segment_event [OF assms(1, 2) segment_stop [OF refl assms(3)]])

text \<open>A stretch of calls of the router.\<close>

lemma run_calls:
  assumes "ph = Screened t \<or> ph = Called t" "ms \<noteq> []"
    and "\<And>m. m \<in> set ms \<Longrightarrow> may_call deps policy t policy m messages"
  shows "run_phases deps prior policy ph (map (\<lambda>m. ModelCall policy m messages) ms) = Some (Called t)"
  using assms
proof (induction ms arbitrary: ph)
  case (Cons m ms)
  then have first: "advance deps prior policy ph (ModelCall policy m messages) = Some (Called t)" by auto
  show ?case
  proof (cases "ms = []")
    case False
    with Cons.IH [of "Called t"] Cons.prems(3) first show ?thesis by simp
  qed (use first in simp)
qed simp

lemma run_phases_append:
  "run_phases deps prior policy ph evs = Some ph1 \<Longrightarrow>
     run_phases deps prior policy ph (evs @ evs') = run_phases deps prior policy ph1 evs'"
  by (induction evs arbitrary: ph) (auto split: option.splits)

lemma segment_calls:
  assumes "tr_of gw1 = tr_of gw @ map (\<lambda>m. ModelCall (cx_policy cx) m messages) ms" "ms \<noteq> []"
    and "\<And>m. m \<in> set ms \<Longrightarrow> may_call deps (cx_policy cx) t (cx_policy cx) m messages"
    and "segment deps prior cx (Called t) r gw1 gw'"
  shows "segment deps prior cx (Screened t) r gw gw'"
proof -
  from assms(4) obtain evs ph' where "tr_of gw' = tr_of gw1 @ evs"
    "run_phases deps prior (cx_policy cx) (Called t) evs = Some ph'"
    "ends_with (dp_settings deps) cx ph' r" unfolding segment_def by blast
  with assms(1) run_phases_append [OF run_calls [OF disjI1 [OF refl] assms(2, 3)]]
  show ?thesis unfolding segment_def
    by (intro exI [of _ "map (\<lambda>m. ModelCall (cx_policy cx) m messages) ms @ evs"] exI [of _ ph']) simp
qed

section \<open>The parts of the handler run the automaton\<close>

lemma hit_lifecycle:
  assumes "chat_hit deps cx q txt ms v gw = ((r, sp), gw')"
    and "cq_policy q = cx_policy cx" "cached_before deps prior q v"
  shows "segment deps prior cx (Screened t) r gw gw'"
  by (rule segment_last [where ev = "Answered q v" and ?ph1.0 = "Replied v"])
    (use assms in \<open>auto simp: chat_hit_def Let_def\<close>)

lemma rc_set_error: "rc_set cfg es k v now = (Inl e, es') \<Longrightarrow> rc_max_entries cfg < 0 \<and> e = KeyError"
proof -
  have "fst (evict n es) = Inl e \<Longrightarrow> n < 0 \<and> e = KeyError" for n and es :: "'a entries"
    by (induction es) (auto split: if_splits)
  then show "rc_set cfg es k v now = (Inl e, es') \<Longrightarrow> rc_max_entries cfg < 0 \<and> e = KeyError"
    unfolding rc_set_def by (metis fst_conv)
qed

lemma guardrail_statuses:
  "input_guardrail deps policy txt w = (Inl e, ms, w') \<Longrightarrow> \<exists>st c msg. e = PipelineError st c msg \<and> st \<in> {400, 503}"
  "output_guardrail deps policy txt w = (Inl e, ms, w') \<Longrightarrow> \<exists>st c msg. e = PipelineError st c msg \<and> st \<in> {502, 503}"
  by (auto simp: input_guardrail_def output_guardrail_def check_input_guardrail_def check_output_guardrail_def
      guardrail_stage_def bind_r_Inl_iff Let_def tick_def split: if_splits sum.splits)

lemma finish_lifecycle:
  assumes "chat_finish deps cx q txt ms routed gw = ((r, sp), gw')" and "cq_policy q = cx_policy cx"
  shows "segment deps prior cx (Called t) r gw gw'"
proof -
  define v where "v = \<lparr>cr_text = res_text (rt_result routed), cr_stop_reason = res_stop_reason (rt_result routed),
     cr_input_tokens = res_input_tokens (rt_result routed), cr_output_tokens = res_output_tokens (rt_result routed),
     cr_model_id = rt_model_id routed\<rparr>"
  obtain verdict oms w where g: "output_guardrail deps (cx_policy cx) (res_text (rt_result routed)) (gw_world gw) = (verdict, oms, w)"
    by (metis prod_cases3)
  from output_guardrail_spec [OF g] obtain check where
    w: "w_trace w = tr_of gw @ [GuardOut (cx_policy cx) (cr_text v) check]"
    and ok: "is_ok verdict \<longleftrightarrow> text_passed (cx_policy cx) check" and real: "real_out deps (cx_policy cx) (cr_text v) check"
    by (auto simp: v_def real_out_def)
  define gw1 where "gw1 = gw\<lparr>gw_world := w\<rparr>"
  have tr1: "tr_of gw1 = tr_of gw @ [GuardOut (cx_policy cx) (cr_text v) check]" by (simp add: gw1_def w)
  show ?thesis
  proof (cases verdict)
    case (Inl e)
    with guardrail_statuses(2) g obtain st c msg where e: "e = PipelineError st c msg" "st \<in> {502, 503}" by blast
    show ?thesis
      by (rule segment_event [OF tr1, where ?ph1.0 = Withheld])
        (use Inl e ok real assms(1) g in \<open>auto simp: chat_finish_def Let_def gw1_def error_response_def intro!: segment_stop\<close>)
  next
    case (Inr d)
    obtain now w2 where tk: "tick deps w = (now, w2)" by (cases "tick deps w")
    obtain res cache where rc: "rc_set (rc_cfg (dp_settings deps)) (gw_cache gw) (query_key deps q) v now = (res, cache)"
      by (cases "rc_set (rc_cfg (dp_settings deps)) (gw_cache gw) (query_key deps q) v now")
    define gw2 where "gw2 = gw1\<lparr>gw_cache := cache, gw_world := emit (CacheWrite q v) w2\<rparr>"
    have tr2: "tr_of gw2 = tr_of gw1 @ [CacheWrite q v]" using tick_traceD [OF tk] by (simp add: gw2_def gw1_def)
    have "segment deps prior cx (Stored q v) r gw2 gw'"
    proof (cases res)
      case (Inl e)
      with Inr assms(1) g tk rc have "gw' = gw2" "r = Unhandled (exn_name e)"
        by (simp_all add: chat_finish_def Let_def v_def gw1_def gw2_def)
      moreover from rc_set_error [OF rc [unfolded Inl]] have "rc_max_entries (rc_cfg (dp_settings deps)) < 0" "e = KeyError" by simp_all
      ultimately show ?thesis by (intro segment_stop) (simp_all add: rc_cfg_def)
    next
      case stored: (Inr u)
      show ?thesis
        by (rule segment_last [where ev = "Answered q v" and ?ph1.0 = "Replied v"])
          (use Inr stored assms(1) g tk rc in \<open>auto simp: chat_finish_def Let_def v_def gw1_def gw2_def\<close>)
    qed
    then have "segment deps prior cx (Vetted (cr_text v)) r gw1 gw'"
      by (rule segment_event [OF tr2, rotated]) (simp add: assms(2))
    then show ?thesis by (rule segment_event [OF tr1, rotated]) (use ok real Inr in simp)
  qed
qed

text \<open>The Bedrock client raises only its own error, so nothing passes through the router.\<close>

lemma bedrock_call_caught: "fst (bedrock_call deps policy messages mt temp m w) \<noteq> Inl (Unexpected x)"
  by (auto simp: bedrock_call_def Let_def split: prod.split sum.split)

lemma route_never_propagates:
  assumes "router_converse cfg sets (bedrock_call deps policy messages mt temp) clk p n br w = (out, br', w')"
  shows "out \<noteq> Inl (Propagated x)"
proof -
  have "try_candidates cfg (bedrock_call deps policy messages mt temp) clk n i ms le br w = (out, br', w') \<Longrightarrow>
      out \<noteq> Inl (Propagated x)" for i ms le br w
  proof (induction ms arbitrary: i le br w)
    case (Cons m ms)
    obtain answer w2 where c: "bedrock_call deps policy messages mt temp m (snd (clk w)) = (answer, w2)"
      by (cases "bedrock_call deps policy messages mt temp m (snd (clk w))")
    with bedrock_call_caught [of deps policy messages mt temp m "snd (clk w)"] have "answer \<noteq> Inl (Unexpected y)" for y by auto
    with Cons c show ?case by (auto simp: Let_def split: prod.splits sum.splits if_splits client_error.splits)
  qed (auto split: option.splits)
  with assms show ?thesis unfolding router_converse_def by blast
qed

text \<open>What the router appends: one call per tried candidate, and none exactly when every route was unavailable.\<close>

lemma routed_calls:
  assumes "router_converse cfg sets (bedrock_call deps policy messages mt temp) (tick deps) p n br w = (out, br', w')"
  obtains ms where "w_trace w' = w_trace w @ map (\<lambda>m. ModelCall policy m messages) ms"
    "set ms \<subseteq> set (candidates sets p n)" "ms = [] \<longleftrightarrow> (\<exists>x. out = Inl (AllRoutesUnavailable x))"
proof -
  define P where "P u \<longleftrightarrow> (\<exists>ms. w_trace u = w_trace w @ map (\<lambda>m. ModelCall policy m messages) ms \<and>
     set ms \<subseteq> set (candidates sets p n))" for u :: world
  have "P (snd (snd (router_converse cfg sets (bedrock_call deps policy messages mt temp) (tick deps) p n br w)))"
  proof (rule router_converse_keeps)
    fix m u assume m: "m \<in> set (candidates sets p n)" and "P u"
    then obtain ms where "w_trace u = w_trace w @ map (\<lambda>m. ModelCall policy m messages) ms"
      "set ms \<subseteq> set (candidates sets p n)" unfolding P_def by blast
    with m show "P (snd (bedrock_call deps policy messages mt temp m u))"
      unfolding P_def bedrock_call_trace by (intro exI [of _ "ms @ [m]"]) simp
  next
    show "P u \<Longrightarrow> P (snd (tick deps u))" for u by (simp add: P_def)
  next
    show "P w" unfolding P_def by (intro exI [of _ "[]"]) simp
  qed
  with assms obtain ms where ms: "w_trace w' = w_trace w @ map (\<lambda>m. ModelCall policy m messages) ms"
    "set ms \<subseteq> set (candidates sets p n)" unfolding P_def by auto
  from bedrock.router_converse_ok [OF assms] obtain cs where
    cs: "model_calls w' = model_calls w @ cs" "bedrock.route_ok 0 (candidates sets p n) None cs out br'" by blast
  have "concat (map called_model (map (\<lambda>m. ModelCall policy m messages) ms)) = ms" by (induction ms) auto
  with ms(1) cs(1) have eq: "cs = ms" by (simp add: model_calls_def)
  have "ms = [] \<longleftrightarrow> (\<exists>x. out = Inl (AllRoutesUnavailable x))"
    using cs(2) unfolding eq bedrock.route_ok_def
    by (auto simp: bedrock.served_def split: sum.splits route_error.splits)
  with ms that show ?thesis by blast
qed

lemma error_status_upstream: "fst (error_status c) \<in> {429, 502, 503, 504}"
  by (simp add: error_status_def)

lemma miss_lifecycle:
  assumes "chat_miss deps cx q txt ms cr gw = ((r, sp), gw')" and "cq_policy q = cx_policy cx"
    and "enforce_model_allowlist (cx_policy cx) requested dflt = Inr (cq_model q)"
    and "t = combined_input_text (rq_messages cr)"
  shows "segment deps prior cx (Screened t) r gw gw'"
proof -
  define msgs where "msgs = bedrock_messages (rq_messages cr)"
  obtain start w0 where tk0: "tick deps (gw_world gw) = (start, w0)" by (cases "tick deps (gw_world gw)")
  obtain out br w where rt: "router_converse (breaker_cfg (dp_settings deps)) (dp_route_sets deps)
      (bedrock_call deps (cx_policy cx) msgs (rq_max_tokens cr) (rq_temperature cr)) (tick deps) (cq_model q)
      (route_set (cx_policy cx)) (gw_breakers gw) w0 = (out, br, w)" by (metis prod_cases3)
  define gw1 where "gw1 = gw\<lparr>gw_breakers := br, gw_world := w\<rparr>"
  obtain now w1 where tk1: "tick deps w = (now, w1)" by (cases "tick deps w")
  from routed_calls [OF rt] obtain cs where
    cs: "w_trace w = w_trace w0 @ map (\<lambda>m. ModelCall (cx_policy cx) m msgs) cs"
      "set cs \<subseteq> set (candidates (dp_route_sets deps) (cq_model q) (route_set (cx_policy cx)))"
    and none: "cs = [] \<longleftrightarrow> (\<exists>x. out = Inl (AllRoutesUnavailable x))" by blast
  have tr1: "tr_of gw1 = tr_of gw @ map (\<lambda>m. ModelCall (cx_policy cx) m msgs) cs"
    using cs(1) tick_traceD [OF tk0] by (simp add: gw1_def)
  have may: "may_call deps (cx_policy cx) t (cx_policy cx) m msgs" if "m \<in> set cs" for m
    using that cs(2) candidates_certified [OF assms(3)] assms(4) by (auto simp: may_call_def msgs_def)
  note run = tk0 rt [unfolded msgs_def] tk1 tick_traceD [OF tk1]
  consider (failed) e where "out = Inl (Failed e)" | (unavailable) n where "out = Inl (AllRoutesUnavailable n)"
    | (routed) rr where "out = Inr rr"
    using route_never_propagates [OF rt] by (metis sum.exhaust route_error.exhaust)
  then show ?thesis
  proof cases
    case failed
    with assms(1) run error_status_upstream [of "inv_code e"]
    have "tr_of gw' = tr_of gw1" "status_in {429, 502, 503, 504} r"
      by (auto simp: chat_miss_def Let_def gw1_def error_response_def split: prod.splits)
    with failed none show ?thesis by (intro segment_calls [OF tr1 _ may] segment_stop) simp_all
  next
    case unavailable
    with assms(1) run none tr1 show ?thesis
      by (intro segment_stop) (auto simp: chat_miss_def Let_def gw1_def error_response_def)
  next
    case (routed rr)
    with assms(1) run have "chat_finish deps cx q txt ms rr gw1 = ((r, sp), gw')"
      by (simp add: chat_miss_def Let_def gw1_def)
    from finish_lifecycle [OF this assms(2)] routed none show ?thesis
      by (intro segment_calls [OF tr1 _ may]) simp_all
  qed
qed

lemma cached_lifecycle:
  assumes "chat_cached deps cx m txt ms cr gw = ((r, sp), gw')"
    and "enforce_model_allowlist (cx_policy cx) requested dflt = Inr m"
    and "t = combined_input_text (rq_messages cr)" and "cache_backed deps (gw_cache gw) prior"
  shows "segment deps prior cx (Screened t) r gw gw'"
proof -
  let ?q = "query_of cx m cr"
  have q: "cq_policy ?q = cx_policy cx" "cq_model ?q = m" by (simp_all add: query_of_def)
  obtain now w where tk: "tick deps (gw_world gw) = (now, w)" by (cases "tick deps (gw_world gw)")
  obtain found cache where g: "rc_get (rc_cfg (dp_settings deps)) (gw_cache gw) (query_key deps ?q) now = (found, cache)"
    by (cases "rc_get (rc_cfg (dp_settings deps)) (gw_cache gw) (query_key deps ?q) now")
  define gw1 where "gw1 = gw\<lparr>gw_cache := cache, gw_world := w\<rparr>"
  have tr: "tr_of gw1 = tr_of gw" using tick_traceD [OF tk] by (simp add: gw1_def)
  have "segment deps prior cx (Screened t) r gw1 gw'"
  proof (cases found)
    case None
    with assms(1) tk g have "chat_miss deps cx ?q txt ms cr gw1 = ((r, sp), gw')"
      by (simp add: chat_cached_def Let_def gw1_def)
    from miss_lifecycle [OF this q(1)] assms(2, 3) q(2) show ?thesis by simp
  next
    case (Some v)
    with g rc_get_found [of "rc_cfg (dp_settings deps)" "gw_cache gw" "query_key deps ?q" now v]
    obtain ts where "(query_key deps ?q, (ts, v)) \<in> set (gw_cache gw)" by auto
    with assms(4) have "cached_before deps prior ?q v" unfolding cache_backed_def cached_before_def by blast
    moreover from Some assms(1) tk g have "chat_hit deps cx ?q txt ms v gw1 = ((r, sp), gw')"
      by (simp add: chat_cached_def Let_def gw1_def)
    ultimately show ?thesis using hit_lifecycle q(1) by blast
  qed
  with tr show ?thesis by (rule segment_quiet)
qed

lemma stream_lifecycle:
  assumes "chat_stream deps cx m cr gw = ((r, sp), gw')"
    and "enforce_model_allowlist (cx_policy cx) requested dflt = Inr m"
    and "t = combined_input_text (rq_messages cr)"
  shows "segment deps prior cx (Screened t) r gw gw'"
proof -
  obtain now w where tk: "tick deps (gw_world gw) = (now, w)" by (cases "tick deps (gw_world gw)")
  obtain ok br where al: "cb_allow (breaker_cfg (dp_settings deps)) (gw_breakers gw) m now = (ok, br)"
    by (cases "cb_allow (breaker_cfg (dp_settings deps)) (gw_breakers gw) m now")
  have cert: "may_call deps (cx_policy cx) t (cx_policy cx) m (bedrock_messages (rq_messages cr))"
    using candidates_certified [OF assms(2), of m] assms(3) by (simp add: candidates_def may_call_def)
  show ?thesis
  proof (cases ok)
    case True
    with assms(1) tk al cert tick_traceD [OF tk] show ?thesis
      by (intro segment_last [where ev = "StreamCall (cx_policy cx) m (bedrock_messages (rq_messages cr))"
            and ?ph1.0 = Streamed]) (auto simp: chat_stream_def Let_def)
  next
    case False
    with assms(1) tk al tick_traceD [OF tk] show ?thesis
      by (intro segment_stop) (auto simp: chat_stream_def Let_def error_response_def)
  qed
qed

lemma segment_cx:
  "cx_policy cx1 = cx_policy cx \<Longrightarrow> cx_request_id cx1 = cx_request_id cx \<Longrightarrow>
     segment deps prior cx1 ph r gw gw' = segment deps prior cx ph r gw gw'"
proof -
  assume eq: "cx_policy cx1 = cx_policy cx" "cx_request_id cx1 = cx_request_id cx"
  then have "ends_with s cx1 p r = ends_with s cx p r" for s p
    by (cases p) (simp_all add: chat_response_of_def)
  with eq show ?thesis by (simp add: segment_def)
qed

lemma checked_lifecycle:
  assumes "chat_checked deps cx cr gw = ((r, sp), gw')" and "cache_backed deps (gw_cache gw) prior"
  shows "segment deps prior cx Received r gw gw'"
proof (cases "enforce_model_allowlist (cx_policy cx) (rq_model cr) (bedrock_model_id (dp_settings deps))")
  case (Inl e)
  then have "\<exists>msg. e = PipelineError 403 ''MODEL_NOT_ALLOWED'' msg"
    by (auto simp: enforce_model_allowlist_def split: option.splits if_splits)
  with assms(1) Inl show ?thesis
    by (intro segment_stop) (auto simp: chat_checked_def Let_def error_response_def)
next
  case (Inr m)
  define cx1 where "cx1 = cx\<lparr>cx_span := set_span_attributes [(''model'', JStr m)] (cx_span cx)\<rparr>"
  have cx1: "cx_policy cx1 = cx_policy cx" "cx_request_id cx1 = cx_request_id cx" by (simp_all add: cx1_def)
  let ?txt = "combined_input_text (rq_messages cr)"
  obtain verdict ms w where g: "input_guardrail deps (cx_policy cx) ?txt (gw_world gw) = (verdict, ms, w)"
    by (metis prod_cases3)
  from input_guardrail_spec [OF g] obtain check where
    w: "w_trace w = tr_of gw @ [GuardIn (cx_policy cx) ?txt check]" and ok: "is_ok verdict \<longleftrightarrow> text_passed (cx_policy cx) check"
    and real: "real_in deps (cx_policy cx) ?txt check"
    by (auto simp: real_in_def)
  define gw1 where "gw1 = gw\<lparr>gw_world := w\<rparr>"
  have tr1: "tr_of gw1 = tr_of gw @ [GuardIn (cx_policy cx) ?txt check]" by (simp add: gw1_def w)
  note run = assms(1) Inr g
  show ?thesis
  proof (cases verdict)
    case (Inl e)
    with guardrail_statuses(1) g obtain st c msg where e: "e = PipelineError st c msg" "st \<in> {400, 503}" by blast
    show ?thesis
      by (rule segment_event [OF tr1, where ?ph1.0 = Blocked])
        (use Inl e ok real run in \<open>auto simp: chat_checked_def Let_def gw1_def error_response_def intro!: segment_stop\<close>)
  next
    case verdict: (Inr d)
    have "segment deps prior cx1 (Screened ?txt) r gw1 gw'"
    proof (cases "rq_stream cr")
      case True
      with run verdict have "chat_stream deps cx1 m cr gw1 = ((r, sp), gw')"
        by (simp add: chat_checked_def Let_def gw1_def cx1_def)
      from stream_lifecycle [OF this] Inr cx1 show ?thesis by simp
    next
      case False
      with run verdict have "chat_cached deps cx1 m ?txt ms cr gw1 = ((r, sp), gw')"
        by (simp add: chat_checked_def Let_def gw1_def cx1_def)
      from cached_lifecycle [OF this] Inr cx1 assms(2) show ?thesis by (simp add: gw1_def)
    qed
    then have "segment deps prior cx (Screened ?txt) r gw1 gw'" unfolding segment_cx [OF cx1] .
    then show ?thesis by (rule segment_event [OF tr1, rotated]) (use ok real verdict in simp)
  qed
qed

lemma body_lifecycle:
  assumes "chat_body deps cx b gw = ((r, sp), gw')" and "cache_backed deps (gw_cache gw) prior"
  shows "segment deps prior cx Received r gw gw'"
proof (cases "\<exists>v cr. b = Some v \<and> model_validate (dp_pydantic deps) v = Inr cr")
  case True
  with assms checked_lifecycle show ?thesis by (auto simp: chat_body_def)
next
  case False
  with assms(1) show ?thesis
    by (intro segment_stop) (auto simp: chat_body_def error_response_def split: option.splits sum.splits)
qed

end
