(* ===== verification/Service_Spec.thy ===== *)
theory Service_Spec
  imports Event_Loop Request_Lifecycle "HOL-Library.Multiset"
begin

text \<open>
  What the service promises as a whole, and that it keeps the promise. The abstract service knows the stored
  policies, the admitted chat requests that have not been served (each with its tenant and the snapshot it
  was admitted under), the admitted admin requests and the trace. It admits under the stored policy,
  changes one policy at a time on behalf of an admitted administrator, and serves each admitted request at
  most once, by a run of the automaton of \<open>Request_Lifecycle\<close>. The event loop simulates it.
\<close>

section \<open>The abstract service\<close>

record spec_state =
  sp_policies :: policy_store
  sp_waiting :: "(string \<times> tenant_policy) multiset"
  sp_admins :: "string multiset"
  sp_trace :: "gateway_event list"

definition spec_init :: "policy_store \<Rightarrow> spec_state \<Rightarrow> bool" where
  "spec_init policies s \<longleftrightarrow> s = \<lparr>sp_policies = policies, sp_waiting = {#}, sp_admins = {#}, sp_trace = []\<rparr>"

definition with_state :: "tenant_state \<Rightarrow> tenant_policy \<Rightarrow> tenant_policy" where
  "with_state st p = p\<lparr>state := st, policy_epoch := policy_epoch p + 1\<rparr>"

inductive spec_step :: "'key deps \<Rightarrow> spec_state \<Rightarrow> spec_state \<Rightarrow> bool" for deps where
  admits:
    "sp_policies s t = Some p \<Longrightarrow> state p \<notin> BLOCKING_STATES \<Longrightarrow>
       spec_step deps s (s\<lparr>sp_waiting := add_mset (t, p) (sp_waiting s)\<rparr>)"
| serves:
    "(t, p) \<in># sp_waiting s \<Longrightarrow> run_phases deps (sp_trace s) p Received evs = Some ph \<Longrightarrow>
       spec_step deps s (s\<lparr>sp_waiting := sp_waiting s - {#(t, p)#}, sp_trace := sp_trace s @ evs\<rparr>)"
| admits_admin:
    "spec_step deps s (s\<lparr>sp_admins := add_mset t (sp_admins s)\<rparr>)"
| changes_state:
    "t \<in># sp_admins s \<Longrightarrow> sp_policies s t = Some p \<Longrightarrow>
       spec_step deps s (s\<lparr>sp_policies := (sp_policies s)(t \<mapsto> with_state st p), sp_admins := sp_admins s - {#t#}\<rparr>)"
| changes_nothing:
    "t \<in># sp_admins s \<Longrightarrow> spec_step deps s (s\<lparr>sp_admins := sp_admins s - {#t#}\<rparr>)"

section \<open>The abstraction\<close>

fun waiting_chats :: "pending list \<Rightarrow> (string \<times> tenant_policy) multiset" where
  "waiting_chats [] = {#}"
| "waiting_chats (AwaitChat cx # ps) = add_mset (the_str (id_tenant_id (cx_identity cx)), cx_policy cx) (waiting_chats ps)"
| "waiting_chats (_ # ps) = waiting_chats ps"

fun waiting_admins :: "pending list \<Rightarrow> string multiset" where
  "waiting_admins [] = {#}"
| "waiting_admins (AwaitAdmin rid i tid # ps) = add_mset tid (waiting_admins ps)"
| "waiting_admins (_ # ps) = waiting_admins ps"

definition abs_service :: "'key system \<Rightarrow> spec_state" where
  "abs_service = (\<lambda>(gw, ps). \<lparr>sp_policies = gw_policies gw, sp_waiting = waiting_chats ps, sp_admins = waiting_admins ps,
     sp_trace = tr_of gw\<rparr>)"

lemma waiting_started [simp]:
  "waiting_chats (started r @ ps) = waiting_chats ps" "waiting_admins (started r @ ps) = waiting_admins ps"
  by (cases r; simp)+

lemma waiting_remove_chat:
  "AwaitChat cx \<in> set ps \<Longrightarrow> (the_str (id_tenant_id (cx_identity cx)), cx_policy cx) \<in># waiting_chats ps \<and>
     waiting_chats (remove1 (AwaitChat cx) ps) =
       waiting_chats ps - {#(the_str (id_tenant_id (cx_identity cx)), cx_policy cx)#} \<and>
     waiting_admins (remove1 (AwaitChat cx) ps) = waiting_admins ps"
  by (induction ps rule: waiting_chats.induct) auto

lemma waiting_remove_admin:
  "AwaitAdmin rid i tid \<in> set ps \<Longrightarrow> tid \<in># waiting_admins ps \<and>
     waiting_admins (remove1 (AwaitAdmin rid i tid) ps) = waiting_admins ps - {#tid#} \<and>
     waiting_chats (remove1 (AwaitAdmin rid i tid) ps) = waiting_chats ps"
  by (induction ps rule: waiting_admins.induct) auto

lemma waiting_remove_stream:
  "waiting_chats (remove1 (Streaming job) ps) = waiting_chats ps"
  "waiting_admins (remove1 (Streaming job) ps) = waiting_admins ps"
  by (induction ps rule: waiting_chats.induct) auto

lemma admin_body_policies:
  assumes "admin_body deps rid i tid b gw = (r, gw')"
  shows "gw_policies gw' = gw_policies gw \<or>
    (\<exists>p st. gw_policies gw tid = Some p \<and> gw_policies gw' = (gw_policies gw)(tid \<mapsto> with_state st p))"
  using assms
  by (auto simp: admin_body_def Let_def store_set_state_def store_get_def with_state_def
      split: option.splits sum.splits)

section \<open>The event loop simulates the abstract service\<close>

lemma service_step_sim:
  assumes "sys_ok deps s" "step deps s s'"
  shows "abs_service s' = abs_service s \<or> spec_step deps (abs_service s) (abs_service s')"
  using assms(2, 1)
proof (induction rule: step.induct)
  case (chat_admitted rid req gw cx gw' ps)
  then have "snapshots_agree gw" by (simp add: sys_ok_def)
  from chat_start_state(2) [OF chat_admitted(1) this] chat_start_state(3) [OF chat_admitted(1) this refl]
  obtain t where "id_tenant_id (cx_identity cx) = JStr t" "gw_policies gw t = Some (cx_policy cx)"
    "state (cx_policy cx) \<notin> BLOCKING_STATES" "admit_frame gw gw'" by auto
  then show ?case
    using admits [of "abs_service (gw, ps)" t "cx_policy cx" deps]
    by (simp add: abs_service_def admit_frame_def)
next
  case (chat_rejected rid req gw r gw' ps)
  from chat_start_spec(1) [OF chat_rejected(1)] show ?case by (simp add: abs_service_def admit_frame_def)
next
  case (chat_continues cx ps b gw r sp gw')
  then have "cache_backed deps (gw_cache gw) (tr_of gw)" by (simp add: sys_ok_def good_def)
  from body_lifecycle [OF chat_continues(2) this] obtain evs ph where
    "tr_of gw' = tr_of gw @ evs" "run_phases deps (tr_of gw) (cx_policy cx) Received evs = Some ph"
    unfolding segment_def by blast
  with waiting_remove_chat [OF chat_continues(1)] chat_body_policies(1) [OF chat_continues(2)]
    serves [of "the_str (id_tenant_id (cx_identity cx))" "cx_policy cx" "abs_service (gw, ps)" deps evs ph]
  show ?case by (simp add: abs_service_def)
next
  case (admin_admitted rid req gw i gw' ps tid)
  from admin_start_frame [OF admin_admitted(1)] show ?case
    using admits_admin [of deps "abs_service (gw, ps)" tid] by (simp add: abs_service_def admit_frame_def)
next
  case (admin_rejected rid req gw r gw' ps)
  from admin_start_frame [OF admin_rejected(1)] show ?case by (simp add: abs_service_def admit_frame_def)
next
  case (admin_continues rid i tid ps b gw r gw')
  note rm = waiting_remove_admin [OF admin_continues(1)]
  from admin_body_policies [OF admin_continues(2)] consider "gw_policies gw' = gw_policies gw"
    | p st where "gw_policies gw tid = Some p" "gw_policies gw' = (gw_policies gw)(tid \<mapsto> with_state st p)" by blast
  then show ?case
  proof cases
    case 1
    with rm admin_body_frame(1) [OF admin_continues(2)] changes_nothing [of tid "abs_service (gw, ps)" deps]
    show ?thesis by (simp add: abs_service_def)
  next
    case (2 p st)
    with rm admin_body_frame(1) [OF admin_continues(2)] changes_state [of tid "abs_service (gw, ps)" p deps st]
    show ?thesis by (simp add: abs_service_def)
  qed
next
  case (stream_runs job ps dropped c d gw acts gw')
  from run_stream_frame [OF stream_runs(2)] show ?case by (simp add: abs_service_def waiting_remove_stream)
next
  case (clock_read gw ps)
  then show ?case by (simp add: abs_service_def)
next
  case (line_logged gw ps r)
  then show ?case by (simp add: abs_service_def)
qed

definition service_init :: "policy_store \<Rightarrow> 'key system \<Rightarrow> bool" where
  "service_init policies s \<longleftrightarrow> s = (create_app policies, [])"

interpretation service: simulation "service_init policies" "step deps" "spec_init policies" "spec_step deps"
  abs_service "sys_ok deps" for policies deps
proof unfold_locales
  show "service_init policies c \<Longrightarrow> spec_init policies (abs_service c)" for c :: "'a system"
    by (simp add: service_init_def spec_init_def abs_service_def create_app_def)
  show "service_init policies c \<Longrightarrow> sys_ok deps c" for c by (simp add: service_init_def init_ok)
  show "sys_ok deps c \<Longrightarrow> step deps c c' \<Longrightarrow> sys_ok deps c'" for c c' by (rule step_ok)
  show "sys_ok deps c \<Longrightarrow> step deps c c' \<Longrightarrow> abs_service c' = abs_service c \<or> spec_step deps (abs_service c) (abs_service c')"
    for c c' by (rule service_step_sim)
qed

lemma reachable_reaches: "reachable deps policies s \<longleftrightarrow> reaches (service_init policies) (step deps) s"
proof
  show "reachable deps policies s \<Longrightarrow> reaches (service_init policies) (step deps) s"
    by (induction rule: reachable.induct) (auto simp: service_init_def intro: reaches.intros)
  show "reaches (service_init policies) (step deps) s \<Longrightarrow> reachable deps policies s"
    by (induction rule: reaches.induct) (auto simp: service_init_def intro: reachable.intros)
qed

section \<open>What carries over\<close>

text \<open>
  An abstract invariant: the store holds the initial tenants, a policy differs from its initial version in
  state and epoch only, and a snapshot a request waits with is older than the stored policy or equal to it.
\<close>

definition policy_follows :: "tenant_policy \<Rightarrow> tenant_policy \<Rightarrow> bool" where
  "policy_follows p p' \<longleftrightarrow> policy_epoch p \<le> policy_epoch p' \<and> (policy_epoch p = policy_epoch p' \<longrightarrow> p = p') \<and>
     p' = p\<lparr>state := state p', policy_epoch := policy_epoch p'\<rparr>"

lemma policy_follows_refl [simp]: "policy_follows p p"
  by (simp add: policy_follows_def)

lemma policy_follows_with_state: "policy_follows p p' \<Longrightarrow> policy_follows p (with_state st p')"
  unfolding policy_follows_def with_state_def by (cases p; cases p') auto

lemma policy_follows_sel:
  assumes "policy_follows p q"
  shows "tenant_id q = tenant_id p" "rpm_limit q = rpm_limit p"
    "allow_guardrail_bypass_on_error q = allow_guardrail_bypass_on_error p"
proof -
  from assms obtain st e where "q = p\<lparr>state := st, policy_epoch := e\<rparr>" unfolding policy_follows_def by blast
  then show "tenant_id q = tenant_id p" "rpm_limit q = rpm_limit p"
    "allow_guardrail_bypass_on_error q = allow_guardrail_bypass_on_error p" by simp_all
qed

definition spec_inv :: "policy_store \<Rightarrow> spec_state \<Rightarrow> bool" where
  "spec_inv policies s \<longleftrightarrow>
     dom (sp_policies s) = dom policies \<and>
     (\<forall>t p. sp_policies s t = Some p \<longrightarrow> (\<exists>p0. policies t = Some p0 \<and> policy_follows p0 p)) \<and>
     (\<forall>t p. (t, p) \<in># sp_waiting s \<longrightarrow> (\<exists>q. sp_policies s t = Some q \<and> policy_follows p q))"

lemma spec_inv_step:
  assumes "spec_inv policies s" "spec_step deps s s'"
  shows "spec_inv policies s'"
  using assms(2, 1)
proof (induction rule: spec_step.induct)
  case (admits s t p)
  then show ?case by (auto simp: spec_inv_def)
next
  case (serves t p s evs ph)
  then show ?case by (auto simp: spec_inv_def dest: in_diffD)
next
  case (admits_admin s t)
  then show ?case by (simp add: spec_inv_def)
next
  case (changes_state t s p st)
  from changes_state(2, 3) have d: "insert t (dom policies) = dom policies" by (auto simp: spec_inv_def)
  from changes_state obtain p0 where p0: "policies t = Some p0" "policy_follows p0 (with_state st p)"
    unfolding spec_inv_def by (blast intro: policy_follows_with_state)
  have "policy_follows p' (with_state st p)" if "(t, p') \<in># sp_waiting s" for p'
    using that changes_state(2, 3) unfolding spec_inv_def by (fastforce intro: policy_follows_with_state)
  with changes_state(3) p0 d show ?case unfolding spec_inv_def by simp
next
  case (changes_nothing t s)
  then show ?case by (simp add: spec_inv_def)
qed

lemma spec_inv_init: "spec_init policies s \<Longrightarrow> spec_inv policies s"
  by (simp add: spec_init_def spec_inv_def)

lemma service_spec_inv: "reachable deps policies s \<Longrightarrow> spec_inv policies (abs_service s)"
  unfolding reachable_reaches
  by (rule service.invariant_transfer [of policies "spec_inv policies" deps s])
    (auto intro: spec_inv_init spec_inv_step)

lemma waiting_member:
  "AwaitChat cx \<in> set ps \<Longrightarrow> (the_str (id_tenant_id (cx_identity cx)), cx_policy cx) \<in># waiting_chats ps"
  by (simp add: waiting_remove_chat)

text \<open>Past admission nothing crashes: no exception leaves the handler, unless the cache bound is negative.\<close>

lemma body_no_crash:
  assumes "reachable deps policies (gw, ps)" and "0 \<le> response_cache_max_entries (dp_settings deps)"
  shows "fst (fst (chat_body deps cx b gw)) \<noteq> Unhandled exc"
proof -
  obtain r sp gw' where c: "chat_body deps cx b gw = ((r, sp), gw')" by (metis prod.exhaust)
  from reachable_ok [OF assms(1)] have "cache_backed deps (gw_cache gw) (tr_of gw)" by (simp add: sys_ok_def good_def)
  from body_lifecycle [OF c this] obtain ph where "ends_with (dp_settings deps) cx ph r" unfolding segment_def by blast
  with assms(2) c show ?thesis by (cases ph) (auto simp: ok_json_def)
qed

section \<open>Outages\<close>

text \<open>The input guardrail raises on every call, and no tenant is loaded with the bypass flag.\<close>

definition outage :: "'key deps \<Rightarrow> policy_store \<Rightarrow> bool" where
  "outage deps policies \<longleftrightarrow> (\<forall>n t gp. \<exists>e. dp_check_input deps n t gp = Inl e) \<and>
     (\<forall>t p. policies t = Some p \<longrightarrow> \<not> allow_guardrail_bypass_on_error p)"

lemma outage_run:
  assumes "outage deps policies" "\<not> allow_guardrail_bypass_on_error p" "run_phases deps prior p Received evs = Some ph"
  shows "evs = [] \<and> ph = Received \<or> (\<exists>t c. evs = [GuardIn p t c]) \<and> ph = Blocked"
proof (cases evs)
  case Nil
  with assms(3) show ?thesis by simp
next
  case (Cons ev evs')
  with assms(3) obtain t c where ev: "ev = GuardIn p t c" "real_in deps p t c"
    by (cases ev) (auto split: if_splits)
  with assms(1) obtain e where "c = Inl e" unfolding outage_def real_in_def by metis
  with assms(2) have "\<not> text_passed p c" by (simp add: text_passed_def)
  with assms(3) Cons ev have "run_phases deps prior p Blocked evs' = Some ph" by simp
  then have "evs' = [] \<and> ph = Blocked" by (cases evs') auto
  with Cons ev show ?thesis by blast
qed

definition only_input_checks :: "gateway_event list \<Rightarrow> bool" where
  "only_input_checks tr \<longleftrightarrow> list_all (\<lambda>ev. \<exists>p t c. ev = GuardIn p t c) tr"

lemma spec_waiting_bypass:
  assumes "spec_inv policies s" "outage deps policies" "(t, p) \<in># sp_waiting s"
  shows "\<not> allow_guardrail_bypass_on_error p"
proof -
  from assms(1, 3) obtain q p0 where q: "sp_policies s t = Some q" "policy_follows p q" "policies t = Some p0" "policy_follows p0 q"
    unfolding spec_inv_def by blast
  from policy_follows_sel(3) [OF q(2)] policy_follows_sel(3) [OF q(4)] q(3) assms(2) show ?thesis
    unfolding outage_def by auto
qed

lemma service_outage:
  assumes "reachable deps policies s" "outage deps policies"
  shows "spec_inv policies (abs_service s) \<and> only_input_checks (sp_trace (abs_service s))"
proof -
  let ?I = "\<lambda>a. spec_inv policies a \<and> only_input_checks (sp_trace a)"
  have "?I a'" if "?I a" "spec_step deps a a'" for a a'
  proof -
    from that(2, 1) have "only_input_checks (sp_trace a')"
    proof (induction rule: spec_step.induct)
      case (serves t p s evs ph)
      with spec_waiting_bypass [OF _ assms(2)] outage_run [OF assms(2) _ serves(2)] show ?case
        by (auto simp: only_input_checks_def)
    qed simp_all
    with that spec_inv_step show ?thesis by blast
  qed
  moreover have "?I a" if "spec_init policies a" for a
    using that spec_inv_init [OF that] by (simp add: spec_init_def only_input_checks_def)
  ultimately show ?thesis
    using service.invariant_transfer [of policies ?I deps s] assms(1) unfolding reachable_reaches by blast
qed

lemma outage_answer:
  assumes "reachable deps policies (gw, ps)" "outage deps policies" "AwaitChat cx \<in> set ps"
  shows "\<exists>j. fst (fst (chat_body deps cx b gw)) = Json j \<and> status_code j \<in> {400, 403, 503}"
proof -
  obtain r sp gw' where c: "chat_body deps cx b gw = ((r, sp), gw')" by (metis prod.exhaust)
  from reachable_ok [OF assms(1)] have "cache_backed deps (gw_cache gw) (tr_of gw)" by (simp add: sys_ok_def good_def)
  from body_lifecycle [OF c this] obtain evs ph where run: "run_phases deps (tr_of gw) (cx_policy cx) Received evs = Some ph"
    and r: "ends_with (dp_settings deps) cx ph r" unfolding segment_def by blast
  have "\<not> allow_guardrail_bypass_on_error (cx_policy cx)"
    using spec_waiting_bypass [OF conjunct1 [OF service_outage [OF assms(1, 2)]] assms(2)] waiting_member [OF assms(3)]
    by (simp add: abs_service_def)
  from outage_run [OF assms(2) this run] r have "status_in {400, 403, 503} r" by (cases r) auto
  with c show ?thesis by (cases r) auto
qed

section \<open>Properties\<close>

text \<open>
  C12: the handler implements the request automaton. In every reachable state, whatever the body, what an
  admitted request appends to the trace is a run of the automaton from \<open>Received\<close> (one input check first;
  a model only after it passed, for that text; an output check of the completion before the cache write; the
  answer last), and its response is the one of the phase it stops in.
\<close>

theorem chat_body_lifecycle:
  assumes "reachable deps policies (gw, ps)" and "chat_body deps cx b gw = ((r, sp), gw')"
  shows "\<exists>evs ph. w_trace (gw_world gw') = w_trace (gw_world gw) @ evs \<and>
     run_phases deps (w_trace (gw_world gw)) (cx_policy cx) Received evs = Some ph \<and>
     ends_with (dp_settings deps) cx ph r"
proof -
  from reachable_ok [OF assms(1)] have "cache_backed deps (gw_cache gw) (tr_of gw)" by (simp add: sys_ok_def good_def)
  from body_lifecycle [OF assms(2) this] show ?thesis unfolding segment_def .
qed

lemma chat_body_lifecycle_witness:
  "\<exists>r sp gw' evs ph. chat_body (sample_deps id allow_all) (admitted_ctx ''r1'' sample_caller sample_policy) (Some sample_body)
       (sample_start id allow_all) = ((r, sp), gw') \<and>
     w_trace (gw_world gw') = w_trace (gw_world (sample_start id allow_all)) @ evs \<and>
     run_phases (sample_deps id allow_all) (w_trace (gw_world (sample_start id allow_all)))
       (cx_policy (admitted_ctx ''r1'' sample_caller sample_policy)) Received evs = Some ph \<and>
     ends_with (dp_settings (sample_deps id allow_all)) (admitted_ctx ''r1'' sample_caller sample_policy) ph r"
proof -
  obtain r sp gw' where c: "chat_body (sample_deps id allow_all) (admitted_ctx ''r1'' sample_caller sample_policy)
      (Some sample_body) (sample_start id allow_all) = ((r, sp), gw')" by (metis prod.exhaust)
  from chat_body_lifecycle [OF sample_reachable c] c show ?thesis by blast
qed

text \<open>
  C2: the service refines its specification. Every reachable state of the event loop is, read as stored
  policies, waiting requests and trace, a reachable state of the abstract service.
\<close>

theorem service_refines_spec:
  assumes "reachable deps policies (gw, ps)"
  shows "reaches (spec_init policies) (spec_step deps)
    \<lparr>sp_policies = gw_policies gw, sp_waiting = waiting_chats ps, sp_admins = waiting_admins ps,
     sp_trace = w_trace (gw_world gw)\<rparr>"
  using service.reaches_sim [OF assms [unfolded reachable_reaches]] by (simp add: abs_service_def)

lemma service_refines_spec_witness:
  "\<exists>ps. reaches (spec_init sample_policies) (spec_step (sample_deps id allow_all))
    \<lparr>sp_policies = gw_policies (sample_end id allow_all), sp_waiting = waiting_chats ps, sp_admins = waiting_admins ps,
     sp_trace = w_trace (gw_world (sample_end id allow_all))\<rparr>"
  using sample_reachable_end [of id allow_all] service_refines_spec by blast

text \<open>
  C18: an epoch identifies a policy. However admin changes interleave with a request that waits for its
  body, the snapshot it waits with has an epoch no newer than the stored policy of its tenant, and if the
  epochs are equal the snapshot is the stored policy; the two never differ in more than state and epoch.
\<close>

theorem epoch_identifies_policy:
  assumes "reachable deps policies (gw, ps)" and "List.member ps (AwaitChat cx)"
  shows "\<exists>t q. id_tenant_id (cx_identity cx) = JStr t \<and> gw_policies gw t = Some q \<and>
     policy_epoch (cx_policy cx) \<le> policy_epoch q \<and>
     (policy_epoch (cx_policy cx) = policy_epoch q \<longrightarrow> cx_policy cx = q) \<and>
     q = (cx_policy cx)\<lparr>state := state q, policy_epoch := policy_epoch q\<rparr>"
proof -
  from assms(2) have m: "AwaitChat cx \<in> set ps" by simp
  with reachable_ok [OF assms(1)] have "is_str (id_tenant_id (cx_identity cx))" by (auto simp: sys_ok_def list_all_iff)
  then obtain t where t: "id_tenant_id (cx_identity cx) = JStr t" by (cases "id_tenant_id (cx_identity cx)") auto
  from service_spec_inv [OF assms(1)] waiting_member [OF m] show ?thesis
    unfolding spec_inv_def abs_service_def by (auto simp: t policy_follows_def)
qed

lemma epoch_identifies_policy_witness:
  "\<exists>t q. id_tenant_id (cx_identity (admitted_ctx ''r1'' sample_caller sample_policy)) = JStr t \<and>
     gw_policies (sample_start id allow_all) t = Some q \<and>
     policy_epoch (cx_policy (admitted_ctx ''r1'' sample_caller sample_policy)) \<le> policy_epoch q"
  using epoch_identifies_policy [OF sample_reachable [of id allow_all],
      of "admitted_ctx ''r1'' sample_caller sample_policy"] by auto

text \<open>
  C13: a guardrail outage stops the models. While the input guardrail raises on every call and no tenant was
  loaded with the bypass flag, no run of the service, whatever is interleaved, makes a model call, admits a
  stream, writes the cache or answers from it: the trace holds input checks only, and a waiting request ends
  in 400, 403 or 503.
\<close>

theorem outage_stops_models:
  assumes "reachable deps policies (gw, ps)"
    and "\<And>n t gp. \<exists>e. dp_check_input deps n t gp = Inl e"
    and "\<And>t p. policies t = Some p \<Longrightarrow> \<not> allow_guardrail_bypass_on_error p"
  shows "list_all (\<lambda>ev. \<exists>p t c. ev = GuardIn p t c) (w_trace (gw_world gw)) \<and>
    (List.member ps (AwaitChat cx) \<longrightarrow>
      (\<exists>j. fst (fst (chat_body deps cx b gw)) = Json j \<and> status_code j \<in> {400, 403, 503}))"
proof -
  have out: "outage deps policies" using assms(2, 3) by (auto simp: outage_def)
  from service_outage [OF assms(1) out] outage_answer [OF assms(1) out] show ?thesis
    by (simp add: abs_service_def only_input_checks_def)
qed

lemma outage_stops_models_witness:
  "\<exists>j. fst (fst (chat_body (sample_deps id (\<lambda>_. Inl ''down'')) (admitted_ctx ''r1'' sample_caller sample_policy) (Some sample_body)
     (sample_start id (\<lambda>_. Inl ''down'')))) = Json j \<and> status_code j \<in> {400, 403, 503}"
proof -
  have down: "\<exists>e. dp_check_input (sample_deps id (\<lambda>_. Inl ''down'')) n t gp = Inl e" for n t gp by simp
  have careful: "\<not> allow_guardrail_bypass_on_error p" if "sample_policies t = Some p" for t p
    using that by (auto simp: sample_policy_def split: if_splits)
  from outage_stops_models [where cx = "admitted_ctx ''r1'' sample_caller sample_policy" and b = "Some sample_body",
      OF sample_reachable [of id "\<lambda>_. Inl ''down''"] down careful]
  show ?thesis by simp
qed

end
