(* ===== verification/Service_Quota.thy ===== *)
theory Service_Quota
  imports Service_Spec
begin

text \<open>
  The rate limit of the service as a whole: how many chat requests of a tenant any run can admit, when the
  monotonic clock does not run backwards. The argument is a potential: the requests admitted so far and
  the tokens left never exceed the capacity and what the elapsed time refilled, whatever the tenant's
  state, and with it the limit in force, was at each request.
\<close>

section \<open>The clock is read in order\<close>

abbreviation ticks :: "'key gateway \<Rightarrow> nat" where
  "ticks gw \<equiv> w_ticks (gw_world gw)"

lemma ticks_simps [simp]:
  "w_ticks (snd (tick deps w)) = Suc (w_ticks w)" "w_ticks (emit ev w) = w_ticks w"
  "gw_world (log_to r gw) = gw_world gw" "gw_world (chat_failed cx m st msg ex gw) = gw_world gw"
  by (simp_all add: tick_def emit_def log_to_def chat_failed_def)

lemma ticks_tick: "tick deps w = (now, w') \<Longrightarrow> w_ticks w' = Suc (w_ticks w)"
  using ticks_simps(1) [of deps w] by simp

lemma ticks_capture: "ticks gw \<le> ticks (capture_if_enabled deps cx i t gw)"
  by (auto simp: capture_if_enabled_def tick_def)

lemma ticks_guardrails:
  "w_ticks w \<le> w_ticks (snd (snd (input_guardrail deps p t w)))" "w_ticks w \<le> w_ticks (snd (snd (output_guardrail deps p t w)))"
  by (simp_all add: input_guardrail_def output_guardrail_def tick_def emit_def Let_def)

lemma ticks_router:
  assumes "router_converse cfg sets (bedrock_call deps policy messages mt temp) (tick deps) p n br w = (out, br', w')"
  shows "w_ticks w \<le> w_ticks w'"
proof -
  have "w_ticks w \<le> w_ticks (snd (snd (router_converse cfg sets (bedrock_call deps policy messages mt temp) (tick deps) p n br w)))"
    by (rule router_converse_keeps) (auto simp: bedrock_call_def tick_def emit_def Let_def split: prod.split)
  with assms show ?thesis by simp
qed

lemma ticks_hit: "chat_hit deps cx q txt ms v gw = (r, gw') \<Longrightarrow> ticks gw \<le> ticks gw'"
  using ticks_capture [of gw deps cx "txt" "cr_text v"] by (auto simp: chat_hit_def Let_def)

lemma ticks_finish:
  assumes "chat_finish deps cx q txt ms routed gw = (r, gw')"
  shows "ticks gw \<le> ticks gw'"
proof -
  let ?x = "res_text (rt_result routed)"
  obtain verdict oms w where g: "output_guardrail deps (cx_policy cx) ?x (gw_world gw) = (verdict, oms, w)"
    by (metis prod_cases3)
  with ticks_guardrails(2) [of "gw_world gw" deps "cx_policy cx" ?x] have w: "ticks gw \<le> w_ticks w" by simp
  obtain now w2 where tk: "tick deps w = (now, w2)" by (cases "tick deps w")
  have cap: "w_ticks w \<le> ticks (capture_if_enabled deps cx txt ?x g)" if "ticks g = w_ticks w2" for g
    using that ticks_tick [OF tk] ticks_capture [of g deps cx "txt" ?x] by simp
  show ?thesis
    using assms g tk w ticks_tick [OF tk]
    by (auto simp: chat_finish_def Let_def split: sum.splits stage_error.splits prod.splits intro!: le_trans [OF w cap])
qed

lemma ticks_miss:
  assumes "chat_miss deps cx q txt ms cr gw = (r, gw')"
  shows "ticks gw \<le> ticks gw'"
proof -
  obtain start w0 where tk0: "tick deps (gw_world gw) = (start, w0)" by (cases "tick deps (gw_world gw)")
  obtain out br w where rt: "router_converse (breaker_cfg (dp_settings deps)) (dp_route_sets deps)
      (bedrock_call deps (cx_policy cx) (bedrock_messages (rq_messages cr)) (rq_max_tokens cr) (rq_temperature cr)) (tick deps)
      (cq_model q) (route_set (cx_policy cx)) (gw_breakers gw) w0 = (out, br, w)" by (metis prod_cases3)
  obtain now w1 where tk1: "tick deps w = (now, w1)" by (cases "tick deps w")
  from ticks_router [OF rt] ticks_tick [OF tk0] have w: "ticks gw \<le> w_ticks w" by simp
  have "ticks (gw\<lparr>gw_breakers := br, gw_world := w\<rparr>) \<le> ticks gw'" if "out = Inr rr" for rr
    using assms tk0 rt that by (auto simp: chat_miss_def Let_def dest: ticks_finish)
  then show ?thesis
    using assms tk0 rt tk1 w ticks_tick [OF tk1]
    by (auto simp: chat_miss_def Let_def split: sum.splits route_error.splits prod.splits)
qed

lemma ticks_cached:
  assumes "chat_cached deps cx m txt ms cr gw = (r, gw')"
  shows "ticks gw \<le> ticks gw'"
proof -
  obtain now w where tk: "tick deps (gw_world gw) = (now, w)" by (cases "tick deps (gw_world gw)")
  show ?thesis
    using assms tk ticks_tick [OF tk]
    by (auto simp: chat_cached_def Let_def split: prod.splits option.splits dest: ticks_hit ticks_miss)
qed

lemma ticks_stream: "chat_stream deps cx m cr gw = (r, gw') \<Longrightarrow> ticks gw \<le> ticks gw'"
  by (auto simp: chat_stream_def Let_def split: prod.splits if_splits dest: ticks_tick)

lemma ticks_checked:
  assumes "chat_checked deps cx cr gw = (r, gw')"
  shows "ticks gw \<le> ticks gw'"
proof -
  let ?txt = "combined_input_text (rq_messages cr)"
  obtain verdict ms w where g: "input_guardrail deps (cx_policy cx) ?txt (gw_world gw) = (verdict, ms, w)"
    by (metis prod_cases3)
  with ticks_guardrails(1) [of "gw_world gw" deps "cx_policy cx" ?txt] have w: "ticks gw \<le> w_ticks w" by simp
  show ?thesis
    using assms g w
    by (auto simp: chat_checked_def Let_def split: sum.splits stage_error.splits if_splits dest!: ticks_stream ticks_cached)
qed

lemma ticks_body: "chat_body deps cx b gw = (r, gw') \<Longrightarrow> ticks gw \<le> ticks gw'"
  by (auto simp: chat_body_def split: option.splits sum.splits dest: ticks_checked)

lemma ticks_authenticate:
  assumes "authenticate (app_verify deps) (v, w) r h arn acc = (out, v', w')"
  shows "w_ticks w \<le> w_ticks w'"
proof -
  have "w_ticks w \<le> w_ticks (snd (snd (app_verify deps (v, w) tok)))" for tok
    by (auto simp: app_verify_def tick_def Let_def split: prod.split sum.split)
  with authenticate_state [of "app_verify deps" "(v, w)" r h arn acc] assms show ?thesis by (metis order_refl snd_conv)
qed

section \<open>What a step does to the buckets\<close>

text \<open>One quota decision of an admission: a stored policy, a clock reading inside the step, the limiter's answer.\<close>

definition quota_decided :: "'key deps \<Rightarrow> 'key gateway \<Rightarrow> 'key gateway \<Rightarrow> tenant_policy \<Rightarrow> bool \<Rightarrow> bool" where
  "quota_decided deps gw gw' policy ok \<longleftrightarrow>
     (\<exists>tid k. gw_policies gw tid = Some policy \<and> ticks gw \<le> k \<and> k < ticks gw' \<and>
        rl_allow (gw_limiter gw) (tenant_id policy) (effective_limit policy) (dp_clock deps k) = (ok, gw_limiter gw'))"

lemma chat_admit_quota:
  assumes "chat_admit deps req gw = (r, gw')" and "snapshots_agree gw"
  shows "ticks gw \<le> ticks gw' \<and>
    (case r of
       Inr (i, policy) \<Rightarrow> quota_decided deps gw gw' policy True
     | Inl e \<Rightarrow> gw_limiter gw' = gw_limiter gw \<or> (\<exists>policy. quota_decided deps gw gw' policy False))"
proof -
  obtain auth v w where a: "authenticate (app_verify deps) (gw_verifier gw, gw_world gw) (Some (dp_iam deps))
      (hr_authorization req) (hr_principal_arn req) (hr_account_id req) = (auth, v, w)" by (metis prod_cases3)
  from ticks_authenticate [OF a] have w: "ticks gw \<le> w_ticks w" .
  obtain t1 w1 where t1: "tick deps w = (t1, w1)" by (cases "tick deps w")
  obtain t2 w2 where t2: "tick deps w1 = (t2, w2)" by (cases "tick deps w1")
  obtain t3 w3 where t3: "tick deps w2 = (t3, w3)" by (cases "tick deps w2")
  note tk = ticks_tick [OF t1] ticks_tick [OF t2] ticks_tick [OF t3]
  have now: "t3 = dp_clock deps (w_ticks w2)" using t3 by (simp add: tick_def)
  have agree: "\<And>t s. gw_snapshots gw t = Some s \<Longrightarrow> gw_policies gw t = Some (snap_policy s)"
    using assms(2) by (simp add: snapshots_agree_def)
  show ?thesis
  proof (cases "\<exists>i. auth = Inr i \<and> authorize i (chat_required_role (dp_settings deps)) = Inr ()")
    case False
    with assms a w show ?thesis by (auto simp: chat_admit_def Let_def split: sum.splits)
  next
    case True
    then obtain i where i: "auth = Inr i" "authorize i (chat_required_role (dp_settings deps)) = Inr ()" by blast
    obtain res sn where g: "resolve_policy (dp_float_repr deps) (policy_cache_ttl_s (dp_settings deps))
        (store_get (gw_policies gw)) (gw_snapshots gw) i t1 t2 = (res, sn)" by fastforce
    have stored: "\<exists>tid. id_tenant_id i = JStr tid \<and> gw_policies gw tid = Some p" if "res = Inr p" for p
      by (rule resolve_policy_agrees(2) [OF g _ that]) (rule agree)
    show ?thesis
    proof (cases "\<exists>policy. res = Inr policy \<and> enforce_kill_switch policy = Inr ()")
      case False
      with assms(1) a t1 t2 g i w tk show ?thesis
        by (auto simp: chat_admit_def Let_def split: sum.splits)
    next
      case True
      then obtain policy where p: "res = Inr policy" "enforce_kill_switch policy = Inr ()" by blast
      from stored [OF p(1)] obtain tid where tid: "gw_policies gw tid = Some policy" by blast
      obtain ok bs where rl: "rl_allow (gw_limiter gw) (tenant_id policy) (effective_limit policy) t3 = (ok, bs)"
        by (cases "rl_allow (gw_limiter gw) (tenant_id policy) (effective_limit policy) t3")
      have out: "gw_limiter gw' = bs \<and> ticks gw' = w_ticks w3 \<and> (if ok then r = Inr (i, policy) else \<exists>e. r = Inl e)"
        using assms(1) a t1 t2 t3 g i p rl
        by (auto simp: chat_admit_def enforce_rate_limit_def Let_def)
      with rl tid tk w now have "quota_decided deps gw gw' policy ok"
        unfolding quota_decided_def by (intro exI [of _ tid] exI [of _ "w_ticks w2"]) simp
      with out tk w show ?thesis by (cases ok) auto
    qed
  qed
qed

lemma chat_start_quota:
  assumes "chat_start deps rid req gw = (r, gw')" and "snapshots_agree gw"
  shows "ticks gw \<le> ticks gw' \<and>
    (case r of
       Inr cx \<Rightarrow> quota_decided deps gw gw' (cx_policy cx) True
     | Inl e \<Rightarrow> gw_limiter gw' = gw_limiter gw \<or> (\<exists>policy. quota_decided deps gw gw' policy False))"
proof -
  obtain out gw1 where a: "chat_admit deps req gw = (out, gw1)" by (cases "chat_admit deps req gw")
  from chat_admit_quota [OF a assms(2)] a assms(1) show ?thesis
    by (auto simp: chat_start_def admitted_ctx_def split: sum.splits prod.splits)
qed

text \<open>Every other step leaves the buckets alone and does not turn the clock back.\<close>

lemma limiter_hit: "chat_hit deps cx q txt ms v gw = (r, gw') \<Longrightarrow> gw_limiter gw' = gw_limiter gw"
  by (auto simp: chat_hit_def capture_if_enabled_def log_to_def Let_def split: prod.splits if_splits)

lemma limiter_finish: "chat_finish deps cx q txt ms rr gw = (r, gw') \<Longrightarrow> gw_limiter gw' = gw_limiter gw"
  by (auto simp: chat_finish_def capture_if_enabled_def log_to_def chat_failed_def Let_def
      split: prod.splits if_splits sum.splits stage_error.splits)

lemma limiter_miss: "chat_miss deps cx q txt ms cr gw = (r, gw') \<Longrightarrow> gw_limiter gw' = gw_limiter gw"
  by (auto simp: chat_miss_def log_to_def chat_failed_def Let_def
      split: prod.splits sum.splits route_error.splits dest: limiter_finish)

lemma limiter_cached: "chat_cached deps cx m txt ms cr gw = (r, gw') \<Longrightarrow> gw_limiter gw' = gw_limiter gw"
  by (auto simp: chat_cached_def Let_def split: prod.splits option.splits dest: limiter_hit limiter_miss)

lemma limiter_body: "chat_body deps cx b gw = (r, gw') \<Longrightarrow> gw_limiter gw' = gw_limiter gw"
  by (auto simp: chat_body_def chat_checked_def chat_stream_def chat_failed_def log_to_def Let_def
      split: option.splits sum.splits prod.splits if_splits stage_error.splits dest: limiter_cached)

lemma admin_quota:
  "admin_start deps rid req gw = (out, gw') \<Longrightarrow> gw_limiter gw' = gw_limiter gw \<and> ticks gw \<le> ticks gw'"
  "admin_body deps rid i tid b gw = (r, gw') \<Longrightarrow> gw_limiter gw' = gw_limiter gw \<and> ticks gw \<le> ticks gw'"
  by (auto simp: admin_start_def Let_def split: prod.splits sum.splits dest: ticks_authenticate)
    (auto simp: admin_body_def log_to_def Let_def split: option.splits sum.splits)

lemma run_stream_quota:
  "run_stream deps job dropped c d gw = (acts, gw') \<Longrightarrow> gw_limiter gw' = gw_limiter gw \<and> ticks gw \<le> ticks gw'"
  by (auto simp: run_stream_def tick_def Let_def split: prod.splits)

section \<open>Counting admissions\<close>

definition admissions :: "string \<Rightarrow> 'key system \<Rightarrow> 'key system \<Rightarrow> nat" where
  "admissions t s s' =
     (case snd s' of
        AwaitChat cx # ps \<Rightarrow> if ps = snd s \<and> tenant_id (cx_policy cx) = t then 1 else 0
      | _ \<Rightarrow> 0)"

text \<open>The reachable states, with the number of admitted chat requests of a tenant on the way there.\<close>

inductive counted_run :: "'key deps \<Rightarrow> policy_store \<Rightarrow> string \<Rightarrow> 'key system \<Rightarrow> nat \<Rightarrow> bool" for deps policies t where
  counted_init: "counted_run deps policies t (create_app policies, []) 0"
| counted_step: "counted_run deps policies t s n \<Longrightarrow> step deps s s' \<Longrightarrow> counted_run deps policies t s' (n + admissions t s s')"

lemma counted_reachable: "counted_run deps policies t s n \<Longrightarrow> reachable deps policies s"
  by (induction rule: counted_run.induct) (auto intro: reachable.intros)

lemma reachable_counted: "reachable deps policies s \<Longrightarrow> \<exists>n. counted_run deps policies t s n"
  by (induction rule: reachable.induct) (auto intro: counted_run.intros)

section \<open>The potential\<close>

definition within_quota :: "'key deps \<Rightarrow> string \<Rightarrow> int \<Rightarrow> 'key gateway \<Rightarrow> nat \<Rightarrow> bool" where
  "within_quota deps t rpm gw n \<longleftrightarrow>
     (case gw_limiter gw t of
        None \<Rightarrow> n = 0
      | Some b \<Rightarrow> 0 \<le> tokens b \<and> (\<exists>k. k \<le> ticks gw \<and> last_refill b = dp_clock deps k) \<and>
          of_nat n + tokens b \<le> of_int rpm + (last_refill b - dp_clock deps 0) * of_int rpm / 60)"

lemma effective_limit_le: "1 \<le> rpm \<Longrightarrow> rpm_limit p \<le> rpm \<Longrightarrow> effective_limit p \<le> rpm"
  by (auto simp: effective_limit_def THROTTLE_FACTOR_def)

text \<open>The limiter's answer for the tenant itself, under any limit up to \<open>rpm\<close>.\<close>

lemma rl_allow_potential:
  assumes "rl_allow bs t l now = (ok, bs')" "l \<le> rpm" "1 \<le> rpm"
    and "case bs t of None \<Rightarrow> n = 0 \<and> start \<le> now
         | Some b \<Rightarrow> 0 \<le> tokens b \<and> last_refill b \<le> now \<and> of_nat n + tokens b \<le> of_int rpm + (last_refill b - start) * of_int rpm / 60"
  shows "\<exists>b'. bs' t = Some b' \<and> last_refill b' = now \<and> 0 \<le> tokens b' \<and>
    of_nat (n + (if ok then 1 else 0)) + tokens b' \<le> of_int rpm + (now - start) * of_int rpm / 60"
proof -
  define b where "b = (case bs t of None \<Rightarrow> \<lparr>tokens = capacity l, last_refill = now\<rparr> | Some b \<Rightarrow> b)"
  have cap: "0 \<le> capacity l" "capacity l \<le> of_int rpm" using assms(2, 3) by (simp_all add: capacity_def)
  have b: "0 \<le> tokens b" "last_refill b \<le> now"
    using assms(4) cap by (auto simp: b_def split: option.splits)
  have start: "of_nat n + tokens b \<le> of_int rpm + (last_refill b - start) * of_int rpm / 60"
  proof (cases "bs t")
    case None
    with assms(3, 4) have "0 \<le> (now - start) * of_int rpm / 60" by simp
    with None assms(4) cap show ?thesis by (simp add: b_def)
  next
    case (Some b0)
    with assms(4) show ?thesis by (simp add: b_def)
  qed
  have "(now - last_refill b) * (capacity l / 60) \<le> (now - last_refill b) * (of_int rpm / 60)"
    using b(2) cap by (intro mult_left_mono) auto
  with b have ref: "tokens (refill (capacity l) now b) \<le> tokens b + (now - last_refill b) * of_int rpm / 60"
    "0 \<le> tokens (refill (capacity l) now b)" "last_refill (refill (capacity l) now b) = now"
    using cap(1) by (auto simp: refill_def Let_def)
  have "of_nat n + tokens (refill (capacity l) now b) \<le> of_int rpm + (now - start) * of_int rpm / 60"
  proof -
    have "(last_refill b - start) * of_int rpm / 60 + (now - last_refill b) * of_int rpm / 60 = (now - start) * of_int rpm / 60"
      by (simp add: add_divide_distrib [symmetric] distrib_right [symmetric])
    with start ref(1) show ?thesis by linarith
  qed
  with assms(1) ref show ?thesis by (auto simp: rl_allow_def Let_def b_def [symmetric] split: if_splits)
qed

lemma within_quota_other:
  assumes "within_quota deps t rpm gw n" "gw_limiter gw' t = gw_limiter gw t" "ticks gw \<le> ticks gw'"
  shows "within_quota deps t rpm gw' n"
  using assms unfolding within_quota_def by (auto split: option.splits intro: le_trans)

lemma within_quota_decided:
  assumes "within_quota deps t rpm gw n" "quota_decided deps gw gw' policy ok" "ticks gw \<le> ticks gw'"
    and "tenant_id policy = t \<Longrightarrow> rpm_limit policy \<le> rpm" "1 \<le> rpm" "mono (dp_clock deps)"
  shows "within_quota deps t rpm gw' (n + (if ok \<and> tenant_id policy = t then 1 else 0))"
proof -
  from assms(2) obtain k where k: "ticks gw \<le> k" "k < ticks gw'"
    and rl: "rl_allow (gw_limiter gw) (tenant_id policy) (effective_limit policy) (dp_clock deps k) = (ok, gw_limiter gw')"
    unfolding quota_decided_def by blast
  show ?thesis
  proof (cases "tenant_id policy = t")
    case True
    have l: "effective_limit policy \<le> rpm" using assms(4, 5) True by (simp add: effective_limit_le)
    have "case gw_limiter gw t of None \<Rightarrow> n = 0 \<and> dp_clock deps 0 \<le> dp_clock deps k
      | Some b \<Rightarrow> 0 \<le> tokens b \<and> last_refill b \<le> dp_clock deps k \<and>
          of_nat n + tokens b \<le> of_int rpm + (last_refill b - dp_clock deps 0) * of_int rpm / 60"
      using assms(1) k(1) monoD [OF assms(6)] unfolding within_quota_def
      by (auto split: option.splits dest: le_trans)
    from rl_allow_potential [OF rl [unfolded True] l assms(5) this] k(2) True show ?thesis
      unfolding within_quota_def by (auto split: option.splits intro: less_imp_le)
  next
    case False
    with rl_allow_other [of t "tenant_id policy" "gw_limiter gw" "effective_limit policy" "dp_clock deps k"] rl
    have "gw_limiter gw' t = gw_limiter gw t" by simp
    with within_quota_other [OF assms(1) _ assms(3)] False show ?thesis by simp
  qed
qed

text \<open>The policies of a reachable state keep the tenant and the limit they were loaded with.\<close>

lemma reachable_limit:
  assumes "reachable deps policies (gw, ps)" "gw_policies gw tid = Some p"
  shows "\<exists>p0. policies tid = Some p0 \<and> tenant_id p = tenant_id p0 \<and> rpm_limit p = rpm_limit p0"
proof -
  from service_spec_inv [OF assms(1)] assms(2) obtain p0 where p0: "policies tid = Some p0" "policy_follows p0 p"
    unfolding spec_inv_def abs_service_def by (simp, blast)
  with policy_follows_sel show ?thesis by blast
qed

lemma within_quota_run:
  assumes "counted_run deps policies t s n" "mono (dp_clock deps)" "1 \<le> rpm"
    and "\<And>tid p. policies tid = Some p \<Longrightarrow> tenant_id p = t \<Longrightarrow> rpm_limit p \<le> rpm"
  shows "within_quota deps t rpm (fst s) n"
  using assms(1)
proof (induction rule: counted_run.induct)
  case counted_init
  then show ?case by (simp add: within_quota_def create_app_def)
next
  case (counted_step s n s')
  note r = counted_reachable [OF counted_step(1)]
  have limit: "rpm_limit p \<le> rpm" if "gw_policies (fst s) tid = Some p" "tenant_id p = t" for tid p
    using reachable_limit [of deps policies "fst s" "snd s" tid p] r that assms(4) by auto
  have agree: "snapshots_agree (fst s)" using reachable_ok [OF r] by (simp add: sys_ok_def split_beta)
  have decided: "within_quota deps t rpm gw' (n + (if ok \<and> tenant_id p = t then 1 else 0))"
    if "quota_decided deps (fst s) gw' p ok" "ticks (fst s) \<le> ticks gw'" for gw' p ok
    using within_quota_decided [OF counted_step(3) that _ assms(3, 2)] that(1) limit unfolding quota_decided_def by blast
  have other: "within_quota deps t rpm gw' n" if "gw_limiter gw' = gw_limiter (fst s)" "ticks (fst s) \<le> ticks gw'" for gw'
    using within_quota_other [OF counted_step(3)] that by simp
  have quiet: "admissions t s s' = 0" if "\<And>cx. snd s' \<noteq> AwaitChat cx # snd s"
    using that by (auto simp: admissions_def split: list.split pending.split)
  from counted_step(2) show ?case
  proof (cases rule: step.cases)
    case (chat_admitted rid req gw cx gw' ps)
    with chat_start_quota [OF chat_admitted(3)] agree have "quota_decided deps (fst s) gw' (cx_policy cx) True" "ticks (fst s) \<le> ticks gw'"
      by auto
    from decided [OF this] chat_admitted show ?thesis by (simp add: admissions_def)
  next
    case (chat_rejected rid req gw r gw' ps)
    with chat_start_quota [OF chat_rejected(3)] agree have t: "ticks (fst s) \<le> ticks gw'"
      and "gw_limiter gw' = gw_limiter (fst s) \<or> (\<exists>p. quota_decided deps (fst s) gw' p False)" by auto
    then have "within_quota deps t rpm gw' n" using other decided [OF _ t] by fastforce
    with chat_rejected quiet show ?thesis by simp
  next
    case (chat_continues cx ps b gw r sp gw')
    have "snd s' \<noteq> AwaitChat cx' # snd s" for cx'
    proof
      assume "snd s' = AwaitChat cx' # snd s"
      with chat_continues have "started r @ remove1 (AwaitChat cx) ps = AwaitChat cx' # ps" by simp
      moreover have "length (remove1 (AwaitChat cx) ps) < length (AwaitChat cx' # ps)"
        by (simp add: length_remove1 less_Suc_eq_le)
      ultimately show False by (cases r) auto
    qed
    with quiet chat_continues other [of gw'] limiter_body ticks_body show ?thesis by fastforce
  next
    case (admin_admitted rid req gw i gw' ps tid)
    with quiet other [of gw'] admin_quota(1) show ?thesis by fastforce
  next
    case (admin_rejected rid req gw r gw' ps)
    with quiet other [of gw'] admin_quota(1) show ?thesis by fastforce
  next
    case (admin_continues rid i tid ps b gw r gw')
    then have "length (snd s') \<le> length (snd s)" by (simp add: length_remove1)
    then have "snd s' \<noteq> AwaitChat cx' # snd s" for cx' by auto
    with quiet admin_continues other [of gw'] admin_quota(2) show ?thesis by fastforce
  next
    case (stream_runs job ps dropped c d gw acts gw')
    then have "length (snd s') \<le> length (snd s)" by (simp add: length_remove1)
    then have "snd s' \<noteq> AwaitChat cx' # snd s" for cx' by auto
    with quiet stream_runs other [of gw'] run_stream_quota show ?thesis by fastforce
  next
    case (clock_read gw ps)
    with quiet other [of "fst s'"] show ?thesis by simp
  next
    case (line_logged gw ps r)
    with quiet other [of "fst s'"] show ?thesis by (simp add: log_to_def)
  qed
qed

section \<open>Properties\<close>

text \<open>
  C9: the service's quota. Over any run of the event loop, with any interleaving of any tenants' requests,
  admin changes and streams, the chat requests admitted for a tenant are at most its limit plus what the time
  since the start refills; throttling and unthrottling the tenant in between never gains it a request.
\<close>

theorem service_admission_bound:
  assumes "counted_run deps policies t (gw, ps) n" and "mono (dp_clock deps)" and "1 \<le> rpm"
    and "\<And>tid p. policies tid = Some p \<Longrightarrow> tenant_id p = t \<Longrightarrow> rpm_limit p \<le> rpm"
  shows "of_nat n \<le> of_int rpm + (dp_clock deps (w_ticks (gw_world gw)) - dp_clock deps 0) * of_int rpm / 60"
proof -
  have q: "within_quota deps t rpm gw n" using within_quota_run [OF assms] by simp
  have later: "(dp_clock deps k - dp_clock deps 0) * of_int rpm / 60 \<le>
      (dp_clock deps (ticks gw) - dp_clock deps 0) * of_int rpm / 60" if "k \<le> ticks gw" for k
    using monoD [OF assms(2) that] assms(3) by (intro divide_right_mono mult_right_mono) simp_all
  show ?thesis
  proof (cases "gw_limiter gw t")
    case None
    have "0 \<le> (dp_clock deps (ticks gw) - dp_clock deps 0) * of_int rpm / 60" using later [of 0] by simp
    with q None assms(3) show ?thesis by (simp add: within_quota_def)
  next
    case (Some b)
    with q obtain k where "k \<le> ticks gw" "0 \<le> tokens b"
      "of_nat n + tokens b \<le> of_int rpm + (dp_clock deps k - dp_clock deps 0) * of_int rpm / 60"
      by (auto simp: within_quota_def)
    with later [of k] show ?thesis by linarith
  qed
qed

lemma service_admission_bound_witness:
  "\<exists>n. counted_run (sample_deps id allow_all) sample_policies ''acme''
       (sample_start id allow_all, [AwaitChat (admitted_ctx ''r1'' sample_caller sample_policy)]) n \<and>
     of_nat n \<le> (of_int (rpm_limit sample_policy) :: py_float)"
proof -
  obtain n where n: "counted_run (sample_deps id allow_all) sample_policies ''acme''
      (sample_start id allow_all, [AwaitChat (admitted_ctx ''r1'' sample_caller sample_policy)]) n"
    using reachable_counted [OF sample_reachable] by blast
  have "of_nat n \<le> of_int (rpm_limit sample_policy) +
      (dp_clock (sample_deps id allow_all) (w_ticks (gw_world (sample_start id allow_all))) - dp_clock (sample_deps id allow_all) 0) *
        of_int (rpm_limit sample_policy) / (60 :: py_float)"
    by (rule service_admission_bound [OF n]) (auto simp: mono_def sample_policy_def split: if_splits)
  with n show ?thesis by auto
qed

end
