(* ===== verification/Failing_Model.thy ===== *)
theory Failing_Model
  imports Service_Quota
begin

text \<open>
  A model that is down: how often the running service still calls it. The argument is a potential over the
  model's breaker. While closed it counts every failed call; once it has tripped, each further call needs a
  trial, and a trial needs a whole reset timeout since the breaker last opened. Streams of the model
  interleave with the calls and can only move that moment forward.
\<close>

section \<open>The breaker's budget\<close>

text \<open>Every SDK call of the model raises, and every stream of it ends in an exception.\<close>

definition model_down :: "sdk \<Rightarrow> string \<Rightarrow> bool" where
  "model_down lib m \<longleftrightarrow>
     (\<forall>n msgs ic. \<not> is_ok (sdk_converse lib n m msgs ic) \<and>
        (case sdk_stream lib n m msgs ic of Inl e \<Rightarrow> True | Inr (es, ended) \<Rightarrow> ended \<noteq> None))"

text \<open>The calls \<open>n\<close> a breaker has let through since \<open>start\<close>, at the time \<open>now\<close>.\<close>

definition budget :: "breaker_config \<Rightarrow> py_float \<Rightarrow> py_float \<Rightarrow> model_breaker \<Rightarrow> nat \<Rightarrow> bool" where
  "budget cfg start now b n \<longleftrightarrow> start \<le> now \<and>
     (case br_state b of
        CLOSED \<Rightarrow> int n \<le> consecutive_failures b \<and> consecutive_failures b < failure_threshold cfg
      | OPEN \<Rightarrow> opened_at b \<le> now \<and> (of_nat n - of_int (failure_threshold cfg)) * reset_timeout_s cfg \<le> opened_at b - start
      | HALF_OPEN \<Rightarrow> (of_nat n + 1 - of_int (failure_threshold cfg)) * reset_timeout_s cfg \<le> now - start)"

lemma budget_later: "budget cfg start now b n \<Longrightarrow> now \<le> now' \<Longrightarrow> budget cfg start now' b n"
  by (auto simp: budget_def split: breaker_state.splits)

lemma budget_allow:
  assumes "cb_allow cfg br m' now = (ok, br')" "budget cfg start now (cb_slot br m) n"
  shows "budget cfg start now (cb_slot br' m) n" and "ok \<Longrightarrow> m' = m \<Longrightarrow> br_state (cb_slot br' m) \<noteq> OPEN"
proof -
  have eq: "(of_nat n + 1 - of_int t) * r = (of_nat n - of_int t) * r + r" for t :: int and r :: py_float
    by (simp add: algebra_simps)
  have "budget cfg start now (cb_slot br' m) n \<and> (ok \<longrightarrow> m' = m \<longrightarrow> br_state (cb_slot br' m) \<noteq> OPEN)"
  proof (cases "m' = m")
    case True
    with assms show ?thesis
      by (auto simp: cb_allow_def cb_slot_def budget_def eq Let_def split: if_splits breaker_state.splits)
  next
    case False
    with cb_other(1) [of m' m cfg br now] assms show ?thesis by simp
  qed
  then show "budget cfg start now (cb_slot br' m) n" "ok \<Longrightarrow> m' = m \<Longrightarrow> br_state (cb_slot br' m) \<noteq> OPEN" by blast+
qed

lemma small_budget:
  assumes "int n \<le> thr" "0 \<le> (r :: py_float)" "start \<le> now"
  shows "(of_nat n - of_int thr) * r \<le> now - start"
proof -
  have "(of_nat n :: py_float) \<le> of_int thr" using assms(1) by (metis of_int_le_iff of_int_of_nat_eq)
  then have "(of_nat n - of_int thr) * r \<le> 0" using assms(2) by (simp add: mult_nonpos_nonneg)
  with assms(3) show ?thesis by linarith
qed

text \<open>A failed call of the model, which the breaker let through, and a failed stream, which may come at any time.\<close>

lemma budget_call:
  assumes "budget cfg start now (cb_slot br m) n" "br_state (cb_slot br m) \<noteq> OPEN" "0 \<le> reset_timeout_s cfg"
  shows "budget cfg start now (cb_slot (cb_record_failure cfg br m now) m) (Suc n)"
proof (cases "br_state (cb_slot br m)")
  case CLOSED
  with assms small_budget [of "Suc n" "failure_threshold cfg" "reset_timeout_s cfg" start now] show ?thesis
    by (auto simp: budget_def cb_record_failure_def cb_slot_def Let_def split: option.splits)
next
  case HALF_OPEN
  with assms show ?thesis
    by (auto simp: budget_def cb_record_failure_def cb_slot_def Let_def ac_simps split: option.splits)
qed (use assms in simp)

lemma budget_failed:
  assumes "budget cfg start now (cb_slot br m) n" "0 \<le> reset_timeout_s cfg"
  shows "budget cfg start now (cb_slot (cb_record_failure cfg br m now) m) n"
proof (cases "br_state (cb_slot br m)")
  case CLOSED
  with assms small_budget [of n "failure_threshold cfg" "reset_timeout_s cfg" start now] show ?thesis
    by (auto simp: budget_def cb_record_failure_def cb_slot_def Let_def split: option.splits)
next
  case OPEN
  with assms show ?thesis
    by (auto simp: budget_def cb_record_failure_def cb_slot_def Let_def split: option.splits)
next
  case HALF_OPEN
  have "(of_nat n - of_int (failure_threshold cfg)) * reset_timeout_s cfg \<le>
      (of_nat n + 1 - of_int (failure_threshold cfg)) * reset_timeout_s cfg"
    using assms(2) by (intro mult_right_mono) simp_all
  with HALF_OPEN assms show ?thesis
    by (auto simp: budget_def cb_record_failure_def cb_slot_def Let_def split: option.splits)
qed

section \<open>The router within the budget\<close>

definition calls_of :: "string \<Rightarrow> world \<Rightarrow> nat" where
  "calls_of m w = count_list (model_calls w) m"

definition in_budget :: "'key deps \<Rightarrow> string \<Rightarrow> breakers \<Rightarrow> world \<Rightarrow> bool" where
  "in_budget deps m br w \<longleftrightarrow>
     budget (breaker_cfg (dp_settings deps)) (dp_clock deps 0) (dp_clock deps (w_ticks w)) (cb_slot br m) (calls_of m w)"

lemma calls_of_simps [simp]:
  "calls_of m (snd (tick deps w)) = calls_of m w"
  "calls_of m (emit ev w) = calls_of m w + count_list (called_model ev) m"
  "calls_of m (w\<lparr>w_guard_calls := k\<rparr>) = calls_of m w" "calls_of m (w\<lparr>w_sdk_calls := k\<rparr>) = calls_of m w"
  by (simp_all add: calls_of_def model_calls_def tick_def emit_def)

lemma calls_tick: "tick deps w = (now, w') \<Longrightarrow> calls_of m w' = calls_of m w"
  using calls_of_simps(1) [of m deps w] by simp

lemma bedrock_call_counts:
  assumes "bedrock_call deps policy msgs mt temp m' w = (answer, w')"
  shows "w_ticks w' = Suc (w_ticks w)" "calls_of m w' = calls_of m w + (if m' = m then 1 else 0)"
  using assms by (auto simp: bedrock_call_def tick_def emit_def calls_of_def model_calls_def Let_def split: prod.splits)

lemma down_call_fails:
  assumes "model_down (dp_sdk deps) m" "bedrock_call deps policy msgs mt temp m w = (answer, w')"
  shows "\<exists>e. answer = Inl (Invocation e)"
proof -
  obtain start w1 where t: "tick deps w = (start, w1)" by (cases "tick deps w")
  obtain out n sl where c: "converse (bedrock_cfg (dp_settings deps)) (dp_sdk deps) (dp_call_clock deps)
      (dp_jitter deps) start (w_sdk_calls w1) m msgs mt temp = (out, n, sl)" by (metis prod_cases3)
  from assms(1) have raises: "\<exists>e. sdk_converse (dp_sdk deps) k m msgs ic = Inl e" for k ic
    unfolding model_down_def by (metis is_ok_simps(2) sum.exhaust)
  have "\<exists>e. fst (converse_loop cfg (\<lambda>n. sdk_converse (dp_sdk deps) n m msgs ic) clk u s a k) = Inl e" for cfg ic clk u s a k
  proof (induction cfg "\<lambda>n. sdk_converse (dp_sdk deps) n m msgs ic" clk u s a k rule: converse_loop.induct)
    case (1 cfg clk u s a k)
    from raises [of k ic] obtain e where e: "sdk_converse (dp_sdk deps) k m msgs ic = Inl e" by blast
    with 1 show ?case
      by (subst converse_loop.simps) (auto simp: attempt_result_def Let_def split: prod.split)
  qed
  with c have "\<exists>e. out = Inl e" unfolding converse_def by (metis fst_conv)
  with assms(2) t c show ?thesis by (auto simp: bedrock_call_def Let_def)
qed

text \<open>What the model's budget needs of the deployment.\<close>

definition outage_setting :: "'key deps \<Rightarrow> string \<Rightarrow> bool" where
  "outage_setting deps m \<longleftrightarrow> model_down (dp_sdk deps) m \<and> mono (dp_clock deps) \<and>
     0 \<le> circuit_breaker_reset_timeout_s (dp_settings deps)"

lemma in_budget_later:
  assumes "in_budget deps m br w" "outage_setting deps m" "w_ticks w \<le> w_ticks w'"
    and "calls_of m w' = calls_of m w" "cb_slot br' m = cb_slot br m"
  shows "in_budget deps m br' w'"
  using assms monoD [of "dp_clock deps" "w_ticks w" "w_ticks w'"]
  by (auto simp: in_budget_def outage_setting_def intro: budget_later)

lemma in_budget_allow:
  assumes "in_budget deps m br w" "outage_setting deps m" "tick deps w = (now, w')"
    and "cb_allow (breaker_cfg (dp_settings deps)) br m' now = (ok, br')"
  shows "in_budget deps m br' w'" and "ok \<Longrightarrow> m' = m \<Longrightarrow> br_state (cb_slot br' m) \<noteq> OPEN"
proof -
  have now: "now = dp_clock deps (w_ticks w)" using assms(3) by (simp add: tick_def)
  note al = budget_allow [OF assms(4) assms(1) [unfolded in_budget_def, folded now]]
  have "in_budget deps m br' w" using al(1) by (simp add: in_budget_def now)
  from in_budget_later [OF this assms(2)] ticks_tick [OF assms(3)] calls_tick [OF assms(3)] show "in_budget deps m br' w'" by simp
  show "br_state (cb_slot br' m) \<noteq> OPEN" if "ok" "m' = m" using al(2) that by blast
qed

lemma in_budget_failure:
  assumes "in_budget deps m br w" "outage_setting deps m" "tick deps w = (now, w')"
  shows "in_budget deps m (cb_record_failure (breaker_cfg (dp_settings deps)) br m' now) w'"
proof -
  have now: "now = dp_clock deps (w_ticks w)" using assms(3) by (simp add: tick_def)
  have "0 \<le> reset_timeout_s (breaker_cfg (dp_settings deps))"
    using assms(2) by (simp add: outage_setting_def breaker_cfg_def)
  note failed = budget_failed [OF assms(1) [unfolded in_budget_def, folded now] this]
  have "in_budget deps m (cb_record_failure (breaker_cfg (dp_settings deps)) br m' now) w"
    using failed assms(1) cb_other(3) [of m' m] by (cases "m' = m") (simp_all add: in_budget_def now)
  from in_budget_later [OF this assms(2)] ticks_tick [OF assms(3)] calls_tick [OF assms(3)] show ?thesis by simp
qed

text \<open>A call of the model itself: let through, failed, recorded.\<close>

lemma in_budget_call:
  assumes "in_budget deps m br w" "outage_setting deps m" "br_state (cb_slot br m) \<noteq> OPEN"
    and "bedrock_call deps policy msgs mt temp m w = (answer, w1)" "tick deps w1 = (now, w2)"
  shows "in_budget deps m (cb_record_failure (breaker_cfg (dp_settings deps)) br m now) w2"
proof -
  have now: "now = dp_clock deps (w_ticks w1)" using assms(5) by (simp add: tick_def)
  note counts = bedrock_call_counts [OF assms(4)]
  have "dp_clock deps (w_ticks w) \<le> now"
    using assms(2) counts(1) now monoD [of "dp_clock deps" "w_ticks w" "w_ticks w1"] by (simp add: outage_setting_def)
  with assms(1) have b: "budget (breaker_cfg (dp_settings deps)) (dp_clock deps 0) now (cb_slot br m) (calls_of m w)"
    unfolding in_budget_def by (rule budget_later)
  have "0 \<le> reset_timeout_s (breaker_cfg (dp_settings deps))"
    using assms(2) by (simp add: outage_setting_def breaker_cfg_def)
  from budget_call [OF b assms(3) this] counts(2) have
    "in_budget deps m (cb_record_failure (breaker_cfg (dp_settings deps)) br m now) w1"
    by (simp add: in_budget_def now)
  from in_budget_later [OF this assms(2)] ticks_tick [OF assms(5)] calls_tick [OF assms(5)] show ?thesis by simp
qed

lemma in_budget_try:
  assumes "outage_setting deps m"
  shows "try_candidates (breaker_cfg (dp_settings deps)) (bedrock_call deps policy msgs mt temp) (tick deps) n i ms le br w =
     (out, br', w') \<Longrightarrow> in_budget deps m br w \<Longrightarrow> in_budget deps m br' w'"
proof (induction ms arbitrary: i le br w)
  case Nil
  then show ?case by (auto split: option.splits)
next
  case (Cons m' ms)
  obtain now w1 where clk: "tick deps w = (now, w1)" by (cases "tick deps w")
  obtain ok br1 where al: "cb_allow (breaker_cfg (dp_settings deps)) br m' now = (ok, br1)"
    by (cases "cb_allow (breaker_cfg (dp_settings deps)) br m' now")
  note allowed = in_budget_allow [OF Cons.prems(2) assms clk al]
  obtain answer w2 where cl: "bedrock_call deps policy msgs mt temp m' w1 = (answer, w2)"
    by (cases "bedrock_call deps policy msgs mt temp m' w1")
  obtain now' w3 where clk': "tick deps w2 = (now', w3)" by (cases "tick deps w2")
  note run = Cons.prems(1) clk al cl clk'
  show ?case
  proof (cases ok)
    case False
    with run Cons.IH [OF _ allowed(1)] show ?thesis by (simp add: Let_def)
  next
    case ok: True
    show ?thesis
    proof (cases "m' = m")
      case True
      with down_call_fails [of deps m] assms cl obtain e where e: "answer = Inl (Invocation e)"
        unfolding outage_setting_def by blast
      from in_budget_call [OF allowed(1) assms allowed(2) [OF ok True] cl [unfolded True] clk'] True run ok e Cons.IH
      show ?thesis by (simp add: Let_def)
    next
      case False
      with in_budget_later [OF allowed(1) assms, of w2 br1] bedrock_call_counts [OF cl] have b2: "in_budget deps m br1 w2" by simp
      from in_budget_failure [OF b2 assms clk', of m'] in_budget_later [OF b2 assms, of w2 "cb_record_success br1 m'"]
        cb_other(2) [OF False, of br1] b2 run ok Cons.IH
      show ?thesis by (auto simp: Let_def split: sum.splits client_error.splits)
    qed
  qed
qed

section \<open>Every handler stays within it\<close>

abbreviation gw_in_budget :: "'key deps \<Rightarrow> string \<Rightarrow> 'key gateway \<Rightarrow> bool" where
  "gw_in_budget deps m gw \<equiv> in_budget deps m (gw_breakers gw) (gw_world gw)"

text \<open>Steps that call no model and leave the breakers alone.\<close>

definition no_calls :: "'key gateway \<Rightarrow> 'key gateway \<Rightarrow> bool" where
  "no_calls gw gw' \<longleftrightarrow> gw_breakers gw' = gw_breakers gw \<and> model_calls (gw_world gw') = model_calls (gw_world gw)"

lemma no_calls_budget:
  assumes "no_calls gw gw'" "gw_in_budget deps m gw" "outage_setting deps m" "ticks gw \<le> ticks gw'"
  shows "gw_in_budget deps m gw'"
  using in_budget_later [OF assms(2, 3, 4)] assms(1) by (simp add: no_calls_def calls_of_def)

lemma model_calls_simps [simp]:
  "model_calls (snd (tick deps w)) = model_calls w"
  "model_calls (emit ev w) = model_calls w @ called_model ev"
  by (simp_all add: model_calls_def)

lemma model_calls_tick: "tick deps w = (now, w') \<Longrightarrow> model_calls w' = model_calls w"
  using model_calls_simps(1) [of deps w] by simp

lemma capture_no_calls [simp]:
  "model_calls (gw_world (capture_if_enabled deps cx i t gw)) = model_calls (gw_world gw)"
  "gw_breakers (capture_if_enabled deps cx i t gw) = gw_breakers gw"
  by (simp_all add: capture_if_enabled_def model_calls_tick split: prod.split)

lemma guardrails_no_calls:
  "input_guardrail deps p t w = (r, ms, w') \<Longrightarrow> model_calls w' = model_calls w"
  "output_guardrail deps p t w = (r, ms, w') \<Longrightarrow> model_calls w' = model_calls w"
  by (auto dest!: input_guardrail_spec output_guardrail_spec simp: model_calls_def)

lemma no_calls_log [simp]:
  "gw_breakers (log_to r gw) = gw_breakers gw" "gw_breakers (chat_failed cx m st msg ex gw) = gw_breakers gw"
  by (simp_all add: log_to_def chat_failed_def)

lemma no_calls_hit: "chat_hit deps cx q txt ms v gw = (r, gw') \<Longrightarrow> no_calls gw gw'"
  by (auto simp: chat_hit_def no_calls_def Let_def)

lemma no_calls_finish:
  assumes "chat_finish deps cx q txt ms rr gw = (r, gw')"
  shows "no_calls gw gw'"
proof -
  obtain verdict oms w where g: "output_guardrail deps (cx_policy cx) (res_text (rt_result rr)) (gw_world gw) = (verdict, oms, w)"
    by (metis prod_cases3)
  obtain now w2 where t: "tick deps w = (now, w2)" by (cases "tick deps w")
  from assms g t guardrails_no_calls(2) [OF g] model_calls_tick [OF t] show ?thesis
    by (auto simp: chat_finish_def no_calls_def Let_def split: sum.splits stage_error.splits prod.splits)
qed

lemma miss_in_budget:
  assumes "chat_miss deps cx q txt ms cr gw = (r, gw')" "gw_in_budget deps m gw" "outage_setting deps m"
  shows "gw_in_budget deps m gw'"
proof -
  obtain start w0 where t0: "tick deps (gw_world gw) = (start, w0)" by (cases "tick deps (gw_world gw)")
  obtain out br w where rt: "router_converse (breaker_cfg (dp_settings deps)) (dp_route_sets deps)
      (bedrock_call deps (cx_policy cx) (bedrock_messages (rq_messages cr)) (rq_max_tokens cr) (rq_temperature cr)) (tick deps)
      (cq_model q) (route_set (cx_policy cx)) (gw_breakers gw) w0 = (out, br, w)" by (metis prod_cases3)
  from in_budget_later [OF assms(2, 3), of w0] ticks_tick [OF t0] calls_tick [OF t0]
  have "in_budget deps m (gw_breakers gw) w0" by simp
  with in_budget_try [OF assms(3) rt [unfolded router_converse_def]] have b: "in_budget deps m br w" by blast
  obtain now w1 where t1: "tick deps w = (now, w1)" by (cases "tick deps w")
  from in_budget_later [OF b assms(3), of w1 br] ticks_tick [OF t1] calls_tick [OF t1] have b1: "in_budget deps m br w1" by simp
  have "gw_in_budget deps m gw'" if "chat_finish deps cx q txt ms rr (gw\<lparr>gw_breakers := br, gw_world := w\<rparr>) = (r, gw')" for rr
    using no_calls_budget [OF no_calls_finish [OF that] _ assms(3) ticks_finish [OF that]] b by simp
  with assms(1) t0 rt t1 b b1 show ?thesis
    by (auto simp: chat_miss_def Let_def split: sum.splits route_error.splits prod.splits)
qed

lemma cached_in_budget:
  assumes "chat_cached deps cx m' txt ms cr gw = (r, gw')" "gw_in_budget deps m gw" "outage_setting deps m"
  shows "gw_in_budget deps m gw'"
proof -
  obtain now w where t: "tick deps (gw_world gw) = (now, w)" by (cases "tick deps (gw_world gw)")
  from in_budget_later [OF assms(2, 3), of w] ticks_tick [OF t] calls_tick [OF t]
  have b: "gw_in_budget deps m (gw\<lparr>gw_cache := c, gw_world := w\<rparr>)" for c by simp
  have "gw_in_budget deps m gw'" if "chat_hit deps cx q txt ms v (gw\<lparr>gw_cache := c, gw_world := w\<rparr>) = (r, gw')" for q v c
    using no_calls_budget [OF no_calls_hit [OF that] b assms(3) ticks_hit [OF that]] .
  with assms(1) t miss_in_budget [OF _ b assms(3)] show ?thesis
    by (auto simp: chat_cached_def Let_def split: prod.splits option.splits)
qed

lemma stream_in_budget:
  assumes "chat_stream deps cx m' cr gw = (r, gw')" "gw_in_budget deps m gw" "outage_setting deps m"
  shows "gw_in_budget deps m gw'"
proof -
  obtain now w where t: "tick deps (gw_world gw) = (now, w)" by (cases "tick deps (gw_world gw)")
  obtain ok br where al: "cb_allow (breaker_cfg (dp_settings deps)) (gw_breakers gw) m' now = (ok, br)"
    by (cases "cb_allow (breaker_cfg (dp_settings deps)) (gw_breakers gw) m' now")
  note b = in_budget_allow(1) [OF assms(2, 3) t al]
  from b in_budget_later [OF b assms(3), of "emit ev w" br for ev] assms(1) t al show ?thesis
    by (auto simp: chat_stream_def Let_def split: if_splits)
qed

lemma body_in_budget:
  assumes "chat_body deps cx b gw = (r, gw')" "gw_in_budget deps m gw" "outage_setting deps m"
  shows "gw_in_budget deps m gw'"
proof -
  have "gw_in_budget deps m gw'" if "chat_checked deps cx cr gw = (r, gw')" for cr
  proof -
    obtain verdict ms w where g: "input_guardrail deps (cx_policy cx) (combined_input_text (rq_messages cr)) (gw_world gw) = (verdict, ms, w)"
      by (metis prod_cases3)
    with ticks_guardrails(1) [of "gw_world gw" deps] guardrails_no_calls(1) [OF g]
    have w: "gw_in_budget deps m (gw\<lparr>gw_world := w\<rparr>)"
      by (intro no_calls_budget [OF _ assms(2, 3)]) (simp_all add: no_calls_def, metis snd_conv)
    with assms(2) that g stream_in_budget [OF _ w assms(3)] cached_in_budget [OF _ w assms(3)] show ?thesis
      by (auto simp: chat_checked_def Let_def split: sum.splits stage_error.splits if_splits)
  qed
  with assms(1, 2) show ?thesis by (auto simp: chat_body_def split: option.splits sum.splits)
qed

section \<open>Streams of the model\<close>

lemma failing_stream_effect:
  "breakers_after cfg m now (stream_actions fr dropped env chunks (Some (Invocation e)) cancel) br
     \<in> {br, cb_record_failure cfg br m now}"
  by (simp add: stream_effect)

lemma down_stream_raises:
  assumes "model_down lib m"
  shows "\<exists>chunks e. converse_stream lib n m msgs mt temp = (chunks, Some e)"
proof -
  let ?s = "sdk_stream lib n m msgs \<lparr>maxTokens = mt, temperature = temp\<rparr>"
  from assms have "case ?s of Inl e \<Rightarrow> True | Inr (es, ended) \<Rightarrow> ended \<noteq> None"
    unfolding model_down_def by blast
  then consider e where "?s = Inl e" | es e where "?s = Inr (es, Some e)"
    by (cases ?s) auto
  then show ?thesis by cases (simp_all add: converse_stream_def split_beta)
qed

lemma other_streams: "m' \<noteq> m \<Longrightarrow> cb_slot (breakers_after cfg m' now acts br) m = cb_slot br m"
  unfolding breakers_after_def
proof (induction acts arbitrary: br)
  case (Cons a acts)
  then have "cb_slot (breaker_effect cfg m' now a br) m = cb_slot br m"
    by (cases a) (simp_all add: cb_other)
  with Cons show ?case by simp
qed simp

lemma run_stream_in_budget:
  assumes "run_stream deps job dropped c d gw = (acts, gw')" "gw_in_budget deps m gw" "outage_setting deps m"
  shows "gw_in_budget deps m gw'"
proof -
  let ?now = "dp_clock deps (ticks gw)"
  have gw': "gw_breakers gw' = breakers_after (breaker_cfg (dp_settings deps)) (sj_model job) ?now acts (gw_breakers gw)"
    "ticks gw' = Suc (ticks gw)" "calls_of m (gw_world gw') = calls_of m (gw_world gw)"
    using assms(1) by (auto simp: run_stream_def tick_def calls_of_def model_calls_def Let_def split: prod.splits)
  have "in_budget deps m (gw_breakers gw') (gw_world gw)"
  proof (cases "sj_model job = m")
    case True
    with assms(3) down_stream_raises obtain chunks e where
      "converse_stream (dp_sdk deps) (w_sdk_calls (gw_world gw)) (sj_model job) (sj_messages job)
         (sj_max_tokens job) (sj_temperature job) = (chunks, Some e)" unfolding outage_setting_def by blast
    with assms(1) obtain env where "acts = stream_actions (dp_float_repr deps) dropped env chunks (Some (Invocation e)) c"
      by (auto simp: run_stream_def Let_def split: prod.splits)
    with failing_stream_effect have "gw_breakers gw' = gw_breakers gw \<or>
        gw_breakers gw' = cb_record_failure (breaker_cfg (dp_settings deps)) (gw_breakers gw) m ?now"
      unfolding gw'(1) True by blast
    with budget_failed assms(2, 3) show ?thesis
      unfolding in_budget_def outage_setting_def by (metis breaker_cfg_def breaker_config.select_convs(2))
  next
    case False
    with other_streams assms(2) show ?thesis by (simp add: in_budget_def gw'(1))
  qed
  from in_budget_later [OF this assms(3), of "gw_world gw'"] gw' show ?thesis by simp
qed

section \<open>Every reachable state is within it\<close>

lemma admit_in_budget:
  assumes "admit_frame gw gw'" "ticks gw \<le> ticks gw'" "gw_in_budget deps m gw" "outage_setting deps m"
  shows "gw_in_budget deps m gw'"
  using no_calls_budget [OF _ assms(3, 4, 2)] assms(1) by (simp add: no_calls_def admit_frame_def model_calls_def)

lemma admin_body_no_calls: "admin_body deps rid i tid b gw = (r, gw') \<Longrightarrow> no_calls gw gw'"
  by (auto simp: admin_body_def no_calls_def log_to_def Let_def split: option.splits sum.splits)

lemma step_in_budget:
  assumes "step deps s s'" "sys_ok deps s" "gw_in_budget deps m (fst s)" "outage_setting deps m"
  shows "gw_in_budget deps m (fst s')"
  using assms
proof (induction rule: step.induct)
  case (chat_admitted rid req gw cx gw' ps)
  then have "snapshots_agree gw" by (simp add: sys_ok_def)
  with chat_start_quota [OF chat_admitted(1)] admit_in_budget [OF chat_start_spec(1) [OF chat_admitted(1)]] chat_admitted
  show ?case by simp
next
  case (chat_rejected rid req gw r gw' ps)
  then have "snapshots_agree gw" by (simp add: sys_ok_def)
  with chat_start_quota [OF chat_rejected(1)] admit_in_budget [OF chat_start_spec(1) [OF chat_rejected(1)]] chat_rejected
  show ?case by simp
next
  case (chat_continues cx ps b gw r sp gw')
  then show ?case using body_in_budget by fastforce
next
  case (admin_admitted rid req gw i gw' ps tid)
  with admin_quota(1) [OF admin_admitted(1)] admit_in_budget [OF admin_start_frame [OF admin_admitted(1)]] show ?case by simp
next
  case (admin_rejected rid req gw r gw' ps)
  with admin_quota(1) [OF admin_rejected(1)] admit_in_budget [OF admin_start_frame [OF admin_rejected(1)]] show ?case by simp
next
  case (admin_continues rid i tid ps b gw r gw')
  with admin_quota(2) [OF admin_continues(2)] no_calls_budget [OF admin_body_no_calls [OF admin_continues(2)]] show ?case by simp
next
  case (stream_runs job ps dropped c d gw acts gw')
  then show ?case using run_stream_in_budget by fastforce
next
  case (clock_read gw ps)
  with no_calls_budget [of gw "gw\<lparr>gw_world := snd (tick deps (gw_world gw))\<rparr>"] show ?case by (simp add: no_calls_def)
next
  case (line_logged gw ps r)
  with no_calls_budget [of gw "log_to r gw"] show ?case by (simp add: no_calls_def)
qed

lemma reachable_in_budget:
  assumes "reachable deps policies s" "outage_setting deps m" "0 < circuit_breaker_failure_threshold (dp_settings deps)"
  shows "gw_in_budget deps m (fst s)"
  using assms(1)
proof (induction rule: reachable.induct)
  case reach_init
  from assms(3) show ?case
    by (simp add: create_app_def in_budget_def budget_def cb_slot_def new_breaker_def calls_of_def model_calls_def breaker_cfg_def)
next
  case (reach_step s s')
  from step_in_budget [OF reach_step(2) reachable_ok [OF reach_step(1)] reach_step(3) assms(2)] show ?case .
qed

section \<open>Property\<close>

text \<open>
  C10: no retry storm. While every call of a model fails, over any run of the service the requests that are
  routed to it are at most its failure threshold and one for each reset timeout that passed, however many
  tenants ask for it, whatever fallbacks they use, and however its streams fail in between or are abandoned.
\<close>

theorem down_model_called_rarely:
  assumes "reachable deps policies (gw, ps)" and "model_down (dp_sdk deps) m" and "mono (dp_clock deps)"
    and "0 < circuit_breaker_failure_threshold (dp_settings deps)"
    and "0 < circuit_breaker_reset_timeout_s (dp_settings deps)"
  shows "of_nat (count_list (model_calls (gw_world gw)) m) \<le>
     of_int (circuit_breaker_failure_threshold (dp_settings deps)) +
     (dp_clock deps (w_ticks (gw_world gw)) - dp_clock deps 0) / circuit_breaker_reset_timeout_s (dp_settings deps)"
proof -
  let ?n = "calls_of m (gw_world gw)"
  let ?t = "circuit_breaker_failure_threshold (dp_settings deps)"
  let ?r = "circuit_breaker_reset_timeout_s (dp_settings deps)"
  let ?e = "dp_clock deps (ticks gw) - dp_clock deps 0"
  have "outage_setting deps m" using assms(2, 3, 5) by (simp add: outage_setting_def)
  from reachable_in_budget [OF assms(1) this assms(4)]
  have b: "budget (breaker_cfg (dp_settings deps)) (dp_clock deps 0) (dp_clock deps (ticks gw)) (cb_slot (gw_breakers gw) m) ?n"
    by (simp add: in_budget_def)
  have "(of_nat ?n + 1 - of_int ?t) * ?r = (of_nat ?n - of_int ?t) * ?r + ?r" by (simp add: algebra_simps)
  with b small_budget [of ?n ?t ?r "dp_clock deps 0" "dp_clock deps (ticks gw)"] assms(5)
  have "(of_nat ?n - of_int ?t) * ?r \<le> ?e"
    by (auto simp: budget_def breaker_cfg_def split: breaker_state.splits)
  then have "of_nat ?n - of_int ?t \<le> ?e / ?r" using assms(5) by (simp add: pos_le_divide_eq)
  then show ?thesis by (simp add: calls_of_def)
qed

text \<open>A run in which the model throttles its one request, with a breaker that trips at the first failure.\<close>

definition storm_deps :: "unit deps" where
  "storm_deps = (sample_deps id allow_all)\<lparr>dp_settings := sample_settings\<lparr>circuit_breaker_failure_threshold := 1\<rparr>,
     dp_sdk := throttled_sdk, dp_clock := of_nat\<rparr>"

lemma storm_admitted:
  "\<exists>gw. chat_start storm_deps ''r1'' sample_request (create_app sample_policies) =
     (Inr (admitted_ctx ''r1'' sample_caller sample_policy), gw) \<and> gw_cache gw = [] \<and> gw_breakers gw = Map.empty \<and>
     w_trace (gw_world gw) = []"
  by (simp add: chat_start_def chat_admit_def authenticate_def authenticate_iam_def sample_request_def sample_deps_def
      storm_deps_def iam_resolve_def sample_grant_def authorize_def require_role_def has_role_def sample_settings_def
      tick_def resolve_policy_def pc_defs store_get_def create_app_def sample_policy_def enforce_kill_switch_def
      BLOCKING_STATES_def enforce_rate_limit_def effective_limit_def rl_allow_def capacity_def refill_def sample_caller_def Let_def)

lemma storm_routed:
  "\<exists>out br w'. router_converse (breaker_cfg (dp_settings storm_deps)) Map.empty
      (bedrock_call storm_deps policy ms mt temp) (tick storm_deps) ''m'' None Map.empty w = (Inl out, br, w') \<and>
     model_calls w' = model_calls w @ [''m'']"
  by (simp add: router_converse_def candidates_def fallbacks_for_def cb_allow_def cb_slot_def new_breaker_def tick_def
      bedrock_call_def converse_def converse_loop.simps attempt_result_def storm_deps_def throttled_sdk_def
      sample_settings_def bedrock_cfg_def is_retryable_def extract_error_code_def RETRYABLE_ERROR_CODES_def
      model_calls_def emit_def Let_def)

lemma storm_deps_sel [simp]:
  "dp_settings storm_deps = sample_settings\<lparr>circuit_breaker_failure_threshold := 1\<rparr>" "dp_route_sets storm_deps = Map.empty"
  "dp_pydantic storm_deps = strict_pydantic" "dp_clock storm_deps = of_nat" "dp_sdk storm_deps = throttled_sdk"
  "dp_check_input storm_deps = (\<lambda>_ _ _. Inr allow_decision)"
  by (simp_all add: storm_deps_def sample_deps_def)

lemma storm_miss:
  assumes "chat_miss storm_deps cx q txt ms cr gw = (r, gw')"
    and "cq_model q = ''m''" "route_set (cx_policy cx) = None" "gw_breakers gw = Map.empty"
  shows "model_calls (gw_world gw') = model_calls (gw_world gw) @ [''m'']"
proof -
  obtain start w0 where t0: "tick storm_deps (gw_world gw) = (start, w0)" by (cases "tick storm_deps (gw_world gw)")
  obtain out br w where rt: "router_converse (breaker_cfg (dp_settings storm_deps)) Map.empty
      (bedrock_call storm_deps (cx_policy cx) (bedrock_messages (rq_messages cr)) (rq_max_tokens cr) (rq_temperature cr))
      (tick storm_deps) ''m'' None Map.empty w0 = (Inl out, br, w)" "model_calls w = model_calls w0 @ [''m'']"
    using storm_routed by blast
  obtain now w1 where t1: "tick storm_deps w = (now, w1)" by (cases "tick storm_deps w")
  from assms t0 rt t1 model_calls_tick [OF t0] model_calls_tick [OF t1] show ?thesis
    by (auto simp: chat_miss_def Let_def split: route_error.splits prod.splits)
qed

lemma storm_run:
  assumes "chat_body storm_deps (admitted_ctx ''r1'' sample_caller sample_policy) (Some sample_body) gw = (r, gw')"
    and "gw_cache gw = []" "gw_breakers gw = Map.empty"
  shows "model_calls (gw_world gw') = model_calls (gw_world gw) @ [''m'']"
proof -
  obtain q ms tx cr g cx where
    "chat_miss storm_deps cx q tx ms cr g = (r, gw')" "cq_model q = ''m''" "route_set (cx_policy cx) = None"
    "gw_breakers g = Map.empty" "model_calls (gw_world g) = model_calls (gw_world gw)"
    using assms
    by (auto simp: chat_body_def sample_valid chat_checked_def enforce_model_allowlist_def admitted_ctx_def
        sample_policy_def input_guardrail_def check_input_guardrail_def guardrail_stage_def run_guardrail_check_def
        allow_decision_def tick_def Let_def chat_cached_def query_of_def rc_get_def emit_def model_calls_def)
  from storm_miss [OF this(1-4)] this(5) show ?thesis by simp
qed

lemma down_model_called_rarely_witness:
  "\<exists>gw ps. reachable storm_deps sample_policies (gw, ps) \<and> model_calls (gw_world gw) = [''m''] \<and>
     (1 :: py_float) \<le> 1 + of_nat (w_ticks (gw_world gw)) / 30"
proof -
  obtain gw where a: "chat_start storm_deps ''r1'' sample_request (create_app sample_policies) =
      (Inr (admitted_ctx ''r1'' sample_caller sample_policy), gw)" "gw_cache gw = []" "gw_breakers gw = Map.empty"
    "w_trace (gw_world gw) = []" using storm_admitted by blast
  obtain r sp gw' where c: "chat_body storm_deps (admitted_ctx ''r1'' sample_caller sample_policy) (Some sample_body) gw =
      ((r, sp), gw')" by (metis prod.exhaust)
  from reach_step [OF reach_step [OF reach_init chat_admitted [OF a(1)]] chat_continues [OF _ c]]
  obtain ps where r: "reachable storm_deps sample_policies (gw', ps)" by auto
  from storm_run [OF c a(2, 3)] a(4) have m: "model_calls (gw_world gw') = [''m'']" by (simp add: model_calls_def)
  have "model_down (dp_sdk storm_deps) ''m''" by (simp add: model_down_def throttled_sdk_def)
  from down_model_called_rarely [OF r this] m r show ?thesis
    by (auto simp: mono_def sample_settings_def)
qed

end
