(* ===== verification/Cache_Freshness.thy ===== *)
theory Cache_Freshness
  imports Service_Spec
begin

text \<open>
  What a policy change does to the response cache. The policies that a tenant's waiting requests were admitted
  under, the ones its cache entries were written under and the stored one are snapshots of one history: none
  is newer than the stored policy, and two of the same epoch are the same policy. So an entry that is read
  under its key was written under exactly the policy of the reader.
\<close>

section \<open>Who writes the cache\<close>

lemma finish_writes:
  assumes "chat_finish deps cx q txt ms rr gw = (r, gw')" "CacheWrite q' v \<in> set (tr_of gw')"
  shows "CacheWrite q' v \<in> set (tr_of gw) \<or> q' = q"
proof -
  obtain verdict oms w where g: "output_guardrail deps (cx_policy cx) (res_text (rt_result rr)) (gw_world gw) = (verdict, oms, w)"
    by (metis prod_cases3)
  from output_guardrail_spec [OF g] obtain check where
    w: "w_trace w = tr_of gw @ [GuardOut (cx_policy cx) (res_text (rt_result rr)) check]" by auto
  obtain now w2 where t: "tick deps w = (now, w2)" by (cases "tick deps w")
  from assms g t w tick_traceD [OF t] show ?thesis
    by (auto simp: chat_finish_def Let_def split: sum.splits stage_error.splits prod.splits)
qed

lemma miss_writes:
  assumes "chat_miss deps cx q txt ms cr gw = (r, gw')" "CacheWrite q' v \<in> set (tr_of gw')"
  shows "CacheWrite q' v \<in> set (tr_of gw) \<or> q' = q"
proof -
  obtain start w0 where t0: "tick deps (gw_world gw) = (start, w0)" by (cases "tick deps (gw_world gw)")
  obtain out br w where rt: "router_converse (breaker_cfg (dp_settings deps)) (dp_route_sets deps)
      (bedrock_call deps (cx_policy cx) (bedrock_messages (rq_messages cr)) (rq_max_tokens cr) (rq_temperature cr)) (tick deps)
      (cq_model q) (route_set (cx_policy cx)) (gw_breakers gw) w0 = (out, br, w)" by (metis prod_cases3)
  from routed_calls [OF rt] tick_traceD [OF t0] obtain cs where
    tr: "w_trace w = tr_of gw @ map (\<lambda>m. ModelCall (cx_policy cx) m (bedrock_messages (rq_messages cr))) cs" by metis
  obtain now w1 where t1: "tick deps w = (now, w1)" by (cases "tick deps w")
  have "CacheWrite q' v \<in> set (w_trace w) \<or> q' = q"
    using assms t0 rt t1 tick_traceD [OF t1]
    by (auto simp: chat_miss_def Let_def split: sum.splits route_error.splits prod.splits dest: finish_writes)
  with tr show ?thesis by auto
qed

lemma cached_writes:
  assumes "chat_cached deps cx m txt ms cr gw = (r, gw')" "CacheWrite q' v \<in> set (tr_of gw')"
  shows "CacheWrite q' v \<in> set (tr_of gw) \<or> q' = query_of cx m cr"
proof -
  obtain now w where t: "tick deps (gw_world gw) = (now, w)" by (cases "tick deps (gw_world gw)")
  from assms t tick_traceD [OF t] show ?thesis
    by (auto simp: chat_cached_def chat_hit_def Let_def split: prod.splits option.splits dest: miss_writes)
qed

lemma body_writes:
  assumes "chat_body deps cx b gw = (r, gw')" "CacheWrite q v \<in> set (tr_of gw')"
  shows "CacheWrite q v \<in> set (tr_of gw) \<or> cq_tenant q = id_tenant_id (cx_identity cx) \<and> cq_policy q = cx_policy cx"
proof -
  have checked: ?thesis if "chat_checked deps cx cr gw = (r, gw')" for cr
  proof -
    let ?txt = "combined_input_text (rq_messages cr)"
    obtain verdict ms w where g: "input_guardrail deps (cx_policy cx) ?txt (gw_world gw) = (verdict, ms, w)"
      by (metis prod_cases3)
    from input_guardrail_spec [OF g] obtain check where w: "w_trace w = tr_of gw @ [GuardIn (cx_policy cx) ?txt check]" by auto
    have stream: "CacheWrite q v \<in> set (w_trace w)" if "chat_stream deps cx1 m cr (gw\<lparr>gw_world := w\<rparr>) = (r, gw')" for cx1 m
    proof -
      obtain now w1 where t: "tick deps w = (now, w1)" by (cases "tick deps w")
      from that assms(2) t tick_traceD [OF t] show ?thesis
        by (auto simp: chat_stream_def Let_def split: prod.splits if_splits)
    qed
    from that g assms(2) have "CacheWrite q v \<in> set (w_trace w) \<or>
        cq_tenant q = id_tenant_id (cx_identity cx) \<and> cq_policy q = cx_policy cx \<or> gw' = gw"
      by (auto simp: chat_checked_def Let_def query_of_def dest!: stream cached_writes
          split: sum.splits stage_error.splits if_splits)
    with w assms(2) show ?thesis by auto
  qed
  from assms show ?thesis
    by (auto simp: chat_body_def split: option.splits sum.splits dest: checked)
qed

section \<open>One history of policies per tenant\<close>

text \<open>The policies of a tenant that the system still holds: stored, of waiting requests, of cache writes.\<close>

definition known :: "'key system \<Rightarrow> string \<Rightarrow> tenant_policy set" where
  "known s t =
     set_option (gw_policies (fst s) t) \<union>
     {p. \<exists>cx. AwaitChat cx \<in> set (snd s) \<and> id_tenant_id (cx_identity cx) = JStr t \<and> p = cx_policy cx} \<union>
     {p. \<exists>q v. CacheWrite q v \<in> set (tr_of (fst s)) \<and> cq_tenant q = JStr t \<and> p = cq_policy q}"

definition one_history :: "'key system \<Rightarrow> bool" where
  "one_history s \<longleftrightarrow>
     (\<forall>t. \<forall>p \<in> known s t.
        (\<exists>q. gw_policies (fst s) t = Some q \<and> policy_epoch p \<le> policy_epoch q) \<and>
        (\<forall>p' \<in> known s t. policy_epoch p = policy_epoch p' \<longrightarrow> p = p'))"

lemma one_history_subset:
  assumes "one_history s" "gw_policies (fst s') = gw_policies (fst s)" "\<And>t. known s' t \<subseteq> known s t"
  shows "one_history s'"
  using assms unfolding one_history_def by (metis subsetD)

text \<open>A state change starts a new epoch, newer than all that is known.\<close>

lemma one_history_change:
  assumes "one_history s" "gw_policies (fst s) t = Some p"
    and "gw_policies (fst s') = (gw_policies (fst s))(t \<mapsto> with_state st p)"
    and "snd s' = remove1 w (snd s)" "tr_of (fst s') = tr_of (fst s)"
  shows "one_history s'"
proof -
  have new: "known s' u \<subseteq> (if u = t then insert (with_state st p) (known s t) else known s u)" for u
    using assms(3-5) unfolding known_def by (auto dest: subsetD [OF set_remove1_subset])
  have older: "policy_epoch r < policy_epoch (with_state st p)" if "r \<in> known s t" for r
    using assms(1, 2) that unfolding one_history_def by (fastforce simp: with_state_def)
  have "(\<exists>q. gw_policies (fst s') u = Some q \<and> policy_epoch r \<le> policy_epoch q) \<and>
      (\<forall>r' \<in> known s' u. policy_epoch r = policy_epoch r' \<longrightarrow> r = r')" if r: "r \<in> known s' u" for u r
  proof (cases "u = t")
    case True
    have ins: "x \<in> insert (with_state st p) (known s t)" if "x \<in> known s' u" for x
      using that new [of u] True by auto
    have "r = r'" if r': "r' \<in> known s' u" "policy_epoch r = policy_epoch r'" for r'
      using ins [OF r] ins [OF r'(1)]
    proof (elim insertE)
      assume "r \<in> known s t" "r' \<in> known s t"
      with assms(1) r'(2) show "r = r'" unfolding one_history_def by blast
    qed (use older [of r] older [of r'] r'(2) in auto)
    moreover have "policy_epoch r \<le> policy_epoch (with_state st p)" using ins [OF r] older [of r] by auto
    ultimately show ?thesis using True assms(3) by simp
  next
    case False
    have sub: "known s' u \<subseteq> known s u" using new [of u] False by simp
    with r have "r \<in> known s u" by blast
    with assms(1) have "\<exists>q. gw_policies (fst s) u = Some q \<and> policy_epoch r \<le> policy_epoch q"
      "\<forall>r' \<in> known s u. policy_epoch r = policy_epoch r' \<longrightarrow> r = r'" unfolding one_history_def by blast+
    with sub False assms(3) show ?thesis by auto
  qed
  then show ?thesis unfolding one_history_def by blast
qed

lemma one_history_init: "one_history (create_app policies, [])"
  by (auto simp: one_history_def known_def create_app_def)

lemma one_history_step:
  assumes "step deps s s'" "sys_ok deps s" "one_history s"
  shows "one_history s'"
  using assms
proof (induction rule: step.induct)
  case (chat_admitted rid req gw cx gw' ps)
  then have "snapshots_agree gw" by (simp add: sys_ok_def)
  from chat_start_state(2, 3) [OF chat_admitted(1) this]
  have "known (gw', AwaitChat cx # ps) t \<subseteq> known (gw, ps) t" for t
    by (auto simp: known_def admit_frame_def)
  with chat_start_policies [OF chat_admitted(1)] show ?case by (intro one_history_subset [OF chat_admitted(3)]) simp_all
next
  case (chat_rejected rid req gw r gw' ps)
  from chat_start_spec(1) [OF chat_rejected(1)] show ?case
    by (intro one_history_subset [OF chat_rejected(3)]) (simp_all add: known_def admit_frame_def)
next
  case (chat_continues cx ps b gw r sp gw')
  have "AwaitChat cx' \<in> set (started r @ remove1 (AwaitChat cx) ps) \<Longrightarrow> AwaitChat cx' \<in> set ps" for cx'
    by (cases r) (auto dest: subsetD [OF set_remove1_subset])
  with body_writes [OF chat_continues(2)] chat_continues(1) chat_body_policies(1) [OF chat_continues(2)]
  show ?case by (intro one_history_subset [OF chat_continues(4)]) (fastforce simp: known_def)+
next
  case (admin_admitted rid req gw i gw' ps tid)
  from admin_start_frame [OF admin_admitted(1)] show ?case
    by (intro one_history_subset [OF admin_admitted(3)]) (simp_all add: known_def admit_frame_def)
next
  case (admin_rejected rid req gw r gw' ps)
  from admin_start_frame [OF admin_rejected(1)] show ?case
    by (intro one_history_subset [OF admin_rejected(3)]) (simp_all add: known_def admit_frame_def)
next
  case (admin_continues rid i tid ps b gw r gw')
  note tr = admin_body_frame(1) [OF admin_continues(2)]
  from admin_body_policies [OF admin_continues(2)] show ?case
  proof (elim disjE exE conjE)
    assume "gw_policies gw' = gw_policies gw"
    with tr show ?case
      by (intro one_history_subset [OF admin_continues(4)]) (auto simp: known_def dest: subsetD [OF set_remove1_subset])
  next
    fix p st assume "gw_policies gw tid = Some p" "gw_policies gw' = (gw_policies gw)(tid \<mapsto> with_state st p)"
    with tr show ?case by (intro one_history_change [OF admin_continues(4)]) simp_all
  qed
next
  case (stream_runs job ps dropped c d gw acts gw')
  from run_stream_frame [OF stream_runs(2)] show ?case
    by (intro one_history_subset [OF stream_runs(4)]) (auto simp: known_def dest: subsetD [OF set_remove1_subset])
next
  case (clock_read gw ps)
  then show ?case by (intro one_history_subset [OF clock_read(2)]) (simp_all add: known_def)
next
  case (line_logged gw ps r)
  then show ?case by (intro one_history_subset [OF line_logged(2)]) (simp_all add: known_def)
qed

lemma reachable_one_history: "reachable deps policies s \<Longrightarrow> one_history s"
  by (induction rule: reachable.induct) (auto intro: one_history_init one_history_step dest: reachable_ok)

text \<open>What a waiting request shares with a cache write of its tenant and epoch.\<close>

lemma same_epoch_same_policy:
  assumes "reachable deps policies (gw, ps)" "AwaitChat cx \<in> set ps" "chat_body deps cx b gw = (r, gw')"
    and "CacheWrite q v \<in> set (tr_of gw')" "cq_tenant q = id_tenant_id (cx_identity cx)"
    and "policy_epoch (cq_policy q) = policy_epoch (cx_policy cx)"
  shows "cq_policy q = cx_policy cx"
  using body_writes [OF assms(3, 4)]
proof
  assume w: "CacheWrite q v \<in> set (tr_of gw)"
  obtain t where t: "id_tenant_id (cx_identity cx) = JStr t"
    using pending_tenant [OF assms(1, 2)] by (cases "id_tenant_id (cx_identity cx)") auto
  with assms(2, 5) w have "cq_policy q \<in> known (gw, ps) t" "cx_policy cx \<in> known (gw, ps) t" by (auto simp: known_def)
  with reachable_one_history [OF assms(1)] assms(6) show ?thesis unfolding one_history_def by blast
qed simp

end
