(* ===== verification/Policy_Threads.thy ===== *)
theory Policy_Threads
  imports Policy_Cache
begin

text \<open>
  The snapshot cache under several threads, which its locks are for: \<open>PolicySnapshotCache.get\<close> gives its lock up
  between the lookup, the refetch and the store of the snapshot, and \<open>set_state\<close> and its push are two calls.
  A step is one of these parts, atomic by the lock that guards it; the steps of different calls interleave at
  will. The event loop of the app runs each \<open>get\<close> without a break, and is the special case.
\<close>

section \<open>Calls in progress\<close>

text \<open>Where a \<open>get\<close> is: before its lookup, before its refetch, or with a policy to store.\<close>

datatype get_phase = Looking | Fetching | Storing tenant_policy

record threads =
  th_policies :: policy_store
  th_snaps :: snapshots
  th_gets :: "(string \<times> get_phase) list"
  th_pushes :: "string list"

definition threads_start :: "policy_store \<Rightarrow> threads" where
  "threads_start policies = \<lparr>th_policies = policies, th_snaps = Map.empty, th_gets = [], th_pushes = []\<rparr>"

text \<open>Does a \<open>get\<close> of the tenant hold a policy that it fetched and has not stored?\<close>

fun storing :: "string \<Rightarrow> (string \<times> get_phase) list \<Rightarrow> bool" where
  "storing tid [] \<longleftrightarrow> False"
| "storing tid ((t, Storing p) # gets) \<longleftrightarrow> t = tid \<or> storing tid gets"
| "storing tid (_ # gets) \<longleftrightarrow> storing tid gets"

text \<open>
  The steps; \<open>overlap\<close> says whether a tenant's policy may change while a \<open>get\<close> of it holds a fetched policy.
  A \<open>get\<close> that is done, with a policy or with \<open>UnknownTenantError\<close>, leaves the list.
\<close>

inductive thread_step :: "bool \<Rightarrow> py_float \<Rightarrow> threads \<Rightarrow> threads \<Rightarrow> bool" for overlap ttl_s where
  called: "thread_step overlap ttl_s th (th\<lparr>th_gets := (tid, Looking) # th_gets th\<rparr>)"
| hit: "th_gets th = xs @ (tid, Looking) # ys \<Longrightarrow> pc_lookup ttl_s (th_snaps th) tid now = Some p \<Longrightarrow>
     thread_step overlap ttl_s th (th\<lparr>th_gets := xs @ ys\<rparr>)"
| miss: "th_gets th = xs @ (tid, Looking) # ys \<Longrightarrow> pc_lookup ttl_s (th_snaps th) tid now = None \<Longrightarrow>
     thread_step overlap ttl_s th (th\<lparr>th_gets := xs @ (tid, Fetching) # ys\<rparr>)"
| fetched: "th_gets th = xs @ (tid, Fetching) # ys \<Longrightarrow> store_get (th_policies th) tid = Inr p \<Longrightarrow>
     thread_step overlap ttl_s th (th\<lparr>th_gets := xs @ (tid, Storing p) # ys\<rparr>)"
| unknown: "th_gets th = xs @ (tid, Fetching) # ys \<Longrightarrow> store_get (th_policies th) tid = Inl e \<Longrightarrow>
     thread_step overlap ttl_s th (th\<lparr>th_gets := xs @ ys\<rparr>)"
| stored: "th_gets th = xs @ (tid, Storing p) # ys \<Longrightarrow>
     thread_step overlap ttl_s th (th\<lparr>th_gets := xs @ ys, th_snaps := pc_store (th_snaps th) tid p now\<rparr>)"
| changed: "store_set_state (th_policies th) tid st = Inr (p, policies) \<Longrightarrow> overlap \<or> \<not> storing tid (th_gets th) \<Longrightarrow>
     thread_step overlap ttl_s th (th\<lparr>th_policies := policies, th_pushes := tid # th_pushes th\<rparr>)"
| pushed: "th_pushes th = xs @ tid # ys \<Longrightarrow>
     thread_step overlap ttl_s th (th\<lparr>th_pushes := xs @ ys, th_snaps := pc_invalidate (th_snaps th) tid\<rparr>)"

inductive threads_reach :: "bool \<Rightarrow> py_float \<Rightarrow> policy_store \<Rightarrow> threads \<Rightarrow> bool" for overlap ttl_s policies where
  begun: "threads_reach overlap ttl_s policies (threads_start policies)"
| gone_on: "threads_reach overlap ttl_s policies th \<Longrightarrow> thread_step overlap ttl_s th th' \<Longrightarrow>
     threads_reach overlap ttl_s policies th'"

section \<open>A push is effective\<close>

definition threads_inv :: "threads \<Rightarrow> bool" where
  "threads_inv th \<longleftrightarrow>
     (\<forall>tid p. (tid, Storing p) \<in> set (th_gets th) \<longrightarrow> th_policies th tid = Some p) \<and>
     (\<forall>tid s. th_snaps th tid = Some s \<longrightarrow> tid \<in> set (th_pushes th) \<or> th_policies th tid = Some (snap_policy s))"

lemma storing_iff: "storing tid gets \<longleftrightarrow> (\<exists>p. (tid, Storing p) \<in> set gets)"
  by (induction tid gets rule: storing.induct) auto

lemma thread_step_inv [inv_intros]: "thread_step False ttl_s th th' \<Longrightarrow> threads_inv th \<Longrightarrow> threads_inv th'"
proof (induction rule: thread_step.induct)
  case (changed th tid st p policies)
  from changed.hyps(1) have other: "policies t = th_policies th t" if "t \<noteq> tid" for t
    using that store.set_state_other [of "th_policies th" tid st p policies t]
    by (auto simp: store_get_def split: option.splits)
  show ?case unfolding threads_inv_def
  proof (intro conjI allI impI)
    fix t q assume "(t, Storing q) \<in> set (th_gets (th\<lparr>th_policies := policies, th_pushes := tid # th_pushes th\<rparr>))"
    then have q: "(t, Storing q) \<in> set (th_gets th)" by simp
    with changed.hyps(2) have "t \<noteq> tid" by (auto simp: storing_iff)
    with q changed.prems other [of t] show "th_policies (th\<lparr>th_policies := policies, th_pushes := tid # th_pushes th\<rparr>) t = Some q"
      by (auto simp: threads_inv_def)
  next
    fix t s assume "th_snaps (th\<lparr>th_policies := policies, th_pushes := tid # th_pushes th\<rparr>) t = Some s"
    with changed.prems other [of t]
    show "t \<in> set (th_pushes (th\<lparr>th_policies := policies, th_pushes := tid # th_pushes th\<rparr>)) \<or>
        th_policies (th\<lparr>th_policies := policies, th_pushes := tid # th_pushes th\<rparr>) t = Some (snap_policy s)"
      by (cases "t = tid") (auto simp: threads_inv_def)
  qed
qed (auto simp: threads_inv_def pc_defs store_get_def split: if_splits option.splits)

lemma threads_reach_inv: "threads_reach False ttl_s policies th \<Longrightarrow> threads_inv th"
proof (induction rule: threads_reach.induct)
  case begun
  show ?case by (simp add: threads_inv_def threads_start_def)
qed (rule thread_step_inv)

text \<open>A first \<open>get\<close>, up to the policy it holds, under no other call.\<close>

abbreviation th_at :: "policy_store \<Rightarrow> snapshots \<Rightarrow> (string \<times> get_phase) list \<Rightarrow> string list \<Rightarrow> threads" where
  "th_at policies snaps gets pushes \<equiv> \<lparr>th_policies = policies, th_snaps = snaps, th_gets = gets, th_pushes = pushes\<rparr>"

lemma first_refetch:
  assumes "policies tid = Some p"
  shows "threads_reach overlap ttl_s policies (th_at policies Map.empty [(tid, Storing p)] [])"
proof -
  have start: "threads_reach overlap ttl_s policies (th_at policies Map.empty [] [])"
    using threads_reach.begun [of overlap ttl_s policies] by (simp add: threads_start_def)
  have steps: "thread_step overlap ttl_s (th_at policies Map.empty [] []) (th_at policies Map.empty [(tid, Looking)] [])"
    "thread_step overlap ttl_s (th_at policies Map.empty [(tid, Looking)] []) (th_at policies Map.empty [(tid, Fetching)] [])"
    "thread_step overlap ttl_s (th_at policies Map.empty [(tid, Fetching)] []) (th_at policies Map.empty [(tid, Storing p)] [])"
    using thread_step.called [of overlap ttl_s "th_at policies Map.empty [] []" tid]
      thread_step.miss [of "th_at policies Map.empty [(tid, Looking)] []" "[]" tid "[]" ttl_s 0 overlap]
      thread_step.fetched [of "th_at policies Map.empty [(tid, Fetching)] []" "[]" tid "[]" p overlap ttl_s] assms
    by (simp_all add: pc_lookup_def)
  show ?thesis
    by (rule threads_reach.gone_on [OF threads_reach.gone_on [OF threads_reach.gone_on [OF start steps(1)] steps(2)] steps(3)])
qed

lemma snapshot_stored:
  assumes "threads_reach overlap ttl_s policies (th_at policies' snaps [(tid, Storing p)] [])"
  shows "threads_reach overlap ttl_s policies (th_at policies' (pc_store snaps tid p stamp) [] [])"
  using threads_reach.gone_on [OF assms thread_step.stored [of _ "[]" tid p "[]"]] by simp

text \<open>
  C32: push invalidation with several threads. However the parts of lookups, refetches, state changes and
  pushes of any number of threads interleave: as long as no tenant's policy changes while a \<open>get\<close> of that
  tenant holds a policy it fetched before, a snapshot of a tenant whose changes have all been pushed is the
  stored policy, so that no \<open>get\<close> answers with a policy from before the push, however long the TTL is.
\<close>

theorem push_effective:
  assumes "threads_reach False ttl_s policies th" and "\<not> List.member (th_pushes th) tid"
  shows "pc_lookup ttl_s (th_snaps th) tid now \<in> {None, th_policies th tid}"
  using threads_reach_inv [OF assms(1)] assms(2)
  by (auto simp: threads_inv_def pc_lookup_def split: option.splits if_splits) metis

theorem push_effective_witness:
  "pc_lookup 30 (pc_store Map.empty ''acme'' sample_policy 5) ''acme'' 10 \<in> {None, Some sample_policy}"
proof -
  have "threads_reach False 30 [''acme'' \<mapsto> sample_policy]
      (th_at [''acme'' \<mapsto> sample_policy] (pc_store Map.empty ''acme'' sample_policy 5) [] [])"
    by (intro snapshot_stored first_refetch) simp
  from push_effective [OF this, of "''acme''" 10] show ?thesis by simp
qed

section \<open>A push that is lost\<close>

text \<open>
  The race that the lock-free refetch leaves open. If a refetch read the store before a state change and
  stores its snapshot after the change's push, the push is void: with no call in progress and no push
  outstanding, a \<open>get\<close> is answered with the policy from before the change until the TTL of the stamp.
\<close>

lemma push_lost_to_inflight_refetch:
  assumes "policies tid = Some p" and "store_set_state policies tid st = Inr (p', policies')" and "now - stamp < ttl_s"
  shows "\<exists>th. threads_reach True ttl_s policies th \<and> th_gets th = [] \<and> th_pushes th = [] \<and>
     th_policies th tid = Some p' \<and> p' \<noteq> p \<and>
     fst (pc_get ttl_s (store_get (th_policies th)) (th_snaps th) tid now t) = Inr p"
proof -
  from threads_reach.gone_on [OF first_refetch [of policies tid p True ttl_s] thread_step.changed] assms(1, 2)
  have "threads_reach True ttl_s policies (th_at policies' Map.empty [(tid, Storing p)] [tid])" by simp
  from threads_reach.gone_on [OF this thread_step.pushed [of _ "[]" tid "[]"]]
  have "threads_reach True ttl_s policies (th_at policies' Map.empty [(tid, Storing p)] [])" by (simp add: pc_invalidate_def)
  from snapshot_stored [OF this, of stamp]
  have "threads_reach True ttl_s policies (th_at policies' (pc_store Map.empty tid p stamp) [] [])" .
  moreover from assms(2) have "policies' tid = Some p'" "p' \<noteq> p"
    using assms(1) by (auto simp: store_set_state_def store_get_def Let_def dest: arg_cong [where f = policy_epoch])
  ultimately show ?thesis using assms(3)
    by (intro exI [of _ "th_at policies' (pc_store Map.empty tid p stamp) [] []"]) (simp add: pc_defs)
qed

end
