(* ===== verification/App.thy ===== *)
theory App
  imports Service_Spec
begin

text \<open>
  The application as an HTTP server sees it (\<open>main.py\<close>, \<open>build_router\<close>, \<open>build_admin_router\<close>): the route
  table, the choice of a handler and the middleware around it, one request from end to end. Starlette's
  matching of a method and a path against the table is a parameter: it answers on its own (404, 405, a
  redirect) or names a route's endpoint with the path parameters.
\<close>

section \<open>The route table\<close>

datatype endpoint = Healthz | Chat | SetTenantState

record route =
  rt_path :: string
  rt_endpoint :: endpoint
  rt_methods :: "string list"

definition build_router :: "route list" where
  "build_router =
     [\<lparr>rt_path = ''/healthz'', rt_endpoint = Healthz, rt_methods = [''GET'']\<rparr>,
      \<lparr>rt_path = ''/v1/chat'', rt_endpoint = Chat, rt_methods = [''POST'']\<rparr>]"

definition build_admin_router :: "route list" where
  "build_admin_router =
     [\<lparr>rt_path = ''/v1/admin/tenants/{tenant_id}/state'', rt_endpoint = SetTenantState, rt_methods = [''PUT'']\<rparr>]"

definition app_routes :: "route list" where
  "app_routes = build_router @ build_admin_router"

type_synonym matcher = "route list \<Rightarrow> string \<Rightarrow> string \<Rightarrow> json_response + endpoint \<times> (string \<times> string) list"

section \<open>One request, end to end\<close>

text \<open>\<open>request.path_params["tenant_id"]\<close> is read after the caller is authorized.\<close>

definition admin_endpoint ::
  "'key deps \<Rightarrow> http_request \<Rightarrow> (string \<times> string) list \<Rightarrow> json option \<Rightarrow> 'key gateway \<Rightarrow> http_response \<times> 'key gateway" where
  "admin_endpoint deps req params request_body gw =
     (case admin_start deps (request_id_of req) req gw of
        (Inl r, gw) \<Rightarrow> (r, gw)
      | (Inr i, gw) \<Rightarrow>
          (case map_of params ''tenant_id'' of
             None \<Rightarrow> (Unhandled (quoted ''tenant_id''), gw)
           | Some tid \<Rightarrow> admin_body deps (request_id_of req) i tid request_body gw))"

definition endpoint_handler ::
  "'key deps \<Rightarrow> http_request \<Rightarrow> endpoint \<Rightarrow> (string \<times> string) list \<Rightarrow> json option \<Rightarrow> 'key gateway \<Rightarrow> http_response \<times> 'key gateway" where
  "endpoint_handler deps req e params request_body gw =
     (case e of
        Healthz \<Rightarrow> (Json healthz, gw)
      | Chat \<Rightarrow> (let ((r, _), gw) = chat deps (request_id_of req) req request_body gw in (r, gw))
      | SetTenantState \<Rightarrow> admin_endpoint deps req params request_body gw)"

definition app_handler ::
  "'key deps \<Rightarrow> matcher \<Rightarrow> http_request \<Rightarrow> json option \<Rightarrow> 'key gateway \<Rightarrow> http_response \<times> 'key gateway" where
  "app_handler deps matches req request_body gw =
     (case matches app_routes (hr_method req) (hr_path req) of
        Inl r \<Rightarrow> (Json r, gw)
      | Inr (e, params) \<Rightarrow> endpoint_handler deps req e params request_body gw)"

definition serve ::
  "'key deps \<Rightarrow> matcher \<Rightarrow> http_request \<Rightarrow> json option \<Rightarrow> 'key gateway \<Rightarrow> http_response \<times> string option \<times> 'key gateway" where
  "serve deps matches req request_body gw = dispatch deps req (app_handler deps matches req request_body) gw"

text \<open>What Starlette documents of a match: it is a route of the table with that method, and the parameters are its path's.\<close>

definition matches_documented :: "matcher \<Rightarrow> bool" where
  "matches_documented matches \<longleftrightarrow>
     (\<forall>rs m p e params. matches rs m p = Inr (e, params) \<longrightarrow>
        (\<exists>r \<in> set rs. rt_endpoint r = e \<and> m \<in> set (rt_methods r) \<and>
           (e = SetTenantState \<longrightarrow> (\<exists>tid. map_of params ''tenant_id'' = Some tid))))"

section \<open>The access log\<close>

definition access_lines :: "'key gateway \<Rightarrow> log_record list" where
  "access_lines gw = filter (\<lambda>r. lg_logger r = ''gateway.access'') (gw_logs gw)"

lemma access_lines_log_to [simp]:
  "access_lines (log_to r gw) = access_lines gw @ (if lg_logger r = ''gateway.access'' then [r] else [])"
  by (simp add: access_lines_def log_to_def)

lemma access_lines_upd [simp]:
  "access_lines (gw_world_update f gw) = access_lines gw" "access_lines (gw_cache_update g gw) = access_lines gw"
  "access_lines (gw_breakers_update h gw) = access_lines gw" "access_lines (gw_debug_update k gw) = access_lines gw"
  "access_lines (gw_verifier_update l gw) = access_lines gw" "access_lines (gw_snapshots_update m gw) = access_lines gw"
  "access_lines (gw_limiter_update n gw) = access_lines gw" "access_lines (gw_policies_update p gw) = access_lines gw"
  by (simp_all add: access_lines_def)

lemma access_lines_parts [simp]:
  "access_lines (chat_failed cx m st msg ex gw) = access_lines gw"
  "access_lines (capture_if_enabled deps cx i t gw) = access_lines gw"
  "lg_logger (completion_log cx c) = ''gateway.chat''"
  by (simp_all add: chat_failed_def log_event_def capture_if_enabled_def completion_log_def split: prod.split)

lemma access_chat_hit: "access_lines (snd (chat_hit deps cx q txt ms v gw)) = access_lines gw"
  by (simp add: chat_hit_def Let_def)

lemma access_chat_finish: "access_lines (snd (chat_finish deps cx q txt ms r gw)) = access_lines gw"
  by (simp add: chat_finish_def Let_def split: prod.split sum.split stage_error.split)

lemma access_chat_miss: "access_lines (snd (chat_miss deps cx q txt ms cr gw)) = access_lines gw"
  by (simp add: chat_miss_def Let_def access_chat_finish split: prod.split sum.split route_error.split)

lemma access_chat_cached: "access_lines (snd (chat_cached deps cx m txt ms cr gw)) = access_lines gw"
  by (simp add: chat_cached_def Let_def access_chat_hit access_chat_miss split: prod.split option.split)

lemma access_chat_stream: "access_lines (snd (chat_stream deps cx m cr gw)) = access_lines gw"
  by (simp add: chat_stream_def Let_def split: prod.split)

lemma access_chat_checked: "access_lines (snd (chat_checked deps cx cr gw)) = access_lines gw"
  by (simp add: chat_checked_def Let_def access_chat_stream access_chat_cached
      split: prod.split sum.split stage_error.split)

lemma access_chat_body: "access_lines (snd (chat_body deps cx b gw)) = access_lines gw"
  by (simp add: chat_body_def access_chat_checked split: option.split sum.split)

lemma access_chat_admit: "access_lines (snd (chat_admit deps req gw)) = access_lines gw"
  by (simp add: chat_admit_def Let_def split: prod.split sum.split)

lemma access_chat_start: "access_lines (snd (chat_start deps rid req gw)) = access_lines gw"
  using access_chat_admit [of deps req gw] by (auto simp: chat_start_def split: prod.split sum.split)

lemma access_admin_start: "access_lines (snd (admin_start deps rid req gw)) = access_lines gw"
  by (simp add: admin_start_def Let_def split: prod.split sum.split)

lemma access_admin_body: "access_lines (snd (admin_body deps rid i tid b gw)) = access_lines gw"
  by (simp add: admin_body_def Let_def log_event_def split: prod.split sum.split option.split)

lemma access_chat: "access_lines (snd (chat deps rid req b gw)) = access_lines gw"
proof -
  obtain r gw1 where c: "chat_start deps rid req gw = (r, gw1)" by (cases "chat_start deps rid req gw")
  with access_chat_start [of deps rid req gw] have "access_lines gw1 = access_lines gw" by simp
  with c access_chat_body [of deps _ b gw1] show ?thesis by (cases r) (simp_all add: chat_def)
qed

lemma access_admin_endpoint: "access_lines (snd (admin_endpoint deps req params b gw)) = access_lines gw"
proof -
  obtain r gw1 where c: "admin_start deps (request_id_of req) req gw = (r, gw1)"
    by (cases "admin_start deps (request_id_of req) req gw")
  with access_admin_start [of deps "request_id_of req" req gw] have "access_lines gw1 = access_lines gw" by simp
  with c access_admin_body [of deps "request_id_of req" _ _ b gw1] show ?thesis
    by (cases r) (simp_all add: admin_endpoint_def split: option.split)
qed

lemma access_app_handler: "access_lines (snd (app_handler deps matches req b gw)) = access_lines gw"
  using access_chat [of deps "request_id_of req" req b gw]
  by (auto simp: app_handler_def endpoint_handler_def access_admin_endpoint split: prod.split sum.split endpoint.split)

text \<open>The middleware around a handler that writes no access line of its own.\<close>

lemma dispatch_spec:
  assumes "dispatch deps req handler gw = (r, hdr, gw')" and "\<And>g. access_lines (snd (handler g)) = access_lines g"
  shows "(\<exists>d. access_lines gw' = access_lines gw @ [access_log req (status_of r) d]) \<and> r \<noteq> Unhandled exc \<and>
     (hdr = Some (request_id_of req) \<or>
      hdr = None \<and> (\<exists>e. r = Json (fst (unhandled_error (request_id_of req) (hr_path req) e))))"
proof -
  obtain t0 w0 where tk0: "tick deps (gw_world gw) = (t0, w0)" by (cases "tick deps (gw_world gw)")
  obtain out g where h: "handler (gw\<lparr>gw_world := w0\<rparr>) = (out, g)" by (cases "handler (gw\<lparr>gw_world := w0\<rparr>)")
  obtain t1 w1 where tk1: "tick deps (gw_world g) = (t1, w1)" by (cases "tick deps (gw_world g)")
  from assms(2) [of "gw\<lparr>gw_world := w0\<rparr>"] h have "access_lines g = access_lines gw" by simp
  with assms(1) tk0 h tk1 show ?thesis
    by (cases out) (auto simp: dispatch_def Let_def unhandled_error_def access_log_def log_event_def error_response_def)
qed

section \<open>A served request is a run of the event loop\<close>

lemma dispatch_reachable:
  assumes "dispatch deps req handler gw = (r, hdr, gw')" and "reachable deps policies (gw, ps)"
    and "\<And>g out g'. reachable deps policies (g, ps) \<Longrightarrow> handler g = (out, g') \<Longrightarrow> reachable deps policies (g', started out @ ps)"
  shows "reachable deps policies (gw', started r @ ps)"
proof -
  obtain t0 w0 where tk0: "tick deps (gw_world gw) = (t0, w0)" by (cases "tick deps (gw_world gw)")
  obtain out g where h: "handler (gw\<lparr>gw_world := w0\<rparr>) = (out, g)" by (cases "handler (gw\<lparr>gw_world := w0\<rparr>)")
  obtain t1 w1 where tk1: "tick deps (gw_world g) = (t1, w1)" by (cases "tick deps (gw_world g)")
  have "reachable deps policies (gw\<lparr>gw_world := w0\<rparr>, ps)"
    using reach_step [OF assms(2) clock_read] tk0 by simp
  from assms(3) [OF this h] have "reachable deps policies (g, started out @ ps)" .
  from reach_step [OF this clock_read] tk1 have timed: "reachable deps policies (g\<lparr>gw_world := w1\<rparr>, started out @ ps)" by simp
  have logged: "reachable deps policies (log_to l g', qs) " if "reachable deps policies (g', qs)" for l g' qs
    using reach_step [OF that line_logged] .
  show ?thesis
    using assms(1) tk0 h tk1 timed
    by (cases out) (auto simp: dispatch_def Let_def split: prod.splits intro!: logged)
qed

lemma chat_reachable:
  assumes "chat deps rid req b gw = ((r, sp), gw')" and "reachable deps policies (gw, ps)"
  shows "reachable deps policies (gw', started r @ ps)"
proof -
  obtain out gw1 where c: "chat_start deps rid req gw = (out, gw1)" by (cases "chat_start deps rid req gw")
  show ?thesis
  proof (cases out)
    case (Inl rs)
    with c assms(1) have "gw' = gw1" "rs = (r, sp)" by (simp_all add: chat_def)
    moreover have "started r = []"
    proof -
      from c Inl \<open>rs = (r, sp)\<close> obtain e where "r = reject rid e" by (auto simp: chat_start_def split: prod.splits sum.splits)
      then show ?thesis by (cases e) auto
    qed
    ultimately show ?thesis using reach_step [OF assms(2) chat_rejected] c Inl by simp
  next
    case (Inr cx)
    with c assms(1) have "chat_body deps cx b gw1 = ((r, sp), gw')" by (simp add: chat_def)
    from reach_step [OF reach_step [OF assms(2) chat_admitted [OF c [unfolded Inr]]] chat_continues [OF _ this]]
    show ?thesis by simp
  qed
qed

lemma admin_endpoint_reachable:
  assumes "admin_endpoint deps req params b gw = (r, gw')" and "reachable deps policies (gw, ps)"
    and "map_of params ''tenant_id'' = Some tid"
  shows "reachable deps policies (gw', started r @ ps)"
proof -
  obtain out gw1 where c: "admin_start deps (request_id_of req) req gw = (out, gw1)"
    by (cases "admin_start deps (request_id_of req) req gw")
  show ?thesis
  proof (cases out)
    case (Inl rs)
    with c assms(1) have "gw' = gw1" "rs = r" by (simp_all add: admin_endpoint_def)
    moreover have "started r = []"
    proof -
      from c Inl \<open>rs = r\<close> obtain e where "r = reject (request_id_of req) e"
        by (auto simp: admin_start_def Let_def split: prod.splits sum.splits)
      then show ?thesis by (cases e) auto
    qed
    ultimately show ?thesis using reach_step [OF assms(2) admin_rejected] c Inl by simp
  next
    case (Inr i)
    with c assms(1, 3) have body: "admin_body deps (request_id_of req) i tid b gw1 = (r, gw')" by (simp add: admin_endpoint_def)
    then have "started r = []" by (auto simp: admin_body_def Let_def split: option.splits sum.splits)
    with reach_step [OF reach_step [OF assms(2) admin_admitted [OF c [unfolded Inr], of ps tid]] admin_continues [OF _ body]]
    show ?thesis by simp
  qed
qed

lemma app_handler_reachable:
  assumes "app_handler deps matches req b gw = (r, gw')" and "reachable deps policies (gw, ps)" and "matches_documented matches"
  shows "reachable deps policies (gw', started r @ ps)"
proof (cases "matches app_routes (hr_method req) (hr_path req)")
  case (Inl j)
  with assms(1, 2) show ?thesis by (auto simp: app_handler_def)
next
  case (Inr ep)
  obtain e params where ep: "ep = (e, params)" by (cases ep)
  show ?thesis
  proof (cases e)
    case Healthz
    with assms(1, 2) Inr ep show ?thesis by (auto simp: app_handler_def endpoint_handler_def)
  next
    case Chat
    with assms(1) Inr ep obtain sp where "chat deps (request_id_of req) req b gw = ((r, sp), gw')"
      by (auto simp: app_handler_def endpoint_handler_def split: prod.splits)
    from chat_reachable [OF this assms(2)] show ?thesis .
  next
    case SetTenantState
    with assms(3) Inr ep obtain tid where t: "map_of params ''tenant_id'' = Some tid" unfolding matches_documented_def by blast
    from SetTenantState assms(1) Inr ep have "admin_endpoint deps req params b gw = (r, gw')"
      by (simp add: app_handler_def endpoint_handler_def)
    from admin_endpoint_reachable [OF this assms(2) t] show ?thesis .
  qed
qed

section \<open>Where a crash can come from\<close>

definition admission_crashes :: "'key deps \<Rightarrow> http_request \<Rightarrow> string \<Rightarrow> bool" where
  "admission_crashes deps req t \<longleftrightarrow>
     (\<exists>gw sp. fst (chat_start deps (request_id_of req) req gw) = Inl (Unhandled t, sp)) \<or>
     (\<exists>gw. fst (admin_start deps (request_id_of req) req gw) = Inl (Unhandled t))"

fun structured :: "json \<Rightarrow> bool" where
  "structured (JArr vs) \<longleftrightarrow> True"
| "structured (JObj d) \<longleftrightarrow> True"
| "structured v \<longleftrightarrow> False"

text \<open>
  The requests that can crash: no platform principal, and a bearer token whose verification lets an exception
  out (the JWKS verifier can, the other one only if PyJWT raises one that is none of the two it documents),
  or that is valid with a tenant claim that is a list or an object.
\<close>

definition crashing_token :: "'key deps \<Rightarrow> http_request \<Rightarrow> bool" where
  "crashing_token deps req \<longleftrightarrow> hr_principal_arn req \<in> {None, Some []} \<and>
     (\<exists>h vw. hr_authorization req = Some h \<and> prefix BEARER h \<and>
        (case fst (app_verify deps vw (strip (drop (length BEARER) h))) of
           Inl (Auth e) \<Rightarrow> False
         | Inl (Escapes e) \<Rightarrow> oidc_jwks_url (dp_settings deps) \<noteq> [] \<or>
             jwt_decode (dp_jwt deps) (strip (drop (length BEARER) h)) (dp_static_key deps)
               (decode_args (oidc_issuer (dp_settings deps)) (oidc_audience (dp_settings deps))) = Inl (DecodeRaises e)
         | Inr claims \<Rightarrow> structured (dict_get claims ''tenant_id'')))"

lemma app_verify_escape:
  "fst (app_verify deps vw tok) = Inl (Escapes e) \<Longrightarrow> oidc_jwks_url (dp_settings deps) \<noteq> [] \<or>
     jwt_decode (dp_jwt deps) tok (dp_static_key deps)
       (decode_args (oidc_issuer (dp_settings deps)) (oidc_audience (dp_settings deps))) = Inl (DecodeRaises e)"
  by (auto simp: app_verify_def static_verify_def decode_token_def oidc_cfg_def
      split: prod.splits if_splits sum.splits decode_error.splits)

lemma authenticate_crash:
  assumes "authenticate (app_verify deps) vw (Some (dp_iam deps)) (hr_authorization req) (hr_principal_arn req) acc = (Inl (Crash t), vw')"
  shows "crashing_token deps req"
proof -
  from assms have none: "hr_principal_arn req \<in> {None, Some []}"
    by (auto simp: authenticate_def authenticate_iam_def split: option.splits list.splits sum.splits)
  with assms obtain h where h: "hr_authorization req = Some h" "prefix BEARER h"
    by (auto simp: authenticate_def missing_bearer_def split: option.splits if_splits)
  with none assms obtain e where "fst (app_verify deps vw (strip (drop (length BEARER) h))) = Inl (Escapes e)"
    by (auto simp: authenticate_def missing_bearer_def Let_def split: if_splits prod.splits sum.splits verify_error.splits)
  with none h app_verify_escape [OF this] show ?thesis
    unfolding crashing_token_def by (intro conjI exI [of _ h] exI [of _ vw]) simp_all
qed

lemma authenticate_structured:
  assumes "authenticate (app_verify deps) vw (Some (dp_iam deps)) (hr_authorization req) (hr_principal_arn req) acc = (Inr i, vw')"
    and "structured (id_tenant_id i)"
  shows "crashing_token deps req"
proof -
  from assms have none: "hr_principal_arn req \<in> {None, Some []}"
    by (auto simp: authenticate_def authenticate_iam_def split: option.splits list.splits sum.splits)
  with assms obtain h where h: "hr_authorization req = Some h" "prefix BEARER h"
    by (auto simp: authenticate_def missing_bearer_def split: option.splits if_splits)
  with none assms(1) obtain claims where c: "fst (app_verify deps vw (strip (drop (length BEARER) h))) = Inr claims"
    "identity_from_claims claims = Inr i"
    by (auto simp: authenticate_def missing_bearer_def Let_def split: if_splits prod.splits sum.splits verify_error.splits)
  from c(2) assms(2) have "structured (dict_get claims ''tenant_id'')"
    by (auto simp: identity_from_claims_def Let_def split: if_splits option.splits)
  with none h c(1) show ?thesis
    unfolding crashing_token_def by (intro conjI exI [of _ h] exI [of _ vw]) simp_all
qed

lemma resolve_policy_crash: "fst (resolve_policy fr ttl_s fetch snaps i tc ts) = Inl (Crash t) \<Longrightarrow> structured (id_tenant_id i)"
  by (cases "id_tenant_id i") (auto simp: resolve_policy_def not_provisioned_def split: prod.splits sum.splits)

lemma later_stages_no_crash:
  "authorize i role \<noteq> Inl (Crash t)" "enforce_kill_switch p \<noteq> Inl (Crash t)" "fst (enforce_rate_limit p l now) \<noteq> Inl (Crash t)"
  by (auto simp: authorize_def enforce_kill_switch_def enforce_rate_limit_def Let_def split: sum.split prod.split)

lemma chat_admit_crash:
  assumes "fst (chat_admit deps req gw) = Inl (Crash t)"
  shows "crashing_token deps req"
proof -
  obtain auth v w where a: "authenticate (app_verify deps) (gw_verifier gw, gw_world gw) (Some (dp_iam deps))
      (hr_authorization req) (hr_principal_arn req) (hr_account_id req) = (auth, v, w)" by (metis prod_cases3)
  show ?thesis
  proof (cases auth)
    case (Inl e)
    with assms a have "e = Crash t" by (simp add: chat_admit_def)
    with a Inl authenticate_crash show ?thesis by blast
  next
    case (Inr i)
    have "\<exists>fr ttl_s fetch snaps tc ts. fst (resolve_policy fr ttl_s fetch snaps i tc ts) = Inl (Crash t)"
      using assms a Inr later_stages_no_crash
      by (auto simp: chat_admit_def Let_def split: prod.splits sum.splits) (metis fst_conv)+
    with resolve_policy_crash a Inr authenticate_structured show ?thesis by metis
  qed
qed

lemma admission_crash_token:
  assumes "admission_crashes deps req t"
  shows "crashing_token deps req"
  using assms unfolding admission_crashes_def
proof (elim disjE exE)
  fix gw sp assume "fst (chat_start deps (request_id_of req) req gw) = Inl (Unhandled t, sp)"
  then obtain e where e: "fst (chat_admit deps req gw) = Inl e" "reject (request_id_of req) e = Unhandled t"
    by (auto simp: chat_start_def split: prod.splits sum.splits)
  then have "e = Crash t" by (cases e) auto
  with e chat_admit_crash show ?thesis by blast
next
  fix gw assume s: "fst (admin_start deps (request_id_of req) req gw) = Inl (Unhandled t)"
  obtain auth v w where a: "authenticate (app_verify deps) (gw_verifier gw, gw_world gw) (Some (dp_iam deps))
      (hr_authorization req) (hr_principal_arn req) (hr_account_id req) = (auth, v, w)" by (metis prod_cases3)
  have "auth = Inl (Crash t)"
  proof -
    from s a obtain e where e: "auth = Inl e \<or> (\<exists>i. authorize i (admin_required_role (dp_settings deps)) = Inl e)"
      "auth = Inl e \<or> (\<exists>i. auth = Inr i)" "reject (request_id_of req) e = Unhandled t"
      by (auto simp: admin_start_def Let_def split: sum.splits)
    from e(3) have "e = Crash t" by (cases e) auto
    with e later_stages_no_crash(1) show ?thesis by blast
  qed
  with a authenticate_crash show ?thesis by blast
qed

lemma admin_body_no_crash: "fst (admin_body deps rid i tid b gw) \<noteq> Unhandled exc"
  by (auto simp: admin_body_def Let_def split: option.split sum.split)

lemma app_handler_crash:
  assumes "app_handler deps matches req b gw = (Unhandled exc, gw')" and "reachable deps policies (gw, ps)"
    and "matches_documented matches" and "0 \<le> response_cache_max_entries (dp_settings deps)"
  shows "admission_crashes deps req exc"
proof (cases "matches app_routes (hr_method req) (hr_path req)")
  case (Inl j)
  with assms(1) show ?thesis by (simp add: app_handler_def)
next
  case (Inr ep)
  obtain e params where ep: "ep = (e, params)" by (cases ep)
  show ?thesis
  proof (cases e)
    case Healthz
    with assms(1) Inr ep show ?thesis by (auto simp: app_handler_def endpoint_handler_def)
  next
    case Chat
    with assms(1) Inr ep obtain sp where c: "chat deps (request_id_of req) req b gw = ((Unhandled exc, sp), gw')"
      by (auto simp: app_handler_def endpoint_handler_def split: prod.splits)
    obtain out gw1 where st: "chat_start deps (request_id_of req) req gw = (out, gw1)"
      by (cases "chat_start deps (request_id_of req) req gw")
    show ?thesis
    proof (cases out)
      case Inl: (Inl rs)
      with c st show ?thesis unfolding admission_crashes_def by (auto simp: chat_def intro!: exI [of _ gw])
    next
      case Inr: (Inr cx)
      from reach_step [OF assms(2) chat_admitted [OF st [unfolded Inr]]]
      have "fst (fst (chat_body deps cx b gw1)) \<noteq> Unhandled exc" by (rule body_no_crash [OF _ assms(4)])
      with c st Inr show ?thesis by (simp add: chat_def)
    qed
  next
    case SetTenantState
    with assms(3) Inr ep obtain tid where t: "map_of params ''tenant_id'' = Some tid" unfolding matches_documented_def by blast
    from SetTenantState assms(1) Inr ep have c: "admin_endpoint deps req params b gw = (Unhandled exc, gw')"
      by (simp add: app_handler_def endpoint_handler_def)
    obtain out gw1 where st: "admin_start deps (request_id_of req) req gw = (out, gw1)"
      by (cases "admin_start deps (request_id_of req) req gw")
    show ?thesis
    proof (cases out)
      case Inl: (Inl r)
      with c st show ?thesis unfolding admission_crashes_def by (auto simp: admin_endpoint_def intro!: exI [of _ gw])
    next
      case Inr: (Inr i)
      with c st t admin_body_no_crash [of deps "request_id_of req" i tid b gw1 exc] show ?thesis
        by (simp add: admin_endpoint_def)
    qed
  qed
qed

lemma dispatch_handler_crash:
  assumes "dispatch deps req handler gw = (r, None, gw')"
  shows "\<exists>exc g. handler (gw\<lparr>gw_world := snd (tick deps (gw_world gw))\<rparr>) = (Unhandled exc, g)"
  using assms by (auto simp: dispatch_def Let_def split: prod.splits http_response.splits)

section \<open>A matcher and a request to instantiate with\<close>

definition sample_matches :: matcher where
  "sample_matches rs m p =
     (case find (\<lambda>r. rt_path r = p \<and> m \<in> set (rt_methods r)) rs of
        None \<Rightarrow> Inl \<lparr>status_code = 404, body = JStr ''Not Found''\<rparr>
      | Some r \<Rightarrow> Inr (rt_endpoint r, [(''tenant_id'', ''acme'')]))"

lemma sample_matches_documented: "matches_documented sample_matches"
  by (fastforce simp: matches_documented_def sample_matches_def find_Some_iff in_set_conv_nth split: option.splits)

section \<open>Properties\<close>

text \<open>
  C15: every request is answered once and logged once. Whatever the request, the body, the state and the
  answers of everything outside, serving it ends with a response and not with an exception, adds exactly
  one line to the access log, with the status of that response, and echoes the request id, unless a handler
  crashed: then the caller gets the opaque 500 and no header.
\<close>

theorem every_request_answered_and_logged:
  assumes "serve deps matches req b gw = (r, hdr, gw')"
  shows "r \<noteq> Unhandled exc \<and>
    (\<exists>d. filter (\<lambda>l. lg_logger l = ''gateway.access'') (gw_logs gw') =
           filter (\<lambda>l. lg_logger l = ''gateway.access'') (gw_logs gw) @ [access_log req (status_of r) d]) \<and>
    (hdr = Some (request_id_of req) \<or>
     hdr = None \<and> r = Json (error_response 500 ''INTERNAL_ERROR'' ''internal error'' (request_id_of req)))"
  using dispatch_spec [OF assms [unfolded serve_def] access_app_handler]
  by (auto simp: access_lines_def unhandled_error_def)

lemma every_request_answered_and_logged_witness:
  "\<exists>r hdr gw' d. serve (sample_deps id allow_all) sample_matches sample_request None (create_app sample_policies) = (r, hdr, gw') \<and>
     filter (\<lambda>l. lg_logger l = ''gateway.access'') (gw_logs gw') = [access_log sample_request (status_of r) d]"
proof -
  obtain r hdr gw' where s: "serve (sample_deps id allow_all) sample_matches sample_request None (create_app sample_policies) = (r, hdr, gw')"
    by (metis prod_cases3)
  from every_request_answered_and_logged [OF s] s show ?thesis by (auto simp: create_app_def)
qed

text \<open>
  C14: only a token can crash a request. With a cache bound that is not negative, a request whose handler
  crashed (it gets no \<open>x-request-id\<close>) carried no platform principal but a bearer token, and either the JWKS
  verifier let an exception out, or PyJWT itself raised one that is no token error, or the token is valid and its tenant claim is a list or an object. The model, a
  guardrail client that raises nothing but its own error, the stores, the router and the admin change never crash
  a request, in any reachable state.
\<close>

theorem only_tokens_crash:
  assumes "serve deps matches req b gw = (r, hdr, gw')" and "reachable deps policies (gw, ps)"
    and "matches_documented matches" and "0 \<le> response_cache_max_entries (dp_settings deps)"
  shows "hdr = Some (request_id_of req) \<or>
    hr_principal_arn req \<in> {None, Some []} \<and>
    (\<exists>h vw. hr_authorization req = Some h \<and> prefix BEARER h \<and>
       (case fst (app_verify deps vw (strip (drop (length BEARER) h))) of
          Inl (Auth e) \<Rightarrow> False
        | Inl (Escapes e) \<Rightarrow> oidc_jwks_url (dp_settings deps) \<noteq> [] \<or>
             jwt_decode (dp_jwt deps) (strip (drop (length BEARER) h)) (dp_static_key deps)
               (decode_args (oidc_issuer (dp_settings deps)) (oidc_audience (dp_settings deps))) = Inl (DecodeRaises e)
        | Inr claims \<Rightarrow> structured (dict_get claims ''tenant_id'')))"
proof (cases hdr)
  case None
  with assms(1) have "dispatch deps req (app_handler deps matches req b) gw = (r, None, gw')" by (simp add: serve_def)
  from dispatch_handler_crash [OF this] obtain exc g where
    h: "app_handler deps matches req b (gw\<lparr>gw_world := snd (tick deps (gw_world gw))\<rparr>) = (Unhandled exc, g)" by blast
  from admission_crash_token [OF app_handler_crash [OF h reach_step [OF assms(2) clock_read] assms(3, 4)]]
  show ?thesis unfolding crashing_token_def by blast
next
  case (Some rid)
  with dispatch_spec [OF assms(1) [unfolded serve_def] access_app_handler] show ?thesis by auto
qed

lemma only_tokens_crash_witness:
  "\<exists>r gw'. serve (sample_deps id allow_all) sample_matches sample_request (Some sample_body) (create_app sample_policies) =
     (r, Some ''r1'', gw')"
proof -
  obtain r hdr gw' where s: "serve (sample_deps id allow_all) sample_matches sample_request (Some sample_body)
      (create_app sample_policies) = (r, hdr, gw')" by (metis prod_cases3)
  from only_tokens_crash [OF s reach_init sample_matches_documented] s show ?thesis
    by (simp add: request_id_of_def sample_request_def)
qed

section \<open>Tenant claims that are no string\<close>







section \<open>Serving composes\<close>

text \<open>
  A request served from end to end without another one in between leads from a reachable state of the event
  loop to a reachable one, in which only its stream, if it got one, is pending beyond what was: every property
  of reachable states holds of any sequence of served requests.
\<close>

lemma serve_reachable:
  assumes "serve deps matches req b gw = (r, hdr, gw')" and "reachable deps policies (gw, ps)" and "matches_documented matches"
  shows "reachable deps policies (gw', started r @ ps)"
  by (rule dispatch_reachable [OF assms(1) [unfolded serve_def] assms(2)]) (rule app_handler_reachable [OF _ _ assms(3)])

end
