(* ===== verification/Load_Scenarios.thy ===== *)
theory Load_Scenarios
  imports Router Guardrails Dev_Keys Policy_Store
begin

text \<open>
  The load-test harness, \<open>loadtests/fault_injection.py\<close> and the parts of \<open>loadtests/harness.py\<close> that decide
  something: the fault-injecting model client and guardrail with their counters, the policies and tokens
  of a scenario, and the burst of \<open>fire_concurrent\<close>. Handlers do not interleave inside a model call, so
  the model part of a burst is a sequence. \<open>rand\<close> answers the i-th \<open>random.random()\<close>. What the throttling
  scenario samples is proved for every burst length, threshold and clock; the scenarios over the whole app
  are in \<open>Fault_Scenarios\<close>.
\<close>

section \<open>fault\_injection.py\<close>

record fault_client =
  throttle_rate :: py_float
  response_text :: string
  total_calls :: nat
  throttled_calls :: nat
  calls_by_model :: "string \<rightharpoonup> nat"

definition new_fault_client :: "py_float \<Rightarrow> string \<Rightarrow> fault_client" where
  "new_fault_client rate said =
     \<lparr>throttle_rate = rate, response_text = said, total_calls = 0, throttled_calls = 0, calls_by_model = Map.empty\<rparr>"

definition throttled_error :: invocation_error where
  "throttled_error = BedrockInvocationError ''throttled'' ''ThrottlingException'' True"

definition fault_converse ::
  "(nat \<Rightarrow> py_float) \<Rightarrow> string \<Rightarrow> fault_client \<Rightarrow> (client_error + converse_result) \<times> fault_client" where
  "fault_converse rand model_id fc =
     (let throttle = rand (total_calls fc) < throttle_rate fc;
          seen = (case calls_by_model fc model_id of None \<Rightarrow> 0 | Some k \<Rightarrow> k);
          fc = fc\<lparr>total_calls := total_calls fc + 1, calls_by_model := (calls_by_model fc)(model_id \<mapsto> seen + 1)\<rparr>;
          fc = (if throttle then fc\<lparr>throttled_calls := throttled_calls fc + 1\<rparr> else fc)
      in (if throttle then Inl (Invocation throttled_error)
          else Inr \<lparr>res_text = response_text fc, res_input_tokens = 5, res_output_tokens = 5,
                    res_stop_reason = Some ''end_turn'', res_latency_ms = 1, res_retry_count = 0\<rparr>, fc))"

text \<open>\<open>AlwaysAllowGuardrailClient\<close>, and the output side of \<open>FlakyGuardrailClient\<close>.\<close>

definition always_allow :: "string \<Rightarrow> string \<Rightarrow> string + guardrail_decision" where
  "always_allow text gp = Inr allow_decision"

record flaky_guardrail =
  failure_rate :: py_float
  input_checks :: nat
  failures :: nat

definition flaky_check_input ::
  "(nat \<Rightarrow> py_float) \<Rightarrow> string \<Rightarrow> string \<Rightarrow> flaky_guardrail \<Rightarrow> (string + guardrail_decision) \<times> flaky_guardrail" where
  "flaky_check_input rand text gp g =
     (let fail = rand (input_checks g) < failure_rate g;
          g = g\<lparr>input_checks := input_checks g + 1\<rparr>
      in if fail then (Inl ''simulated guardrail backend unavailable'', g\<lparr>failures := failures g + 1\<rparr>)
         else (Inr allow_decision, g))"

section \<open>harness.py\<close>

definition ISSUER :: string where "ISSUER = ''https://loadtest-issuer.local/''"

definition AUDIENCE :: string where "AUDIENCE = ''bedrock-gateway''"

text \<open>\<open>ScenarioApp.token\<close> and \<open>auth_header\<close>; \<open>roles or ["developer"]\<close>.\<close>

definition scenario_token ::
  "((string \<times> json) list \<Rightarrow> json \<Rightarrow> string \<Rightarrow> py_exn + string) \<Rightarrow> string \<Rightarrow> string \<Rightarrow> string list option \<Rightarrow> string \<Rightarrow> py_float \<Rightarrow> py_exn + string" where
  "scenario_token encode private_key_pem tid roles sub time =
     mint_dev_token encode (JStr private_key_pem) ISSUER AUDIENCE sub tid ''loadtest''
       (case roles of None \<Rightarrow> [''developer''] | Some rs \<Rightarrow> if rs = [] then [''developer''] else rs) 3600 time"

definition auth_header ::
  "((string \<times> json) list \<Rightarrow> json \<Rightarrow> string \<Rightarrow> py_exn + string) \<Rightarrow> string \<Rightarrow> string \<Rightarrow> string list option \<Rightarrow> py_float \<Rightarrow> py_exn + (string \<times> string) list" where
  "auth_header encode private_key_pem tid roles time =
     bind_r (scenario_token encode private_key_pem tid roles ''load-test-user'' time) (\<lambda>token.
     Inr [(''authorization'', ''Bearer '' @ token)])"

definition admin_header ::
  "((string \<times> json) list \<Rightarrow> json \<Rightarrow> string \<Rightarrow> py_exn + string) \<Rightarrow> string \<Rightarrow> py_float \<Rightarrow> py_exn + (string \<times> string) list" where
  "admin_header encode private_key_pem time = auth_header encode private_key_pem ''platform'' (Some [''platform_admin'']) time"

text \<open>\<open>overrides\<close> are the keyword arguments, as an update of the defaults.\<close>

definition default_tenant_policy :: "string \<Rightarrow> (tenant_policy \<Rightarrow> tenant_policy) \<Rightarrow> tenant_policy" where
  "default_tenant_policy tid overrides =
     overrides \<lparr>tenant_id = tid, state = ACTIVE, models = [], rpm_limit = 10000, guardrail_policy = ''standard-v1'',
       route_set = None, slo_p95_latency_ms = None, policy_epoch = 1, allow_guardrail_bypass_on_error = False,
       debug_capture_enabled = False\<rparr>"

text \<open>
  \<open>fire_concurrent\<close>: every invocation runs and gives its result, an exception being a result too. The
  invocations that the scenarios gather do not give way between reading and writing what they share, so
  a gathering is one of their sequences; \<open>f i\<close> is the i-th invocation.
\<close>

primrec fire_concurrent :: "(nat \<Rightarrow> 's \<Rightarrow> 'o \<times> 's) \<Rightarrow> nat \<Rightarrow> 's \<Rightarrow> 'o list \<times> 's" where
  "fire_concurrent f 0 s = ([], s)"
| "fire_concurrent f (Suc n) s =
     (let (out, s) = f 0 s; (outs, s) = fire_concurrent (\<lambda>i. f (i + 1)) n s in (out # outs, s))"

section \<open>A burst at a tenant without route set\<close>

text \<open>The world of a scenario: the fault client and the number of clock readings.\<close>

type_synonym scenario = "fault_client \<times> nat"

definition scenario_client :: "(nat \<Rightarrow> py_float) \<Rightarrow> string \<Rightarrow> scenario \<Rightarrow> (client_error + converse_result) \<times> scenario" where
  "scenario_client rand m w = (let (answer, fc) = fault_converse rand m (fst w) in (answer, fc, snd w))"

definition scenario_clock :: "(nat \<Rightarrow> py_float) \<Rightarrow> scenario \<Rightarrow> py_float \<times> scenario" where
  "scenario_clock clk w = (clk (snd w), fst w, snd w + 1)"

definition burst ::
  "breaker_config \<Rightarrow> (nat \<Rightarrow> py_float) \<Rightarrow> (nat \<Rightarrow> py_float) \<Rightarrow> string \<Rightarrow> nat \<Rightarrow> breakers \<Rightarrow> scenario \<Rightarrow>
   (route_error + routed_result) list \<times> breakers \<times> scenario" where
  "burst cfg rand clk m n br w =
     fire_concurrent (\<lambda>i (br, w). router_converse cfg Map.empty (scenario_client rand) (scenario_clock clk) m None br w)
       n (br, w)"

lemma burst_simps [simp]:
  "burst cfg rand clk m 0 br w = ([], br, w)"
  "burst cfg rand clk m (Suc n) br w =
     (let (out, br, w) = router_converse cfg Map.empty (scenario_client rand) (scenario_clock clk) m None br w;
          (outs, br, w) = burst cfg rand clk m n br w
      in (out # outs, br, w))"
  by (simp_all add: burst_def split_beta Let_def)

text \<open>The counters after a throttled call.\<close>

definition bumped :: "string \<Rightarrow> fault_client \<Rightarrow> fault_client" where
  "bumped m fc = fc\<lparr>total_calls := total_calls fc + 1, throttled_calls := throttled_calls fc + 1,
     calls_by_model := (calls_by_model fc)(m \<mapsto> (case calls_by_model fc m of None \<Rightarrow> 0 | Some k \<Rightarrow> k) + 1)\<rparr>"

lemma bumped_simps [simp]:
  "total_calls (bumped m fc) = total_calls fc + 1" "throttled_calls (bumped m fc) = throttled_calls fc + 1"
  "throttle_rate (bumped m fc) = throttle_rate fc"
  by (simp_all add: bumped_def)

lemma fault_converse_throttled:
  "rand (total_calls fc) < throttle_rate fc \<Longrightarrow> fault_converse rand m fc = (Inl (Invocation throttled_error), bumped m fc)"
  by (simp add: fault_converse_def bumped_def Let_def)

lemma request_closed:
  assumes "br_state (cb_slot br m) = CLOSED" "rand (total_calls fc) < throttle_rate fc"
  shows "router_converse cfg Map.empty (scenario_client rand) (scenario_clock clk) m None br (fc, k) =
    (Inl (Failed throttled_error), cb_record_failure cfg (br(m \<mapsto> cb_slot br m)) m (clk (k + 1)), bumped m fc, k + 2)"
  using assms
  by (simp add: router_converse_def candidates_def fallbacks_for_def scenario_client_def scenario_clock_def
      fault_converse_throttled cb_allow_def Let_def)

lemma request_open:
  assumes "br_state (cb_slot br m) = OPEN" "clk k - opened_at (cb_slot br m) < reset_timeout_s cfg"
  shows "router_converse cfg Map.empty (scenario_client rand) (scenario_clock clk) m None br (fc, k) =
    (Inl (AllRoutesUnavailable None), br(m \<mapsto> cb_slot br m), fc, k + 1)"
  using assms
  by (simp add: router_converse_def candidates_def fallbacks_for_def scenario_client_def scenario_clock_def cb_allow_def Let_def)

lemma scenario_burst_open:
  assumes "\<And>k. begun \<le> clk k \<and> clk k < begun + reset_timeout_s cfg"
    and "br_state (cb_slot br m) = OPEN" "begun \<le> opened_at (cb_slot br m)"
  shows "\<exists>br' k'. burst cfg rand clk m n br (fc, k) = (replicate n (Inl (AllRoutesUnavailable None)), br', fc, k') \<and>
    br_state (cb_slot br' m) = OPEN"
  using assms(2, 3)
proof (induction n arbitrary: br k)
  case (Suc n)
  have fresh: "clk k - opened_at (cb_slot br m) < reset_timeout_s cfg" using assms(1) [of k] Suc.prems(2) by linarith
  define br1 where "br1 = br(m \<mapsto> cb_slot br m)"
  have slot: "cb_slot br1 m = cb_slot br m" by (simp add: br1_def cb_slot_def)
  note step = request_open [where br = br and m = m and clk = clk and k = k and cfg = cfg, OF Suc.prems(1) fresh, folded br1_def]
  from Suc.IH [where br = br1 and k = "k + 1"] Suc.prems show ?case by (auto simp: step slot)
qed simp

lemma scenario_burst_closed:
  assumes window: "\<And>k. begun \<le> clk k \<and> clk k < begun + reset_timeout_s cfg" and rand: "\<And>k. rand k < throttle_rate fc"
    and "br_state (cb_slot br m) = CLOSED" "consecutive_failures (cb_slot br m) < failure_threshold cfg"
  shows "\<exists>br' fc' k'. burst cfg rand clk m n br (fc, k) =
      (replicate (min n (nat (failure_threshold cfg - consecutive_failures (cb_slot br m)))) (Inl (Failed throttled_error)) @
       replicate (n - nat (failure_threshold cfg - consecutive_failures (cb_slot br m))) (Inl (AllRoutesUnavailable None)), br', fc', k') \<and>
    total_calls fc' = total_calls fc + min n (nat (failure_threshold cfg - consecutive_failures (cb_slot br m)))"
  using assms(2-4)
proof (induction n arbitrary: br fc k)
  case (Suc n)
  let ?b = "cb_slot br m" and ?br = "cb_record_failure cfg (br(m \<mapsto> cb_slot br m)) m (clk (k + 1))"
  note step = request_closed [where br = br and m = m and rand = rand and fc = fc and clk = clk and k = k and cfg = cfg,
      OF Suc.prems(2, 1)]
  have slot: "cb_slot ?br m = (if failure_threshold cfg \<le> consecutive_failures ?b + 1
      then ?b\<lparr>consecutive_failures := consecutive_failures ?b + 1, br_state := OPEN, opened_at := clk (k + 1)\<rparr>
      else ?b\<lparr>consecutive_failures := consecutive_failures ?b + 1\<rparr>)"
    using Suc.prems(2) by (simp add: cb_record_failure_def cb_slot_def Let_def)
  show ?case
  proof (cases "failure_threshold cfg \<le> consecutive_failures ?b + 1")
    case True
    with Suc.prems(3) have one: "nat (failure_threshold cfg - consecutive_failures ?b) = 1" by linarith
    from True slot have "br_state (cb_slot ?br m) = OPEN" "opened_at (cb_slot ?br m) = clk (k + 1)" by simp_all
    with scenario_burst_open [where br = ?br and m = m and rand = rand and n = n and fc = "bumped m fc" and k = "k + 2"
        and clk = clk and cfg = cfg and begun = begun, OF window] window [of "k + 1"] show ?thesis
      by (auto simp: step one)
  next
    case False
    with slot Suc.prems(2) have b: "br_state (cb_slot ?br m) = CLOSED"
      "consecutive_failures (cb_slot ?br m) = consecutive_failures ?b + 1" by simp_all
    from False have count: "nat (failure_threshold cfg - consecutive_failures ?b) =
        Suc (nat (failure_threshold cfg - (consecutive_failures ?b + 1)))" by linarith
    from Suc.IH [where fc = "bumped m fc" and br = ?br and k = "k + 2"] Suc.prems(1) False b show ?thesis
      by (auto simp: step count)
  qed
qed simp

text \<open>
  C28: the throttling scenario, for every size. When a model throttles every call, a burst of requests
  inside one reset window calls it exactly \<open>failure_threshold\<close> times (or once per request, if there are
  fewer); those requests fail with the throttling error and all later ones with
  \<open>AllRoutesUnavailableError\<close>, none of them having called the model.
\<close>

theorem throttled_burst:
  assumes "\<And>k. begun \<le> clk k \<and> clk k < begun + reset_timeout_s cfg" and "\<And>k. 0 \<le> rand k \<and> rand k < 1"
    and "1 \<le> rate" and "0 < failure_threshold cfg"
  shows "case burst cfg rand clk m n Map.empty (new_fault_client rate said, 0) of (outs, br, fc, k) \<Rightarrow>
     outs = replicate (min n (nat (failure_threshold cfg))) (Inl (Failed throttled_error)) @
       replicate (n - nat (failure_threshold cfg)) (Inl (AllRoutesUnavailable None)) \<and>
     total_calls fc = min n (nat (failure_threshold cfg))"
proof -
  have "rand k < throttle_rate (new_fault_client rate said)" for k
    using assms(2) [of k] assms(3) by (simp add: new_fault_client_def)
  from scenario_burst_closed [where clk = clk and rand = rand and cfg = cfg and begun = begun and br = Map.empty and m = m
      and n = n and k = 0 and fc = "new_fault_client rate said", OF assms(1) this] assms(4)
  show ?thesis by (auto simp: cb_slot_def new_breaker_def new_fault_client_def)
qed

lemma throttled_burst_witness:
  "case burst \<lparr>failure_threshold = 5, reset_timeout_s = 3600\<rparr> (\<lambda>_. 0) (\<lambda>_. 7) ''m'' 40 Map.empty (new_fault_client 1 ''ok'', 0) of
     (outs, br, fc, k) \<Rightarrow> total_calls fc = 5 \<and>
       outs = replicate 5 (Inl (Failed throttled_error)) @ replicate 35 (Inl (AllRoutesUnavailable None))"
  using throttled_burst [where begun = "7" and clk = "\<lambda>_. 7" and cfg = "\<lparr>failure_threshold = 5, reset_timeout_s = 3600\<rparr>"
      and rand = "\<lambda>_. 0" and rate = "1" and m = "''m''" and n = "40" and said = "''ok''"]
  by (auto split: prod.splits)

end
