(* ===== verification/Fault_Scenarios.thy ===== *)
theory Fault_Scenarios
  imports App Load_Scenarios
begin

text \<open>
  The failure scenarios of the load tests over the whole application: \<open>build_scenario_app\<close> of
  \<open>loadtests/harness.py\<close>, a burst of requests as \<open>fire_concurrent\<close> gathers them, and what the kill-switch and
  the guardrail scenarios assert of one sample, proved for every state, burst size and request.
\<close>

section \<open>The scenario app\<close>

text \<open>
  The dev key verifier of the harness, its guardrail and its tenants over an environment; the settings hold
  the verifier's issuer and audience because \<open>app_verify\<close> reads them there.
\<close>

definition build_scenario_app ::
  "'key deps \<Rightarrow> 'key \<Rightarrow> policy_store \<Rightarrow> (nat \<Rightarrow> string \<Rightarrow> string \<Rightarrow> string + guardrail_decision) \<Rightarrow>
   (nat \<Rightarrow> string \<Rightarrow> string \<Rightarrow> string + guardrail_decision) \<Rightarrow> 'key deps \<times> 'key gateway" where
  "build_scenario_app env public_pem tenants check_in check_out =
     (env\<lparr>dp_settings := (dp_settings env)\<lparr>oidc_jwks_url := [], oidc_issuer := ISSUER, oidc_audience := AUDIENCE\<rparr>,
          dp_static_key := public_pem, dp_check_input := check_in, dp_check_output := check_out\<rparr>,
      create_app tenants)"

text \<open>What the scenarios post, with the header \<open>auth_header\<close> built.\<close>

definition scenario_request :: "string \<Rightarrow> string \<Rightarrow> (string \<times> string) list \<Rightarrow> string \<Rightarrow> http_request" where
  "scenario_request meth path headers uuid =
     \<lparr>hr_authorization = map_of headers ''authorization'', hr_principal_arn = None, hr_account_id = None,
      hr_request_id = None, hr_method = meth, hr_path = path, hr_uuid = uuid\<rparr>"

definition fire_requests ::
  "'key deps \<Rightarrow> matcher \<Rightarrow> (nat \<Rightarrow> http_request \<times> json option) \<Rightarrow> nat \<Rightarrow> 'key gateway \<Rightarrow> http_response list \<times> 'key gateway" where
  "fire_requests deps matches reqs n gw =
     fire_concurrent (\<lambda>i gw. let (r, _, gw) = serve deps matches (fst (reqs i)) (snd (reqs i)) gw in (r, gw)) n gw"

text \<open>What one invocation keeps and answers, a gathering keeps and answers.\<close>

lemma fire_concurrent_rule:
  assumes "fire_concurrent f n s = (outs, s')" "Q s"
    and "\<And>i s out s'. Q s \<Longrightarrow> f i s = (out, s') \<Longrightarrow> Q s' \<and> P i out"
  shows "Q s' \<and> length outs = n \<and> (\<forall>i < n. P i (outs ! i))"
  using assms
proof (induction n arbitrary: f s outs s' P)
  case (Suc n)
  obtain out s1 where f: "f 0 s = (out, s1)" by (cases "f 0 s")
  obtain outs1 s2 where r: "fire_concurrent (\<lambda>i. f (i + 1)) n s1 = (outs1, s2)" by (cases "fire_concurrent (\<lambda>i. f (i + 1)) n s1")
  from Suc.prems(1) f r have eqs: "outs = out # outs1" "s' = s2" by simp_all
  from Suc.prems(3) [OF Suc.prems(2) f] have one: "Q s1" "P 0 out" by blast+
  from Suc.IH [where P = "\<lambda>i. P (i + 1)", OF r one(1)] Suc.prems(3)
  have "Q s2 \<and> length outs1 = n \<and> (\<forall>i < n. P (i + 1) (outs1 ! i))" by blast
  with one eqs show ?case by (auto simp: less_Suc_eq_0_disj)
qed simp

section \<open>Who a request acts for\<close>

definition acts_for :: "'key deps \<Rightarrow> http_request \<Rightarrow> string \<Rightarrow> string \<Rightarrow> bool" where
  "acts_for deps req tid role \<longleftrightarrow>
     (\<forall>v w. \<exists>i v' w'. authenticate (app_verify deps) (v, w) (Some (dp_iam deps)) (hr_authorization req)
        (hr_principal_arn req) (hr_account_id req) = (Inr i, v', w') \<and>
        w_trace w' = w_trace w \<and> id_tenant_id i = JStr tid \<and> has_role i role)"

text \<open>A platform principal with a grant, and a token of the harness.\<close>

lemma iam_acts_for:
  assumes "hr_principal_arn req = Some (c # arn)" "iam_resolve (dp_iam deps) (c # arn) = Inr g"
    and "role \<in> set (grant_roles g)" "grant_tenant_id g = tid"
  shows "acts_for deps req tid role"
  using assms by (simp add: acts_for_def authenticate_def authenticate_iam_def has_role_def)

lemma scenario_acts_for:
  assumes "build_scenario_app env pub tenants check_in check_out = (deps, gw)"
    and "pair_round_trips encode (dp_jwt env) (JStr priv) pub later"
    and "auth_header encode priv tid roles time = Inr headers"
    and "int_of_float time \<le> later" "later < int_of_float time + 3600"
    and "tid \<noteq> []" "role \<in> set (case roles of None \<Rightarrow> [''developer''] | Some [] \<Rightarrow> [''developer''] | Some rs \<Rightarrow> rs)"
    and "\<And>claims token. encode claims (JStr priv) ''RS256'' = Inr token \<Longrightarrow> token \<noteq> [] \<and> strip token = token"
  shows "acts_for deps (scenario_request meth path headers uuid) tid role"
proof -
  define rs where "rs = (case roles of None \<Rightarrow> [''developer''] | Some rs \<Rightarrow> if rs = [] then [''developer''] else rs)"
  define claims where "claims = dev_claims ISSUER AUDIENCE ''load-test-user'' tid ''loadtest'' rs 3600 time"
  from assms(3) obtain token where t: "encode claims (JStr priv) ''RS256'' = Inr token" "headers = [(''authorization'', ''Bearer '' @ token)]"
    by (auto simp: auth_header_def scenario_token_def mint_dev_token_def claims_def rs_def bind_r_def split: sum.splits)
  have "int_of_float 3600 = 3600" by (simp add: int_of_float_def)
  with dev_claims_decode [OF assms(2) t(1) [unfolded claims_def] assms(4)] assms(5)
  have "decode_token (dp_jwt env) token pub ISSUER AUDIENCE = Inr claims" by (simp add: decode_token_Inr claims_def)
  with assms(1) have v: "app_verify deps (v, w) token = (Inr claims, v, w)" for v w
    by (auto simp: build_scenario_app_def app_verify_def static_verify_def oidc_cfg_def)
  have i: "identity_from_claims claims = Inr \<lparr>id_sub = JStr ''load-test-user'', id_tenant_id = JStr tid,
      id_application_id = JStr ''loadtest'', id_roles = rs, id_auth_type = ''jwt'', id_account_id = None\<rparr>"
    unfolding claims_def using assms(6) by (intro dev_claims_identity) simp_all
  have "role \<in> set rs" using assms(7) by (auto simp: rs_def split: option.splits list.splits)
  with assms(8) [OF t(1)] v i t(2) show ?thesis
    by (simp add: acts_for_def scenario_request_def authenticate_def BEARER_def has_role_def Let_def)
qed

section \<open>A blocked tenant\<close>

definition blocked_answer :: "tenant_policy \<Rightarrow> string \<Rightarrow> http_response" where
  "blocked_answer p rid = Json (error_response 403 ''TENANT_BLOCKED''
     (''tenant '' @ quoted (tenant_id p) @ '' is '' @ state_value (state p)) rid)"

lemma blocked_chat_start:
  assumes "acts_for deps req tid (chat_required_role (dp_settings deps))" "snapshots_agree gw"
    and "gw_policies gw tid = Some p" "state p \<in> BLOCKING_STATES"
  shows "\<exists>sp gw'. chat_start deps rid req gw = (Inl (blocked_answer p rid, sp), gw')"
proof -
  obtain i v w where a: "authenticate (app_verify deps) (gw_verifier gw, gw_world gw) (Some (dp_iam deps))
      (hr_authorization req) (hr_principal_arn req) (hr_account_id req) = (Inr i, v, w)"
    "id_tenant_id i = JStr tid" "has_role i (chat_required_role (dp_settings deps))"
    using assms(1) unfolding acts_for_def by blast
  obtain t1 w1 where t1: "tick deps w = (t1, w1)" by (cases "tick deps w")
  obtain t2 w2 where t2: "tick deps w1 = (t2, w2)" by (cases "tick deps w1")
  obtain res sn where g: "resolve_policy (dp_float_repr deps) (policy_cache_ttl_s (dp_settings deps))
      (store_get (gw_policies gw)) (gw_snapshots gw) i t1 t2 = (res, sn)" by fastforce
  have "res = Inr p"
  proof -
    obtain r sn' where pc: "pc_get (policy_cache_ttl_s (dp_settings deps)) (store_get (gw_policies gw)) (gw_snapshots gw) tid t1 t2 = (r, sn')"
      by fastforce
    have "r = Inr p"
      using pc assms(2, 3) unfolding snapshots_agree_def
      by (auto simp: pc_defs store_get_def split: option.splits sum.splits if_splits)
    with g pc a(2) show ?thesis by (simp add: resolve_policy_def)
  qed
  with a t1 t2 g assms(4) show ?thesis
    by (simp add: chat_start_def chat_admit_def authorize_def require_role_def enforce_kill_switch_def
        blocked_answer_def Let_def)
qed

text \<open>What a refused chat request leaves alone.\<close>

definition refusing :: "string \<Rightarrow> tenant_policy \<Rightarrow> gateway_event list \<Rightarrow> 'key gateway \<Rightarrow> bool" where
  "refusing tid p tr gw \<longleftrightarrow> snapshots_agree gw \<and> gw_policies gw tid = Some p \<and> tr_of gw = tr"

lemma refusing_world: "refusing tid p tr gw \<Longrightarrow> w_trace w = tr \<Longrightarrow> refusing tid p tr (gw\<lparr>gw_world := w\<rparr>)"
  by (simp add: refusing_def snapshots_agree_def)

lemma refusing_log: "refusing tid p tr gw \<Longrightarrow> refusing tid p tr (log_to r gw)"
  by (simp add: refusing_def snapshots_agree_def)

lemma serve_chat_blocked:
  assumes "serve deps matches req b gw = (r, hdr, gw')" "refusing tid p tr gw"
    and "acts_for deps req tid (chat_required_role (dp_settings deps))" "state p \<in> BLOCKING_STATES"
    and "matches app_routes (hr_method req) (hr_path req) = Inr (Chat, params)"
  shows "refusing tid p tr gw' \<and> r = blocked_answer p (request_id_of req)"
proof -
  obtain t0 w0 where tk0: "tick deps (gw_world gw) = (t0, w0)" by (cases "tick deps (gw_world gw)")
  have g0: "refusing tid p tr (gw\<lparr>gw_world := w0\<rparr>)"
    using refusing_world [OF assms(2)] tick_traceD [OF tk0] assms(2) by (simp add: refusing_def)
  then obtain sp gw1 where st: "chat_start deps (request_id_of req) req (gw\<lparr>gw_world := w0\<rparr>) =
      (Inl (blocked_answer p (request_id_of req), sp), gw1)"
    using blocked_chat_start [OF assms(3) _ _ assms(4), of "gw\<lparr>gw_world := w0\<rparr>" "request_id_of req"]
    unfolding refusing_def by blast
  from chat_start_state(1, 2) [OF st] g0 have g1: "refusing tid p tr gw1" by (simp add: refusing_def admit_frame_def)
  obtain t1 w1 where tk1: "tick deps (gw_world gw1) = (t1, w1)" by (cases "tick deps (gw_world gw1)")
  have g2: "refusing tid p tr (gw1\<lparr>gw_world := w1\<rparr>)"
    using refusing_world [OF g1] tick_traceD [OF tk1] g1 by (simp add: refusing_def)
  show ?thesis
    using assms(1, 5) tk0 st tk1 refusing_log [OF g2]
    by (auto simp: serve_def dispatch_def app_handler_def endpoint_handler_def chat_def blocked_answer_def Let_def)
qed

text \<open>The admin change that blocks a tenant.\<close>

definition state_body :: "tenant_state \<Rightarrow> json option" where
  "state_body st = Some (JObj [(''state'', JStr (state_value st))])"

lemma find_state_value: "find (\<lambda>s. state_value s = state_value st) tenant_states = Some st"
  by (cases st) (simp_all add: tenant_states_def)

lemma serve_set_state:
  assumes "serve deps matches req (state_body st) gw = (r, hdr, gw')" "refusing tid p tr gw"
    and "acts_for deps req admin_tid (admin_required_role (dp_settings deps))"
    and "matches app_routes (hr_method req) (hr_path req) = Inr (SetTenantState, params)" "map_of params ''tenant_id'' = Some tid"
  shows "refusing tid (with_state st p) tr gw' \<and> status_of r = 200"
proof -
  obtain t0 w0 where tk0: "tick deps (gw_world gw) = (t0, w0)" by (cases "tick deps (gw_world gw)")
  have g0: "refusing tid p tr (gw\<lparr>gw_world := w0\<rparr>)"
    using refusing_world [OF assms(2)] tick_traceD [OF tk0] assms(2) by (simp add: refusing_def)
  obtain i gw1 where st: "admin_start deps (request_id_of req) req (gw\<lparr>gw_world := w0\<rparr>) = (Inr i, gw1)"
  proof -
    obtain i v w where "authenticate (app_verify deps) (gw_verifier gw, w0) (Some (dp_iam deps))
      (hr_authorization req) (hr_principal_arn req) (hr_account_id req) = (Inr i, v, w)"
      "has_role i (admin_required_role (dp_settings deps))"
      using assms(3) unfolding acts_for_def by blast
    with that show ?thesis by (simp add: admin_start_def authorize_def require_role_def Let_def)
  qed
  from admin_start_state [OF st] admin_start_frame [OF st] g0 have g1: "refusing tid p tr gw1"
    by (simp add: refusing_def admit_frame_def snapshots_agree_def)
  obtain out gw2 where body: "admin_body deps (request_id_of req) i tid (state_body st) gw1 = (out, gw2)"
    by (cases "admin_body deps (request_id_of req) i tid (state_body st) gw1")
  from g1 have "gw_policies gw1 tid = Some p" by (simp add: refusing_def)
  with body have out: "gw_policies gw2 tid = Some (with_state st p) \<and> (\<exists>j. out = Json j \<and> status_code j = 200)"
    by (auto simp: admin_body_def state_body_def dict_get_def find_state_value store_set_state_def store_get_def
        with_state_def Let_def)
  with admin_body_frame [OF body] g1 have g2: "refusing tid (with_state st p) tr gw2" by (simp add: refusing_def)
  obtain t1 w1 where tk1: "tick deps (gw_world gw2) = (t1, w1)" by (cases "tick deps (gw_world gw2)")
  have g3: "refusing tid (with_state st p) tr (gw2\<lparr>gw_world := w1\<rparr>)"
    using refusing_world [OF g2] tick_traceD [OF tk1] g2 by (simp add: refusing_def)
  show ?thesis
    using assms(1, 4, 5) tk0 st body out tk1 refusing_log [OF g3]
    by (auto simp: serve_def dispatch_def app_handler_def endpoint_handler_def admin_endpoint_def Let_def)
qed

section \<open>A guardrail that is down\<close>

lemma admission_refusal_status:
  assumes "chat_start deps rid req gw = (Inl (Json j, sp), gw')"
  shows "status_code j \<noteq> 200"
proof -
  from assms obtain e where e: "fst (chat_admit deps req gw) = Inl e" "Json j = reject rid e"
    by (auto simp: chat_start_def split: prod.splits sum.splits)
  obtain auth v w where a: "authenticate (app_verify deps) (gw_verifier gw, gw_world gw) (Some (dp_iam deps))
      (hr_authorization req) (hr_principal_arn req) (hr_account_id req) = (auth, v, w)" by (metis prod_cases3)
  have "pe_status e \<in> {401, 403, 429, 500}" if "e = PipelineError st c m" for st c m
  proof -
    have auth: "st \<in> {401, 403, 500}" if "auth = Inl (PipelineError st c m)"
      using a that by (auto simp: authenticate_def authenticate_iam_def missing_bearer_def Let_def
          split: option.splits list.splits sum.splits if_splits prod.splits verify_error.splits)
    have resolve: "st = 403" if "resolve_policy fr x f sn i tc ts = (Inl (PipelineError st c m), sn')" for fr x f sn i tc ts sn'
      using that
      by (cases "id_tenant_id i") (auto simp: resolve_policy_def not_provisioned_def split: prod.splits sum.splits)
    show ?thesis
      using that e(1) a auth resolve
      by (auto simp: chat_admit_def authorize_def enforce_kill_switch_def enforce_rate_limit_def Let_def
          split: sum.splits prod.splits if_splits)
  qed
  with e(2) show ?thesis by (cases e) (auto simp: error_response_def)
qed

lemma serve_outage:
  assumes "serve deps matches req b gw = (r, hdr, gw')" "reachable deps policies (gw, [])" "outage deps policies"
    and "matches_documented matches" "matches app_routes (hr_method req) (hr_path req) = Inr (Chat, params)"
  shows "reachable deps policies (gw', []) \<and> status_of r \<noteq> 200"
proof -
  obtain t0 w0 where tk0: "tick deps (gw_world gw) = (t0, w0)" by (cases "tick deps (gw_world gw)")
  let ?g = "gw\<lparr>gw_world := w0\<rparr>" and ?rid = "request_id_of req"
  have r0: "reachable deps policies (?g, [])" using reach_step [OF assms(2) clock_read] tk0 by simp
  obtain out sp g1 where c: "chat deps ?rid req b ?g = ((out, sp), g1)" by (metis prod.exhaust)
  obtain st g2 where s: "chat_start deps ?rid req ?g = (st, g2)" by (cases "chat_start deps ?rid req ?g")
  have out: "(\<exists>j. out = Json j \<and> status_code j \<noteq> 200) \<or> (\<exists>x. out = Unhandled x)"
  proof (cases st)
    case (Inl a)
    obtain o1 s1 where a: "a = (o1, s1)" by (cases a)
    with c s Inl have o: "out = o1" by (simp add: chat_def)
    from s Inl a have refused: "chat_start deps ?rid req ?g = (Inl (o1, s1), g2)" by simp
    then obtain e where e: "o1 = reject ?rid e" by (auto simp: chat_start_def split: prod.splits sum.splits)
    show ?thesis
    proof (cases e)
      case (PipelineError status err_code m)
      with e obtain j where j: "o1 = Json j" by simp
      from admission_refusal_status [OF refused [unfolded j]] o j show ?thesis by blast
    next
      case (Crash t)
      with e o show ?thesis by simp
    qed
  next
    case (Inr cx)
    from reach_step [OF r0 chat_admitted [OF s [unfolded Inr]]] have "reachable deps policies (g2, [AwaitChat cx])" .
    from outage_answer [OF this assms(3), of cx b] c s Inr show ?thesis by (auto simp: chat_def)
  qed
  from chat_reachable [OF c r0] out have r1: "reachable deps policies (g1, [])" by auto
  obtain t1 w1 where tk1: "tick deps (gw_world g1) = (t1, w1)" by (cases "tick deps (gw_world g1)")
  have r2: "reachable deps policies (g1\<lparr>gw_world := w1\<rparr>, [])" using reach_step [OF r1 clock_read] tk1 by simp
  note logged = reach_step [OF _ line_logged]
  show ?thesis
    using assms(1, 5) tk0 c tk1 out r2
    by (auto simp: serve_def dispatch_def app_handler_def endpoint_handler_def unhandled_error_def error_response_def Let_def
        intro!: logged)
qed

section \<open>Properties\<close>

text \<open>
  C7: the kill-switch scenario. In any reachable state, an administrator's request that sets a tenant to
  SUSPENDED or EMERGENCY\_BLOCK is answered with 200, and of a burst of any size that follows, every request of
  the tenant is refused with 403 \<open>TENANT_BLOCKED\<close>; no guardrail, no model and no cache is asked for any of them.
\<close>

theorem kill_switch_scenario:
  assumes "reachable deps policies (gw, ps)" and "gw_policies gw tid = Some p" and "st \<in> BLOCKING_STATES"
    and "acts_for deps areq admin_tid (admin_required_role (dp_settings deps))"
    and "matches app_routes (hr_method areq) (hr_path areq) = Inr (SetTenantState, params)"
    and "map_of params ''tenant_id'' = Some tid"
    and "\<And>i. acts_for deps (fst (reqs i)) tid (chat_required_role (dp_settings deps))"
    and "\<And>i. \<exists>params. matches app_routes (hr_method (fst (reqs i))) (hr_path (fst (reqs i))) = Inr (Chat, params)"
    and "serve deps matches areq (state_body st) gw = (r, hdr, gw1)"
    and "fire_requests deps matches reqs n gw1 = (outs, gw2)"
  shows "status_of r = 200 \<and> length outs = n \<and> w_trace (gw_world gw2) = w_trace (gw_world gw) \<and>
    (\<forall>i < n. outs ! i = Json (error_response 403 ''TENANT_BLOCKED''
       (''tenant '' @ quoted (tenant_id p) @ '' is '' @ state_value st) (request_id_of (fst (reqs i)))))"
proof -
  let ?p = "with_state st p" and ?tr = "w_trace (gw_world gw)"
  from reachable_ok [OF assms(1)] assms(2) have "refusing tid p ?tr gw" by (simp add: refusing_def sys_ok_def)
  from serve_set_state [OF assms(9) this assms(4-6)] have set: "refusing tid ?p ?tr gw1" "status_of r = 200" by blast+
  have blocking: "state ?p \<in> BLOCKING_STATES" using assms(3) by (simp add: with_state_def)
  have burst: "refusing tid ?p ?tr gw2 \<and> length outs = n \<and>
      (\<forall>i < n. outs ! i = blocked_answer ?p (request_id_of (fst (reqs i))))"
  proof (rule fire_concurrent_rule [where Q = "refusing tid ?p ?tr" and
      P = "\<lambda>i out. out = blocked_answer ?p (request_id_of (fst (reqs i)))", OF assms(10) [unfolded fire_requests_def] set(1)])
    fix i g out g'
    assume g: "refusing tid ?p ?tr g" and "(let (r, _, gw) = serve deps matches (fst (reqs i)) (snd (reqs i)) g in (r, gw)) = (out, g')"
    then obtain hdr' where s: "serve deps matches (fst (reqs i)) (snd (reqs i)) g = (out, hdr', g')"
      by (auto split: prod.splits)
    from assms(8) obtain params' where "matches app_routes (hr_method (fst (reqs i))) (hr_path (fst (reqs i))) = Inr (Chat, params')" by blast
    from serve_chat_blocked [OF s g assms(7) blocking this]
    show "refusing tid ?p ?tr g' \<and> out = blocked_answer ?p (request_id_of (fst (reqs i)))" .
  qed
  with set(2) show ?thesis by (simp add: refusing_def blocked_answer_def with_state_def)
qed

lemma kill_switch_scenario_witness:
  "\<exists>r hdr gw1 outs gw2.
     serve (sample_deps id allow_all) sample_matches
       (sample_request\<lparr>hr_method := ''PUT'', hr_path := ''/v1/admin/tenants/{tenant_id}/state''\<rparr>) (state_body EMERGENCY_BLOCK)
       (create_app sample_policies) = (r, hdr, gw1) \<and>
     fire_requests (sample_deps id allow_all) sample_matches (\<lambda>_. (sample_request, Some sample_body)) 10 gw1 = (outs, gw2) \<and>
     status_of r = 200 \<and> length outs = 10 \<and> w_trace (gw_world gw2) = []"
proof -
  let ?deps = "sample_deps id allow_all" and ?areq = "sample_request\<lparr>hr_method := ''PUT'', hr_path := ''/v1/admin/tenants/{tenant_id}/state''\<rparr>"
  obtain r hdr gw1 where s: "serve ?deps sample_matches ?areq (state_body EMERGENCY_BLOCK) (create_app sample_policies) = (r, hdr, gw1)"
    by (metis prod_cases3)
  obtain outs gw2 where f: "fire_requests ?deps sample_matches (\<lambda>_. (sample_request, Some sample_body)) 10 gw1 = (outs, gw2)"
    by (metis prod.exhaust)
  have iam: "iam_resolve (dp_iam ?deps) ''arn'' = Inr sample_grant" by (simp add: sample_deps_def iam_resolve_def)
  have acts: "acts_for ?deps req ''acme'' role" if "hr_principal_arn req = Some ''arn''" "role \<in> {''developer'', ''platform_admin''}" for req role
    by (rule iam_acts_for [OF that(1) iam]) (use that(2) in \<open>auto simp: sample_grant_def\<close>)
  have "status_of r = 200 \<and> length outs = 10 \<and> w_trace (gw_world gw2) = w_trace (gw_world (create_app sample_policies :: unit gateway)) \<and>
    (\<forall>i < 10. outs ! i = Json (error_response 403 ''TENANT_BLOCKED''
       (''tenant '' @ quoted (tenant_id sample_policy) @ '' is '' @ state_value EMERGENCY_BLOCK)
       (request_id_of (fst (sample_request, Some sample_body)))))"
    by (rule kill_switch_scenario [where tid = "''acme''" and params = "[(''tenant_id'', ''acme'')]",
        OF reach_init _ _ acts _ _ acts _ s f])
      (auto simp: create_app_def BLOCKING_STATES_def sample_request_def sample_settings_def sample_matches_def app_routes_def
        build_router_def build_admin_router_def)
  with s f show ?thesis by (auto simp: create_app_def)
qed

text \<open>
  C29: the guardrail scenario. With the harness's flaky guardrail at a failure rate of one, over tenants
  without the bypass flag, no chat request of a burst of any size is answered with 200, whatever it asks for,
  and no model, stream or cache is reached: the trace of the whole burst holds input checks only.
\<close>

theorem flaky_guardrail_scenario:
  assumes "build_scenario_app env public_pem tenants check_in check_out = (deps, gw)"
    and "\<And>k t gp. \<exists>g. failure_rate g = rate \<and> check_in k t gp = fst (flaky_check_input rand t gp g)"
    and "1 \<le> rate" and "\<And>k. rand k < 1"
    and "\<And>t p. tenants t = Some p \<Longrightarrow> \<not> allow_guardrail_bypass_on_error p"
    and "matches_documented matches"
    and "\<And>i. \<exists>params. matches app_routes (hr_method (fst (reqs i))) (hr_path (fst (reqs i))) = Inr (Chat, params)"
    and "fire_requests deps matches reqs n gw = (outs, gw')"
  shows "length outs = n \<and> list_all (\<lambda>r. status_of r \<noteq> 200) outs \<and>
    list_all (\<lambda>ev. \<exists>p t c. ev = GuardIn p t c) (w_trace (gw_world gw'))"
proof -
  have gw: "gw = create_app tenants" and check: "dp_check_input deps = check_in" using assms(1) by (auto simp: build_scenario_app_def)
  have "\<exists>e. check_in k t gp = Inl e" for k t gp
  proof -
    from assms(2) obtain g where g: "failure_rate g = rate" "check_in k t gp = fst (flaky_check_input rand t gp g)" by blast
    have "rand (input_checks g) < failure_rate g" using g(1) assms(3) assms(4) [of "input_checks g"] by linarith
    with g(2) show ?thesis by (simp add: flaky_check_input_def Let_def)
  qed
  with assms(5) have out: "outage deps tenants" by (simp add: outage_def check)
  have burst: "reachable deps tenants (gw', []) \<and> length outs = n \<and> (\<forall>i < n. status_of (outs ! i) \<noteq> 200)"
  proof (rule fire_concurrent_rule [where Q = "\<lambda>g. reachable deps tenants (g, [])" and P = "\<lambda>i out. status_of out \<noteq> 200",
      OF assms(8) [unfolded fire_requests_def]])
    show "reachable deps tenants (gw, [])" unfolding gw by (rule reach_init)
    fix i g o1 g'
    assume g: "reachable deps tenants (g, [])"
      and "(let (r, _, gw) = serve deps matches (fst (reqs i)) (snd (reqs i)) g in (r, gw)) = (o1, g')"
    then obtain hdr where s: "serve deps matches (fst (reqs i)) (snd (reqs i)) g = (o1, hdr, g')" by (auto split: prod.splits)
    from assms(7) obtain params where "matches app_routes (hr_method (fst (reqs i))) (hr_path (fst (reqs i))) = Inr (Chat, params)" by blast
    from serve_outage [OF s g out assms(6) this] show "reachable deps tenants (g', []) \<and> status_of o1 \<noteq> 200" .
  qed
  with service_outage [OF _ out, of "(gw', [])"] show ?thesis
    by (simp add: abs_service_def only_input_checks_def list_all_length)
qed

lemma flaky_guardrail_scenario_witness:
  "\<exists>deps gw outs gw'. build_scenario_app (sample_deps id allow_all) () sample_policies
       (\<lambda>_ t gp. fst (flaky_check_input (\<lambda>_. 0) t gp \<lparr>failure_rate = 1, input_checks = 0, failures = 0\<rparr>)) (\<lambda>_. always_allow) = (deps, gw) \<and>
     fire_requests deps sample_matches (\<lambda>_. (sample_request, Some sample_body)) 30 gw = (outs, gw') \<and>
     length outs = 30 \<and> list_all (\<lambda>r. status_of r \<noteq> 200) outs"
proof -
  let ?check = "\<lambda>(_ :: nat) t gp. fst (flaky_check_input (\<lambda>_. 0) t gp \<lparr>failure_rate = 1, input_checks = 0, failures = 0\<rparr>)"
  obtain deps gw where b: "build_scenario_app (sample_deps id allow_all) () sample_policies ?check (\<lambda>_. always_allow) = (deps, gw)"
    by (metis prod.exhaust)
  obtain outs gw' where f: "fire_requests deps sample_matches (\<lambda>_. (sample_request, Some sample_body)) 30 gw = (outs, gw')"
    by (metis prod.exhaust)
  have "length outs = 30 \<and> list_all (\<lambda>r. status_of r \<noteq> 200) outs \<and>
      list_all (\<lambda>ev. \<exists>p t c. ev = GuardIn p t c) (w_trace (gw_world gw'))"
  proof (rule flaky_guardrail_scenario [OF b _ _ _ _ sample_matches_documented _ f, where rate = 1 and rand = "\<lambda>_. 0"])
    show "\<exists>g. failure_rate g = 1 \<and> ?check k t gp = fst (flaky_check_input (\<lambda>_. 0) t gp g)" for k t gp
      by (rule exI [of _ "\<lparr>failure_rate = 1, input_checks = 0, failures = 0\<rparr>"]) simp
  qed (auto simp: sample_policy_def sample_request_def sample_matches_def app_routes_def build_router_def
      build_admin_router_def split: if_splits)
  with b f show ?thesis by blast
qed

end
