(* ===== verification/Load_Generators.thy ===== *)
theory Load_Generators
  imports App
begin

text \<open>
  The locust files of the load tests (\<open>loadtests/*/locustfile.py\<close>): what each kind of user posts. Locust
  itself (its scheduling, its HTTP client and its statistics) is not modelled; a user is the wait between
  its tasks, in seconds, and the arguments of the \<open>client.post\<close> its task makes. \<open>env\<close> is the environment.
\<close>

record locust_user =
  lu_wait :: "py_float \<times> py_float"
  lu_path :: string
  lu_json :: json
  lu_headers :: "(string \<times> string) list"
  lu_name :: string

definition getenv :: "(string \<rightharpoonup> string) \<Rightarrow> string \<Rightarrow> string" where
  "getenv env var = (case env var of None \<Rightarrow> [] | Some v \<Rightarrow> v)"

definition user_says :: "string \<Rightarrow> json" where
  "user_says said = JObj [(''messages'', JArr [JObj [(''role'', JStr ''user''), (''content'', JStr said)]])]"

definition NoisyTenantUser :: "(string \<rightharpoonup> string) \<Rightarrow> locust_user" where
  "NoisyTenantUser env =
     \<lparr>lu_wait = (1 / 100, 5 / 100), lu_path = ''/v1/chat'', lu_json = user_says ''hi'',
      lu_headers = [(''authorization'', ''Bearer '' @ getenv env ''GATEWAY_TOKEN_A'')],
      lu_name = ''/v1/chat [tenant-a, noisy]''\<rparr>"

definition QuietTenantUser :: "(string \<rightharpoonup> string) \<Rightarrow> locust_user" where
  "QuietTenantUser env =
     \<lparr>lu_wait = (1 / 2, 1), lu_path = ''/v1/chat'', lu_json = user_says ''hi'',
      lu_headers = [(''authorization'', ''Bearer '' @ getenv env ''GATEWAY_TOKEN_B'')],
      lu_name = ''/v1/chat [tenant-b, quiet]''\<rparr>"

definition failure_ChatUser :: "(string \<rightharpoonup> string) \<Rightarrow> locust_user" where
  "failure_ChatUser env =
     \<lparr>lu_wait = (1 / 10, 1 / 2), lu_path = ''/v1/chat'', lu_json = user_says ''hi'',
      lu_headers = [(''authorization'', ''Bearer '' @ getenv env ''GATEWAY_TOKEN'')], lu_name = ''/v1/chat''\<rparr>"

definition guardrails_ChatUser :: "(string \<rightharpoonup> string) \<Rightarrow> locust_user" where
  "guardrails_ChatUser env =
     \<lparr>lu_wait = (1 / 10, 1 / 2), lu_path = ''/v1/chat'', lu_json = user_says ''hi'',
      lu_headers = [(''authorization'', ''Bearer '' @ getenv env ''GATEWAY_TOKEN'')], lu_name = ''/v1/chat''\<rparr>"

definition bedrock_ChatUser :: "(string \<rightharpoonup> string) \<Rightarrow> locust_user" where
  "bedrock_ChatUser env =
     \<lparr>lu_wait = (1 / 10, 1 / 2), lu_path = ''/v1/chat'', lu_json = user_says ''Say hello in one sentence.'',
      lu_headers = [(''authorization'', ''Bearer '' @ getenv env ''GATEWAY_TOKEN'')], lu_name = ''/v1/chat''\<rparr>"

definition locust_users :: "(string \<rightharpoonup> string) \<Rightarrow> locust_user list" where
  "locust_users env = [NoisyTenantUser env, QuietTenantUser env, failure_ChatUser env, guardrails_ChatUser env, bedrock_ChatUser env]"

definition locust_request :: "locust_user \<Rightarrow> string \<Rightarrow> http_request" where
  "locust_request u uuid =
     \<lparr>hr_authorization = map_of (lu_headers u) ''authorization'', hr_principal_arn = None, hr_account_id = None,
      hr_request_id = None, hr_method = ''POST'', hr_path = lu_path u, hr_uuid = uuid\<rparr>"

lemmas locust_defs = locust_users_def NoisyTenantUser_def QuietTenantUser_def failure_ChatUser_def guardrails_ChatUser_def
  bedrock_ChatUser_def

text \<open>What the users post is a valid request, so a load run measures the chat path and not its rejections.\<close>

lemma user_says_valid:
  assumes "said \<noteq> []"
  shows "model_validate p (user_says said) =
    Inr \<lparr>rq_model = None, rq_messages = [\<lparr>msg_role = ''user'', msg_content = said\<rparr>], rq_max_tokens = 1024,
      rq_temperature = 7 / 10, rq_stream = False\<rparr>"
  using assms
  by (simp add: user_says_def model_validate_def fields_of_def model_field_def messages_field_def last_message_is_user_def
      bounded_field_def Suc_le_eq)

lemma locust_users_valid:
  "list_all (\<lambda>u. \<exists>cr. model_validate p (lu_json u) = Inr cr \<and> \<not> rq_stream cr) (locust_users env)"
proof -
  have hello: "\<exists>cr. model_validate p (user_says said) = Inr cr \<and> \<not> rq_stream cr" if "said \<noteq> []" for said
    using user_says_valid [OF that] by simp
  show ?thesis by (simp add: locust_defs hello)
qed

end
