(* ===== verification/Spec2Isabelle.thy ===== *)
theory Spec2Isabelle
  imports Default_App Gateway_Stores Failing_Model Cache_Freshness Policy_Threads Fault_Scenarios Load_Generators
begin

text \<open>
  A verification library for the Bedrock gateway platform, \<open>src/services/gateway\<close>: a multi-tenant HTTP
  gateway in front of Amazon Bedrock.

  \<^bold>\<open>The program.\<close> A chat request passes, in this order, authentication (a bearer token or an IAM
  principal), RBAC, the tenant's policy snapshot, the kill switch, the rate limit, body validation, the
  model allowlist, the input guardrail, the response cache, the certified router with its circuit
  breakers and the retrying Bedrock client, the output guardrail, the cache write, debug capture and
  telemetry; a streamed request leaves the path after the input guardrail. An admin request changes a
  tenant's state and invalidates its snapshot. Handlers are coroutines of one event loop and give way only
  where they await the body (and, in a stream, the disconnect poll).

  \<^bold>\<open>The theories.\<close> Each opens with what it holds; definitions keep the names of the source.

  \<^item> \<open>Prelude\<close>: results as sums (\<open>py_exn + 'a\<close>), parsed JSON and YAML documents, Python's string and dict
    operations, \<open>round\<close> to even; the collections \<open>frame\<close> and \<open>inv_intros\<close>.
  \<^item> \<open>Regex\<close>, \<open>Regex_Sub\<close>: the part of \<open>re\<close> that the code uses, as a backtracking matcher with a measure,
    proved equal to a relational semantics; \<open>search\<close> and \<open>sub\<close>.
  \<^item> \<open>Json_Text\<close>: \<open>json.dumps\<close> with and without sorted keys; the text determines the document.
  \<^item> \<open>Interfaces\<close>: the locales. \<open>keyed_state\<close> (one slot per key; interpreted by the limiter and the breaker),
    \<open>ttl_store\<close> (a read answers the last write under its key, taken less than the TTL ago) and its extension
    \<open>ttl_store_exact\<close> (interpreted by the policy cache, the response cache and the debug store),
    \<open>simulation\<close> (a transition system that implements another; interpreted by the breakers over their
    three-state machine and by the event loop over the abstract service).
  \<^item> \<open>Guardrails\<close> (\<open>guardrails/\<close>), \<open>Debug_Capture\<close> (\<open>telemetry/debug_capture.py\<close>), \<open>Rate_Limiter\<close>
    (\<open>policy/rate_limiter.py\<close>), \<open>Policy_Store\<close> (\<open>policy/models.py\<close>, \<open>policy/store.py\<close>; locale
    \<open>mutable_policy_store\<close>), \<open>Policy_Cache\<close> (\<open>policy/cache.py\<close>), \<open>Policy_Threads\<close> (the same under several
    threads, the locked parts of each call as steps), \<open>Circuit_Breaker\<close> (\<open>routing/circuit_breaker.py\<close>: as one
    three-state machine per model, and as a function of each model's history), \<open>Identity\<close> (\<open>auth/identity.py\<close>,
    \<open>rbac.py\<close>, \<open>aws_iam.py\<close>), \<open>Jwt_Verifier\<close> (\<open>auth/jwt_verifier.py\<close>).
  \<^item> \<open>Schemas\<close> (\<open>api/schemas.py\<close>, \<open>api/errors.py\<close>), \<open>Cache_Keys\<close> (\<open>cache/keys.py\<close>), \<open>Response_Cache\<close>
    (\<open>cache/store.py\<close>), \<open>Bedrock_Client\<close> (\<open>inference/bedrock_client.py\<close>), \<open>Router\<close> (\<open>routing/router.py\<close>;
    locales \<open>model_client\<close> and \<open>recording_client\<close>), \<open>Streaming\<close> (\<open>streaming.py\<close>: the generator over
    combinators for \<open>yield\<close>, \<open>await\<close>, \<open>except\<close> and \<open>finally\<close>), \<open>Telemetry\<close> (\<open>telemetry/cost.py\<close>, \<open>slo.py\<close>,
    \<open>logging.py\<close>, \<open>otel.py\<close>), \<open>Config\<close> (\<open>config.py\<close>), \<open>Pipeline\<close> (\<open>pipeline.py\<close>).
  \<^item> \<open>Gateway\<close>: the state of the app (\<open>gateway\<close>, one field per store that \<open>create_app\<close> builds), its wiring and the
    world around it. \<open>Chat_Handler\<close>: the chat handler of \<open>api/routes.py\<close> cut at its \<open>await\<close> into \<open>chat_start\<close> and
    \<open>chat_body\<close>, and the run of a stream. \<open>Admin_Handler\<close>: the handler of \<open>api/admin_routes.py\<close>, cut likewise.
    \<open>Middleware\<close>: \<open>telemetry/middleware.py\<close> and the last exception handler.
  \<^item> \<open>Gateway_Safety\<close>: the order of events every handler keeps. \<open>Event_Loop\<close>: the step relation that
    interleaves requests, its reachable states and their invariants. \<open>Gateway_Stores\<close>: the invariants of
    the single stores in every reachable state.
  \<^item> \<open>Request_Lifecycle\<close>: the specification of one admitted request, a finite automaton over its events with the
    response of each phase, and the proof that every part of the handler runs it. \<open>Service_Spec\<close>: the abstract
    service (stored policies, a multiset of waiting requests, the trace), the simulation by the event loop, and
    the abstract invariants that carry over. \<open>Service_Quota\<close>: the admission bound of whole runs.
    \<open>Failing_Model\<close>: the bound on the requests that any run routes to a model that is down.
    \<open>Cache_Freshness\<close>: a policy change makes every earlier cache entry of the tenant unreachable.
  \<^item> \<open>App\<close>: the route table and one request from end to end (\<open>serve\<close>: middleware, routing, handler, log line).
    \<open>Default_App\<close>: \<open>create_app\<close> with nothing injected, started from its configuration and key files.
  \<^item> \<open>Dev_Keys\<close> (\<open>auth/devkeys.py\<close>, \<open>scripts/generate_dev_token.py\<close>), \<open>Load_Scenarios\<close>
    (\<open>loadtests/fault_injection.py\<close>, \<open>loadtests/harness.py\<close>), \<open>Fault_Scenarios\<close> (\<open>build_scenario_app\<close> and the kill-switch
    and guardrail scenarios over \<open>serve\<close>) and \<open>Load_Generators\<close> (the locust files): the development tools, with
    what the load tests sample proved for every burst.

  \<^bold>\<open>What the lemmas show.\<close> Per component: bounds and isolation of the limiter, staleness and provenance of
  the caches, what the breaker's answers say of the history, the retry loop's termination and outcome, the
  certified calls and what the router makes of them, the frames, the clean-up and the breaker effect of a
  stream however it ends, what an accepted token or grant
  implies, what the patterns find and what redaction removes. Across components: the service refines its
  specification and each request its automaton; no model is called without clearance, an answer is the
  tenant's own and, unless it is a stream, passed the output check, the kill switch is immediate for new requests and out of reach of
  waiting ones, only administrators change policies, a policy's epoch identifies it and a change
  puts every earlier cache entry out of reach, admissions stay within
  the quota, requests reach a model that is down at most as often as its breaker's threshold and one per reset timeout, a guardrail outage stops every model, every request is answered and logged once and only a token
  can crash one; with the built-in guardrail neither prompts nor JSON answers hold what it looks for.

  \<^bold>\<open>Parameters.\<close> Code that is not in the repository is an argument: the record \<open>deps\<close> holds the clocks,
  boto3 (\<open>sdk\<close>), PyJWT and the JWKS download (\<open>jwt_lib\<close>), pydantic's number and boolean conversions, SHA-256,
  the \<open>repr\<close> of a float, jitter, and the guardrail client that may be injected. Each call of them is
  numbered by a counter in the state, so answers may change from call to call. Hypotheses about them are
  named: \<open>float_text\<close> (a float's text is made of number characters and determines it), injectivity of
  the digest on the texts of a run's queries, \<open>matches_documented\<close> (Starlette's choice is a route of the table
  with its path parameters), \<open>pair_round_trips\<close> (a key pair decodes what it signed), a monotonic clock.
  The guardrail client raises nothing but \<open>GuardrailCheckError\<close>, as its protocol says.

  \<^bold>\<open>Abstractions.\<close> Floats are exact rationals, with \<open>round\<close> to even at the code's places; strings are
  lists of 8-bit characters (Latin-1), so \<open>str.lower\<close> and \<open>\d\<close> are modelled for those; the stores' locks make each
  operation atomic, and \<open>PolicySnapshotCache.get\<close> is also given in its two locked parts. A server that leaves a
  stream is a budget: the number of suspension points the generator gets past before \<open>CancelledError\<close> or
  \<open>GeneratorExit\<close> is raised at one; \<open>run_stream\<close> is one step of the event loop, so that other requests run
  before or after a stream and not between its frames, and the bursts of the scenarios are sequences. The events in
  \<open>w_trace\<close> are not in the code: they record the calls in order for the theorems to speak about.

  \<^bold>\<open>Bounds.\<close> No definition has fuel. The retry loop recurses with the measure \<open>max_retries - attempt\<close>,
  \<open>Pattern.sub\<close> with the length of the rest of the text; all other loops are structural (the matcher
  in the pattern; an unbounded repetition is cut at the length of the rest of the text, which is enough
  because every optional round consumes a character).

  \<^bold>\<open>Not modelled.\<close> \<open>generate_dev_keypair\<close> (the cryptography package), argument parsing, what OpenTelemetry
  does with spans, the parsing of YAML and HTTP, the \<open>ContextVar\<close> of the request id (nothing reads it), boto3's
  client configuration, a model client injected in place of the Bedrock client (the tests' fakes; the router is
  proved for any client), the uvicorn entry point, the protocols' empty method bodies, and of \<open>loadtests/\<close> the httpx
  client and locust itself. The wall-clock time a blocked event loop spends is not modelled either. Not
  claimed because the code does not do it: route-set fallbacks are not checked against the tenant's
  allowlist (the theorems name both as admitted), and streams have no output check.
\<close>

section \<open>Properties of the assembled service\<close>

text \<open>
  C1: no model call without clearance. In every reachable state, whatever requests, admin changes and
  streams were interleaved, each call of a model was made under a policy snapshot that is not blocked, for
  a model the tenant's allowlist or certified route set admits, and only after an input guardrail check
  of exactly the prompt that was sent let it through.
\<close>

theorem model_calls_cleared:
  assumes "reachable deps policies (gw, ps)"
    and "w_trace (gw_world gw) = xs @ ModelCall policy m messages # ys"
  shows "state policy \<notin> BLOCKING_STATES \<and>
     (models policy = [] \<or> List.member (models policy) m \<or>
       List.member (fallbacks_for (dp_route_sets deps) (route_set policy)) m) \<and>
     (\<exists>check. GuardIn policy (join newline (map bm_text messages)) check \<in> set xs \<and> text_passed policy check)"
proof -
  from reachable_ok [OF assms(1)] have "safe_trace deps (w_trace (gw_world gw))" by (simp add: sys_ok_def good_def)
  from safe_trace_event [OF this assms(2)] show ?thesis by (simp add: certified_def input_passed_def prompt_text_def)
qed

lemma model_calls_cleared_witness:
  "\<exists>check. GuardIn sample_policy ''hi'' check \<in> set [GuardIn sample_policy ''hi'' (Inr allow_decision)] \<and>
     text_passed sample_policy check"
proof -
  obtain ps where r: "reachable (sample_deps id allow_all) sample_policies (sample_end id allow_all, ps)"
    using sample_reachable_end by blast
  from model_calls_cleared [OF r, of "[GuardIn sample_policy ''hi'' (Inr allow_decision)]" sample_policy "''m''"
      "[\<lparr>bm_role = ''user'', bm_text = ''hi''\<rparr>]"] sample_run [of allow_all id]
  show ?thesis by simp
qed

text \<open>
  the same holds of streams: a stream is only admitted to a model for an unblocked policy, an
  admitted model and a prompt that passed.
\<close>

theorem stream_calls_cleared:
  assumes "reachable deps policies (gw, ps)"
    and "w_trace (gw_world gw) = xs @ StreamCall policy m messages # ys"
  shows "state policy \<notin> BLOCKING_STATES \<and>
     (models policy = [] \<or> List.member (models policy) m \<or>
       List.member (fallbacks_for (dp_route_sets deps) (route_set policy)) m) \<and>
     (\<exists>check. GuardIn policy (join newline (map bm_text messages)) check \<in> set xs \<and> text_passed policy check)"
proof -
  from reachable_ok [OF assms(1)] have "safe_trace deps (w_trace (gw_world gw))" by (simp add: sys_ok_def good_def)
  from safe_trace_event [OF this assms(2)] show ?thesis by (simp add: certified_def input_passed_def prompt_text_def)
qed

text \<open>
  C5: where a 200 comes from. A chat request that is answered with 200 validates, and gets one of two
  things. If it asked for no stream: a JSON answer whose text some query with the same cache key (its own,
  or an earlier one) wrote to the cache, after an output guardrail check of that text under that query's
  policy let it through. If it asked for a stream: the stream of exactly its messages, from the model it is
  admitted to, after an input check of that prompt let it through; the text of a stream has no output check.
\<close>

theorem answers_passed_output_guardrail:
  assumes "reachable deps policies (gw, ps)" and "List.member ps (AwaitChat cx)"
    and "chat_body deps cx b gw = ((r, sp), gw')" and "status_of r = 200"
  shows "\<exists>body' cr m. b = Some body' \<and> model_validate (dp_pydantic deps) body' = Inr cr \<and>
     enforce_model_allowlist (cx_policy cx) (rq_model cr) (bedrock_model_id (dp_settings deps)) = Inr m \<and>
     (case r of
        Json j \<Rightarrow> \<not> rq_stream cr \<and> (\<exists>v q' check ms hit fb. r = ok_json (chat_response_of cx v ms hit fb) \<and>
          query_key deps q' = query_key deps (query_of cx m cr) \<and>
          GuardOut (cq_policy q') (cr_text v) check \<in> set (w_trace (gw_world gw')) \<and> text_passed (cq_policy q') check)
      | EventStream job \<Rightarrow> rq_stream cr \<and> sj_model job = m \<and> sj_messages job = bedrock_messages (rq_messages cr) \<and>
          (\<exists>check. GuardIn (cx_policy cx) (join newline (map msg_content (rq_messages cr))) check \<in> set (w_trace (gw_world gw')) \<and>
             text_passed (cx_policy cx) check)
      | Unhandled exc \<Rightarrow> False)"
proof -
  from answered_kind [OF assms(3, 4)] obtain body' cr m where
    b: "b = Some body'" "model_validate (dp_pydantic deps) body' = Inr cr"
      "enforce_model_allowlist (cx_policy cx) (rq_model cr) (bedrock_model_id (dp_settings deps)) = Inr m"
    and kind: "if rq_stream cr
      then \<exists>job check. r = EventStream job \<and> sj_model job = m \<and> sj_messages job = bedrock_messages (rq_messages cr) \<and>
        GuardIn (cx_policy cx) (combined_input_text (rq_messages cr)) check \<in> set (w_trace (gw_world gw')) \<and>
        text_passed (cx_policy cx) check
      else \<exists>j. r = Json j" by blast
  have "\<exists>v q' check ms hit fb. r = ok_json (chat_response_of cx v ms hit fb) \<and>
        query_key deps q' = query_key deps (query_of cx m cr) \<and>
        GuardOut (cq_policy q') (cr_text v) check \<in> set (w_trace (gw_world gw')) \<and> text_passed (cq_policy q') check"
    if json: "r = Json j" for j
  proof -
    from assms(2) have "AwaitChat cx \<in> set ps" by simp
    from answer_provenance [OF assms(1) this assms(3) [unfolded json]] assms(4) json b
    obtain v q' ms hit fb where "r = ok_json (chat_response_of cx v ms hit fb)"
      "query_key deps q' = query_key deps (query_of cx m cr)" "output_passed (w_trace (gw_world gw')) q' v" by auto
    then show ?thesis unfolding output_passed_def by blast
  qed
  with b kind show ?thesis
    by (intro exI [of _ body'] exI [of _ cr] exI [of _ m] conjI)
      (auto simp: combined_input_text_def simp del: ex_simps split: if_splits)
qed

lemma answers_passed_output_guardrail_witness:
  "\<exists>v (q' :: cache_query) check ms hit fb.
     ok_json (chat_response_of (admitted_ctx ''r1'' sample_caller sample_policy) sample_answer 0 False False) =
       ok_json (chat_response_of (admitted_ctx ''r1'' sample_caller sample_policy) v ms hit fb) \<and>
     GuardOut (cq_policy q') (cr_text v) check \<in> set (w_trace (gw_world (sample_end id allow_all))) \<and>
     text_passed (cq_policy q') check"
proof -
  from sample_answered [of allow_all id] obtain j sp
    where j: "Json j = ok_json (chat_response_of (admitted_ctx ''r1'' sample_caller sample_policy) sample_answer 0 False False)"
      "status_code j = 200"
      "chat_body (sample_deps id allow_all) (admitted_ctx ''r1'' sample_caller sample_policy) (Some sample_body)
        (sample_start id allow_all) = ((Json j, sp), sample_end id allow_all)" by metis
  have start: "List.member [AwaitChat (admitted_ctx ''r1'' sample_caller sample_policy)]
      (AwaitChat (admitted_ctx ''r1'' sample_caller sample_policy))" and status: "status_of (Json j) = 200"
    using j(2) by simp_all
  from answers_passed_output_guardrail [OF sample_reachable [of id allow_all] start j(3) status, unfolded http_response.case]
  have "\<exists>v (q' :: cache_query) check ms hit fb. Json j = ok_json (chat_response_of (admitted_ctx ''r1'' sample_caller sample_policy) v ms hit fb) \<and>
      GuardOut (cq_policy q') (cr_text v) check \<in> set (w_trace (gw_world (sample_end id allow_all))) \<and>
      text_passed (cq_policy q') check" by blast
  then show ?thesis unfolding j(1) .
qed

text \<open>
  C4: the answer is the tenant's own. If the digest does not collide on the canonical texts of the queries
  this run has written or answered, the query that wrote the text asked for the same tenant and application, with
  the same model, parameters and messages, and was admitted under exactly the policy that this request was
  admitted under: no text from before a policy change answers a request from after it.
\<close>

theorem answers_stay_in_tenant:
  assumes "reachable deps policies (gw, ps)" and "List.member ps (AwaitChat cx)"
    and "chat_body deps cx b gw = ((Json j, sp), gw')" and "status_code j = 200"
    and "float_text (dp_float_repr deps)"
    and "inj_on (dp_sha256_hex deps) (query_text deps ` queries_of (w_trace (gw_world gw')))"
  shows "\<exists>v cr m body' q' ms hit fb.
     b = Some body' \<and> model_validate (dp_pydantic deps) body' = Inr cr \<and>
     enforce_model_allowlist (cx_policy cx) (rq_model cr) (bedrock_model_id (dp_settings deps)) = Inr m \<and>
     Json j = ok_json (chat_response_of cx v ms hit fb) \<and> CacheWrite q' v \<in> set (w_trace (gw_world gw')) \<and>
     cq_tenant q' = id_tenant_id (cx_identity cx) \<and>
     sort_keys (cq_application q') = sort_keys (id_application_id (cx_identity cx)) \<and>
     cq_policy q' = cx_policy cx \<and> cq_model q' = m \<and> cq_max_tokens q' = rq_max_tokens cr \<and> cq_temperature q' = rq_temperature cr \<and>
     cq_messages q' = normalize_messages (rq_messages cr)"
proof -
  from assms(2) have p: "AwaitChat cx \<in> set ps" by simp
  from answer_provenance [OF assms(1) p assms(3, 4)] obtain v cr m body' q' ms hit fb
    where a: "b = Some body'" "model_validate (dp_pydantic deps) body' = Inr cr"
      "enforce_model_allowlist (cx_policy cx) (rq_model cr) (bedrock_model_id (dp_settings deps)) = Inr m"
      "Json j = ok_json (chat_response_of cx v ms hit fb)"
      "query_key deps q' = query_key deps (query_of cx m cr)" "output_passed (w_trace (gw_world gw')) q' v"
      "Answered (query_of cx m cr) v \<in> set (w_trace (gw_world gw'))" by blast
  from a(6, 7) have "q' \<in> queries_of (w_trace (gw_world gw'))" "query_of cx m cr \<in> queries_of (w_trace (gw_world gw'))"
    by (auto simp: queries_of_def output_passed_def)
  note q = query_key_fields [OF assms(5, 6) this a(5) pending_tenant [OF assms(1) p]]
  from a(6) have w: "CacheWrite q' v \<in> set (w_trace (gw_world gw'))" by (simp add: output_passed_def)
  note same = same_epoch_same_policy [OF assms(1) p assms(3) w q(1, 3)]
  show ?thesis by (intro exI conjI) (rule a(1) a(2) a(3) a(4) w q same)+
qed

lemma answers_stay_in_tenant_witness:
  "\<exists>v cr m body' q' ms hit fb.
     Some sample_body = Some body' \<and> model_validate (dp_pydantic (sample_deps id allow_all)) body' = Inr cr \<and>
     enforce_model_allowlist sample_policy (rq_model cr) (bedrock_model_id (dp_settings (sample_deps id allow_all))) = Inr m \<and>
     ok_json (chat_response_of (admitted_ctx ''r1'' sample_caller sample_policy) sample_answer 0 False False) =
       ok_json (chat_response_of (admitted_ctx ''r1'' sample_caller sample_policy) v ms hit fb) \<and>
     CacheWrite q' v \<in> set (w_trace (gw_world (sample_end id allow_all))) \<and>
     cq_tenant q' = JStr ''acme'' \<and> sort_keys (cq_application q') = sort_keys (JStr ''app'') \<and>
     cq_policy q' = sample_policy \<and> cq_model q' = m \<and> cq_max_tokens q' = rq_max_tokens cr \<and> cq_temperature q' = rq_temperature cr \<and>
     cq_messages q' = normalize_messages (rq_messages cr)"
proof -
  from sample_answered [of allow_all id] obtain j sp
    where j: "ok_json (chat_response_of (admitted_ctx ''r1'' sample_caller sample_policy) sample_answer 0 False False) = Json j"
      "status_code j = 200"
      "chat_body (sample_deps id allow_all) (admitted_ctx ''r1'' sample_caller sample_policy) (Some sample_body)
        (sample_start id allow_all) = ((Json j, sp), sample_end id allow_all)" by metis
  have ctx: "cx_policy (admitted_ctx ''r1'' sample_caller sample_policy) = sample_policy"
    "id_tenant_id (cx_identity (admitted_ctx ''r1'' sample_caller sample_policy)) = JStr ''acme''"
    "id_application_id (cx_identity (admitted_ctx ''r1'' sample_caller sample_policy)) = JStr ''app''"
    by (simp_all add: admitted_ctx_def sample_caller_def)
  have hash: "float_text (dp_float_repr (sample_deps id allow_all))"
    "inj_on (dp_sha256_hex (sample_deps id allow_all)) (query_text (sample_deps id allow_all) `
      queries_of (w_trace (gw_world (sample_end id allow_all))))"
    by (simp_all add: sample_deps_def fraction_text)
  from answers_stay_in_tenant [OF sample_reachable [of id allow_all] _ j(3, 2) hash] show ?thesis
    unfolding j(1) ctx by simp
qed

text \<open>
  C8: the kill switch is immediate. In every reachable state, while a tenant's stored policy is SUSPENDED
  or EMERGENCY\_BLOCK, no chat request of that tenant gets past admission: the snapshot cache never hides
  a state change of this process.
\<close>

theorem blocked_tenant_not_admitted:
  assumes "reachable deps policies (gw, ps)" and "gw_policies gw tid = Some p" and "state p \<in> BLOCKING_STATES"
    and "chat_start deps rid req gw = (Inr cx, gw')"
  shows "id_tenant_id (cx_identity cx) \<noteq> JStr tid"
proof
  assume t: "id_tenant_id (cx_identity cx) = JStr tid"
  from reachable_ok [OF assms(1)] have "snapshots_agree gw" by (simp add: sys_ok_def)
  from chat_start_state(3) [OF assms(4) this refl] t assms(2, 3) show False by auto
qed

lemma blocked_tenant_not_admitted_witness:
  "id_tenant_id (cx_identity (admitted_ctx ''r1'' sample_caller sample_policy)) \<noteq> JStr ''globex''"
proof -
  let ?policies = "sample_policies(''globex'' \<mapsto> sample_policy\<lparr>state := SUSPENDED\<rparr>)"
  from sample_admitted_over [of ?policies id allow_all] obtain gw
    where c: "chat_start (sample_deps id allow_all) ''r1'' sample_request (create_app ?policies) =
      (Inr (admitted_ctx ''r1'' sample_caller sample_policy), gw)" by auto
  show ?thesis
    by (rule blocked_tenant_not_admitted [OF reach_init [of _ ?policies] _ _ c, of _ "sample_policy\<lparr>state := SUSPENDED\<rparr>"])
      (simp_all add: create_app_def BLOCKING_STATES_def)
qed

text \<open>
  C16: but a request past admission is out of its reach. What a request does once its body has arrived
  does not depend on the policy store and the snapshot cache at all: one that waits for its body while
  an admin blocks its tenant still goes on to the model, as if nothing had happened.
\<close>

theorem inflight_request_ignores_kill_switch:
  "chat_body deps cx b (gw\<lparr>gw_policies := policies', gw_snapshots := snapshots'\<rparr>) =
     (fst (chat_body deps cx b gw),
      (snd (chat_body deps cx b gw))\<lparr>gw_policies := policies', gw_snapshots := snapshots'\<rparr>)"
  using with_policies_body [of deps cx b policies' snapshots' gw] unfolding with_policies_def
  by (cases "chat_body deps cx b gw") simp

text \<open>
  C11: only administrators change policies. When a step of the service changes the policy store, it is the
  continuation of an admin request whose caller has the admin role, and no other tenant's policy changes.
\<close>

theorem only_admins_change_policies:
  assumes "reachable deps policies (gw, ps)" and "step deps (gw, ps) (gw', ps')"
    and "gw_policies gw' t \<noteq> gw_policies gw t"
  shows "\<exists>rid i. List.member ps (AwaitAdmin rid i t) \<and> has_role i (admin_required_role (dp_settings deps))"
proof -
  from step_policies [OF assms(2, 3)] obtain rid i where p: "AwaitAdmin rid i t \<in> set ps" by blast
  with reachable_ok [OF assms(1)] have "pending_ok deps (AwaitAdmin rid i t)"
    unfolding sys_ok_def list_all_iff by blast
  with p show ?thesis by auto
qed

lemma only_admins_change_policies_witness:
  "\<exists>rid i. List.member [AwaitAdmin ''r1'' sample_caller ''acme''] (AwaitAdmin rid i ''acme'') \<and>
     has_role i (admin_required_role (dp_settings (sample_deps id allow_all)))"
  by (rule only_admins_change_policies [OF sample_admin_reachable sample_admin_step])
    (simp add: sample_admin_policies sample_policy_def)

text \<open>
  C19: what the bypass does to the cache. When the output check of a LOW-RISK tenant with the bypass flag
  raises, the completion is answered unchecked, and it is in the cache afterwards: later requests with
  the same key are served from there without any output check, although \<open>cache/store.py\<close> promises that only
  responses which passed the output guardrail are ever written.
\<close>

theorem bypassed_output_is_cached:
  assumes "classify_safety (guardrail_policy (cx_policy cx)) = LOW_RISK"
    and "allow_guardrail_bypass_on_error (cx_policy cx)"
    and "dp_check_output deps (w_guard_calls (gw_world gw)) (res_text result) (guardrail_policy (cx_policy cx)) = Inl exc"
    and "0 < response_cache_max_entries (dp_settings deps)" and "keys_distinct (gw_cache gw)"
  shows "\<exists>v sp gw' written.
     chat_finish deps cx q txt input_ms \<lparr>rt_result = result, rt_model_id = m, rt_fallback = fb\<rparr> gw =
       ((ok_json (chat_response_of cx v (res_latency_ms result) False fb), sp), gw') \<and>
     cr_text v = res_text result \<and> map_of (gw_cache gw') (query_key deps q) = Some (written, v)"
proof -
  obtain oms w where g: "output_guardrail deps (cx_policy cx) (res_text result) (gw_world gw) =
      (Inr \<lparr>action = ALLOW, category = None, reason = Some (''guardrail bypassed on error: '' @ exc)\<rparr>, oms, w)"
    using bypassed_output_guardrail [OF assms(1-3)] by blast
  obtain now w2 where t: "tick deps w = (now, w2)" by (cases "tick deps w")
  define v where "v = \<lparr>cr_text = res_text result, cr_stop_reason = res_stop_reason result,
     cr_input_tokens = res_input_tokens result, cr_output_tokens = res_output_tokens result, cr_model_id = m\<rparr>"
  obtain cache where c: "rc_set (rc_cfg (dp_settings deps)) (gw_cache gw) (query_key deps q) v now = (Inr (), cache)"
      "map_of cache (query_key deps q) = Some (now, v)"
    using rc_set_fresh [of "gw_cache gw" "rc_cfg (dp_settings deps)" "query_key deps q" v now] assms(4, 5)
    by (auto simp: rc_cfg_def)
  show ?thesis
    by (intro exI [of _ v]) (simp add: chat_finish_def Let_def g t c v_def [symmetric], simp add: v_def)
qed

definition careless_policy :: tenant_policy where
  "careless_policy = sample_policy\<lparr>guardrail_policy := ''chat-lowrisk'', allow_guardrail_bypass_on_error := True\<rparr>"

lemma bypassed_output_is_cached_witness:
  "\<exists>v sp gw' written.
     chat_finish (sample_deps id (\<lambda>_. Inl ''timeout'')) (admitted_ctx ''r1'' sample_caller careless_policy) sample_query ''hi'' 0
       \<lparr>rt_result = \<lparr>res_text = ''123-45-6789'', res_input_tokens = 1, res_output_tokens = 1, res_stop_reason = None,
           res_latency_ms = 0, res_retry_count = 0\<rparr>, rt_model_id = ''m'', rt_fallback = False\<rparr> (create_app sample_policies) =
       ((ok_json (chat_response_of (admitted_ctx ''r1'' sample_caller careless_policy) v 0 False False), sp), gw') \<and>
     cr_text v = ''123-45-6789'' \<and>
     map_of (gw_cache gw') (query_key (sample_deps id (\<lambda>_. Inl ''timeout'')) sample_query) = Some (written, v)"
proof -
  have low: "classify_safety ''chat-lowrisk'' = LOW_RISK" by code_simp
  show ?thesis
    using bypassed_output_is_cached [of "admitted_ctx ''r1'' sample_caller careless_policy"
        "sample_deps id (\<lambda>_. Inl ''timeout'')" "create_app sample_policies"
        "\<lparr>res_text = ''123-45-6789'', res_input_tokens = 1, res_output_tokens = 1, res_stop_reason = None,
           res_latency_ms = 0, res_retry_count = 0\<rparr>" "''timeout''" sample_query "''hi''" 0 "''m''" False]
    by (simp add: admitted_ctx_def careless_policy_def create_app_def keys_distinct_def low)
qed

text \<open>
  C17: the stores of the service stay sound. In every reachable state, with a positive failure threshold
  and a non-negative cache bound, each model's closed breaker is below the threshold and every other one
  has seen a failure, no bucket is overdrawn, the response cache has distinct keys within its bound, and the
  debug store holds no text in which a redaction pattern matches.
\<close>

theorem stores_stay_sound:
  assumes "reachable deps policies (gw, ps)"
    and "0 < circuit_breaker_failure_threshold (dp_settings deps)" and "0 \<le> response_cache_max_entries (dp_settings deps)"
  shows "cb_inv (breaker_cfg (dp_settings deps)) (cb_slot (gw_breakers gw) m) \<and>
     (case gw_limiter gw tid of None \<Rightarrow> True | Some b \<Rightarrow> 0 \<le> tokens b) \<and>
     distinct (map fst (gw_cache gw)) \<and> int (length (gw_cache gw)) \<le> response_cache_max_entries (dp_settings deps) \<and>
     (case gw_debug gw rid of None \<Rightarrow> True | Some r \<Rightarrow> redacted (redacted_input r) \<and> redacted (redacted_output r))"
proof -
  from stores_ok_reachable [OF assms(1)] assms(2, 3) have "stores_ok deps gw" by (simp add: sane_def)
  then show ?thesis
    by (auto simp: stores_ok_def breakers_ok_def limiter_inv_def cache_ok_def keys_distinct_def debug_ok_def split: option.split)
qed

lemma stores_stay_sound_witness:
  "distinct (map fst (gw_cache (sample_end id allow_all))) \<and> int (length (gw_cache (sample_end id allow_all))) \<le> 10"
proof -
  obtain ps where r: "reachable (sample_deps id allow_all) sample_policies (sample_end id allow_all, ps)"
    using sample_reachable_end by blast
  from stores_stay_sound [OF r, of "''m''" "''acme''" "''r1''"] show ?thesis by (simp add: sample_settings_def)
qed

text \<open>
  an unreachable guardrail fails closed. When the input check of an admitted request raises, the
  tenant being anything but LOW-RISK with the bypass flag, the request is answered with 503; neither the
  model nor the cache, the breakers or the debug store were touched, and only the failed check is in the
  trace.
\<close>

theorem guardrail_outage_fails_closed:
  assumes "enforce_model_allowlist (cx_policy cx) (rq_model cr) (bedrock_model_id (dp_settings deps)) = Inr m"
    and "dp_check_input deps (w_guard_calls (gw_world gw)) (combined_input_text (rq_messages cr))
           (guardrail_policy (cx_policy cx)) = Inl exc"
    and "\<not> (classify_safety (guardrail_policy (cx_policy cx)) = LOW_RISK \<and> allow_guardrail_bypass_on_error (cx_policy cx))"
  shows "\<exists>j sp gw'. chat_checked deps cx cr gw = ((Json j, sp), gw') \<and> status_code j = 503 \<and>
     w_trace (gw_world gw') = w_trace (gw_world gw) @ [GuardIn (cx_policy cx) (combined_input_text (rq_messages cr)) (Inl exc)] \<and>
     w_sdk_calls (gw_world gw') = w_sdk_calls (gw_world gw) \<and> gw_cache gw' = gw_cache gw \<and>
     gw_breakers gw' = gw_breakers gw \<and> gw_debug gw' = gw_debug gw"
  using assms
  by (auto simp: chat_checked_def input_guardrail_def check_input_guardrail_def guardrail_stage_def run_guardrail_check_def
      tick_def emit_def chat_failed_def log_to_def error_response_def Let_def)

lemma guardrail_outage_fails_closed_witness:
  "\<exists>j sp gw'. chat_checked (sample_deps id (\<lambda>_. Inl ''timeout'')) (admitted_ctx ''r1'' sample_caller sample_policy)
       \<lparr>rq_model = None, rq_messages = [\<lparr>msg_role = ''user'', msg_content = ''hi''\<rparr>], rq_max_tokens = 16,
         rq_temperature = 7 / 10, rq_stream = False\<rparr> (create_app sample_policies) = ((Json j, sp), gw') \<and> status_code j = 503"
  using guardrail_outage_fails_closed [of "admitted_ctx ''r1'' sample_caller sample_policy"
      "\<lparr>rq_model = None, rq_messages = [\<lparr>msg_role = ''user'', msg_content = ''hi''\<rparr>], rq_max_tokens = 16,
         rq_temperature = 7 / 10, rq_stream = False\<rparr>" "sample_deps id (\<lambda>_. Inl ''timeout'')" "''m''"
      "create_app sample_policies" "''timeout''"]
  by (simp add: admitted_ctx_def sample_policy_def enforce_model_allowlist_def) blast

end
